(* ===== verification/Prelude.thy ===== *)
theory Prelude
  imports Complex_Main "HOL-Library.Product_Lexorder"
begin

text \<open>
  Shared vocabulary of the development: Python exceptions as values of a sum type, the
  sequencing of operations that may raise, the handful of SQL shapes the gateway uses
  (\<open>SELECT ... WHERE\<close>, \<open>scalar_one\<close>, \<open>scalar_one_or_none\<close>, \<open>UPDATE ... WHERE\<close>), the width
  checks of PostgreSQL integer columns, the transaction bracket of \<open>database.py\<close>, and the
  generic list lemmas every table proof uses.
\<close>

named_theorems result_simps
named_theorems table_simps
named_theorems op_defs

type_synonym uuid = nat
type_synonym instant = int

abbreviation (input) microseconds_per_second :: int where
  "microseconds_per_second \<equiv> 1000000"

text \<open>\<open>timedelta(seconds=n)\<close> in microseconds, the resolution of Python's \<open>datetime\<close>.\<close>

definition seconds :: "int \<Rightarrow> int" where
  "seconds n = n * microseconds_per_second"

section \<open>Exceptions as values\<close>

text \<open>
  \<open>OrbiError code message status\<close> is the class of \<open>errors.py\<close>; the others are the Python,
  SQLAlchemy and driver exceptions that the gateway raises, catches or lets through.
\<close>

datatype exn =
    OrbiError string string nat
  | ValueError string
  | BudgetExceededError string
  | KeyError
  | VerificationError
  | NoResultFound
  | MultipleResultsFound
  | IntegrityError
  | DataError
  | RequestBodyTooLarge

type_synonym 'a result = "exn + 'a"

definition bind_result :: "'a result \<Rightarrow> ('a \<Rightarrow> 'b result) \<Rightarrow> 'b result" where
  "bind_result m k = (case m of Inl e \<Rightarrow> Inl e | Inr v \<Rightarrow> k v)"

definition guard_result :: "bool \<Rightarrow> exn \<Rightarrow> unit result" where
  "guard_result ok e = (if ok then Inr () else Inl e)"

lemma bind_result_Inl [simp, result_simps]: "bind_result (Inl e) k = Inl e"
  by (simp add: bind_result_def)

lemma bind_result_Inr [simp, result_simps]: "bind_result (Inr v) k = k v"
  by (simp add: bind_result_def)

lemma bind_result_eq_Inr [result_simps]:
  "bind_result m k = Inr y \<longleftrightarrow> (\<exists>v. m = Inr v \<and> k v = Inr y)"
  by (simp add: bind_result_def split: sum.split)

lemma bind_result_eq_Inl [result_simps]:
  "bind_result m k = Inl e \<longleftrightarrow> m = Inl e \<or> (\<exists>v. m = Inr v \<and> k v = Inl e)"
  by (simp add: bind_result_def split: sum.split)

lemma bind_result_assoc:
  "bind_result (bind_result m k) h = bind_result m (\<lambda>v. bind_result (k v) h)"
  by (simp add: bind_result_def split: sum.split)

lemma guard_result_eq_Inr [simp, result_simps]: "guard_result b e = Inr u \<longleftrightarrow> b"
  by (simp add: guard_result_def)

lemma guard_result_eq_Inl [simp, result_simps]: "guard_result b e = Inl e' \<longleftrightarrow> \<not> b \<and> e' = e"
  by (auto simp: guard_result_def)

lemma guard_result_True [simp]: "guard_result True e = Inr ()"
  by (simp add: guard_result_def)

lemma guard_result_False [simp]: "guard_result False e = Inl e"
  by (simp add: guard_result_def)

text \<open>A loop that runs an operation for each element and stops at the first exception.\<close>

fun fold_result :: "('r \<Rightarrow> 's \<Rightarrow> 's result) \<Rightarrow> 'r list \<Rightarrow> 's \<Rightarrow> 's result" where
  "fold_result f [] s = Inr s"
| "fold_result f (r # rs) s = bind_result (f r s) (fold_result f rs)"

lemma fold_result_invariant:
  assumes "fold_result f rs s = Inr t" and "P s"
    and step: "\<And>r u v. r \<in> set rs \<Longrightarrow> f r u = Inr v \<Longrightarrow> P u \<Longrightarrow> P v"
  shows "P t"
  using assms
proof (induction rs arbitrary: s)
  case Nil
  then show ?case by simp
next
  case (Cons r rs)
  then obtain u where u: "f r s = Inr u" and rest: "fold_result f rs u = Inr t"
    by (auto simp: result_simps)
  have "P u" using Cons.prems(2) Cons.prems(3) [OF _ u] by simp
  then show ?case using rest Cons.IH [of u] Cons.prems(3) by (meson list.set_intros(2))
qed

section \<open>Tables\<close>

text \<open>
  A table is the list of its rows in the order the database returns them. An \<open>UPDATE\<close>
  rewrites the rows that satisfy its condition, a \<open>SELECT\<close> filters them.
\<close>

definition update_where :: "('a \<Rightarrow> bool) \<Rightarrow> ('a \<Rightarrow> 'a) \<Rightarrow> 'a list \<Rightarrow> 'a list" where
  "update_where P f rows = map (\<lambda>r. if P r then f r else r) rows"

fun scalar_one_or_none :: "'a list \<Rightarrow> 'a option result" where
  "scalar_one_or_none [] = Inr None"
| "scalar_one_or_none [r] = Inr (Some r)"
| "scalar_one_or_none (r # s # rs) = Inl MultipleResultsFound"

fun scalar_one :: "'a list \<Rightarrow> 'a result" where
  "scalar_one [] = Inl NoResultFound"
| "scalar_one [r] = Inr r"
| "scalar_one (r # s # rs) = Inl MultipleResultsFound"

lemma scalar_one_eq_Inr [result_simps]: "scalar_one rows = Inr r \<longleftrightarrow> rows = [r]"
  by (cases rows rule: scalar_one.cases) auto

lemma scalar_one_or_none_eq_Some [result_simps]:
  "scalar_one_or_none rows = Inr (Some r) \<longleftrightarrow> rows = [r]"
  by (cases rows rule: scalar_one_or_none.cases) auto

lemma scalar_one_or_none_eq_None [result_simps]:
  "scalar_one_or_none rows = Inr None \<longleftrightarrow> rows = []"
  by (cases rows rule: scalar_one_or_none.cases) auto

lemma update_where_Nil [simp, table_simps]: "update_where P f [] = []"
  by (simp add: update_where_def)

lemma update_where_Cons [table_simps]:
  "update_where P f (r # rs) = (if P r then f r else r) # update_where P f rs"
  by (simp add: update_where_def)

lemma length_update_where [simp]: "length (update_where P f rows) = length rows"
  by (simp add: update_where_def)

lemma set_update_where:
  "set (update_where P f rows) = (\<lambda>r. if P r then f r else r) ` set rows"
  by (simp add: update_where_def)

lemma update_where_in:
  "s \<in> set (update_where P f rows) \<Longrightarrow> \<exists>r\<in>set rows. s = (if P r then f r else r)"
  by (auto simp: update_where_def)

lemma map_update_where:
  assumes "\<And>r. r \<in> set rows \<Longrightarrow> P r \<Longrightarrow> g (f r) = g r"
  shows "map g (update_where P f rows) = map g rows"
  using assms by (auto simp: update_where_def)

lemma update_where_cong:
  assumes "\<And>r. r \<in> set rows \<Longrightarrow> P r \<longleftrightarrow> Q r" and "\<And>r. r \<in> set rows \<Longrightarrow> P r \<Longrightarrow> f r = g r"
  shows "update_where P f rows = update_where Q g rows"
  using assms by (auto simp: update_where_def)

lemma update_where_none:
  assumes "\<And>r. r \<in> set rows \<Longrightarrow> \<not> P r"
  shows "update_where P f rows = rows"
  using assms by (simp add: update_where_def map_idI)

lemma filter_update_where:
  assumes "\<And>r. r \<in> set rows \<Longrightarrow> P r \<Longrightarrow> Q (f r) \<longleftrightarrow> Q r"
  shows "filter Q (update_where P f rows) = update_where P f (filter Q rows)"
  using assms by (induction rows) (auto simp: update_where_def)

text \<open>A primary key selects at most one row.\<close>

lemma filter_key_unique:
  assumes "distinct (map k rows)" and "r \<in> set rows"
  shows "filter (\<lambda>x. k x = k r) rows = [r]"
  using assms
proof (induction rows)
  case Nil
  then show ?case by simp
next
  case (Cons a rows)
  show ?case
  proof (cases "r = a")
    case True
    with Cons.prems have "filter (\<lambda>x. k x = k r) rows = []"
      by (auto simp: filter_empty_conv image_iff)
    with True show ?thesis by simp
  next
    case False
    with Cons.prems have "r \<in> set rows" and "k a \<noteq> k r" by force+
    with Cons show ?thesis by simp
  qed
qed

lemma filter_eq_singletonD:
  assumes "filter P rows = [r]"
  shows "r \<in> set rows" and "P r"
proof -
  from assms have "r \<in> set (filter P rows)" by simp
  then show "r \<in> set rows" and "P r" by auto
qed

lemma distinct_key_eq:
  assumes "distinct (map k rows)" and "a \<in> set rows" and "b \<in> set rows" and "k a = k b"
  shows "a = b"
  using assms by (meson distinct_map inj_onD)

lemma map_determined:
  assumes "map f xs = map f ys" and "\<And>a b. f a = f b \<Longrightarrow> g a = g b"
  shows "map g xs = map g ys"
  using assms(1)
proof (induction xs arbitrary: ys)
  case (Cons x xs)
  then obtain y zs where ys: "ys = y # zs" "f x = f y" "map f xs = map f zs" by auto
  from assms(2) [OF ys(2)] Cons.IH [OF ys(3)] show ?case by (simp only: ys(1) list.map)
qed simp

lemma sum_list_update_where:
  fixes g :: "'a \<Rightarrow> int"
  shows "sum_list (map g (update_where P f rows)) =
    sum_list (map g rows) + sum_list (map (\<lambda>r. g (f r) - g r) (filter P rows))"
  by (induction rows) (auto simp: update_where_def)

lemma filter_conj_key:
  "filter (\<lambda>r. P r \<and> Q r) rows = filter Q (filter P rows)"
  by (induction rows) auto

section \<open>Integer columns\<close>

text \<open>
  \<open>Integer\<close> and \<open>BigInteger\<close> columns hold signed 32-bit and 64-bit values; writing a value
  outside the range is refused by the driver or the server with a \<open>DataError\<close>.
\<close>

definition fits_int4 :: "int \<Rightarrow> bool" where
  "fits_int4 n \<longleftrightarrow> - 2147483648 \<le> n \<and> n \<le> 2147483647"

definition fits_int8 :: "int \<Rightarrow> bool" where
  "fits_int8 n \<longleftrightarrow> - 9223372036854775808 \<le> n \<and> n \<le> 9223372036854775807"

lemma fits_int4_int8: "fits_int4 n \<Longrightarrow> fits_int8 n"
  by (simp add: fits_int4_def fits_int8_def)

section \<open>Transactions\<close>

text \<open>
  \<open>Database.session\<close>: the body runs on a session; when it returns, its changes are
  committed, and when it raises, they are rolled back and the exception goes on.
\<close>

definition session_scope :: "('s \<Rightarrow> ('a \<times> 's) result) \<Rightarrow> 's \<Rightarrow> 'a result \<times> 's" where
  "session_scope body s =
     (case body s of
        Inl e \<Rightarrow> (Inl e, s)
      | Inr (v, s') \<Rightarrow> (Inr v, s'))"

lemma session_scope_rollback: "body s = Inl e \<Longrightarrow> session_scope body s = (Inl e, s)"
  by (simp add: session_scope_def)

lemma session_scope_commit: "body s = Inr (v, s') \<Longrightarrow> session_scope body s = (Inr v, s')"
  by (simp add: session_scope_def)

lemma session_scope_cases:
  obtains (rollback) e where "body s = Inl e" and "session_scope body s = (Inl e, s)"
  | (commit) v s' where "body s = Inr (v, s')" and "session_scope body s = (Inr v, s')"
  by (cases "body s") (auto simp: session_scope_def)

section \<open>Strings\<close>

text \<open>
  \<open>str.startswith\<close>, \<open>str.removeprefix\<close> and \<open>str.strip\<close>. Header values reach the code decoded
  as Latin-1, so a character is a \<open>char\<close>; \<open>is_space\<close> lists the Latin-1 characters that
  Python's \<open>str.isspace\<close> accepts.
\<close>

fun starts_with :: "'a list \<Rightarrow> 'a list \<Rightarrow> bool" where
  "starts_with [] s = True"
| "starts_with (p # ps) [] = False"
| "starts_with (p # ps) (c # cs) = (p = c \<and> starts_with ps cs)"

definition remove_prefix :: "'a list \<Rightarrow> 'a list \<Rightarrow> 'a list" where
  "remove_prefix p s = (if starts_with p s then drop (length p) s else s)"

lemma starts_with_iff: "starts_with p s \<longleftrightarrow> (\<exists>t. s = p @ t)"
  by (induction p s rule: starts_with.induct) auto

lemma starts_with_append [simp]: "starts_with p (p @ t)"
  by (simp add: starts_with_iff)

lemma remove_prefix_append [simp]: "remove_prefix p (p @ t) = t"
  by (simp add: remove_prefix_def)

definition is_space :: "char \<Rightarrow> bool" where
  "is_space c \<longleftrightarrow>
     (let n = (of_char c :: nat)
      in (9 \<le> n \<and> n \<le> 13) \<or> (28 \<le> n \<and> n \<le> 32) \<or> n = 133 \<or> n = 160)"

definition strip :: "string \<Rightarrow> string" where
  "strip s = rev (dropWhile is_space (rev (dropWhile is_space s)))"

lemma strip_no_space:
  assumes "\<forall>c\<in>set s. \<not> is_space c"
  shows "strip s = s"
proof -
  have drop: "dropWhile is_space t = t" if "\<forall>c\<in>set t. \<not> is_space c" for t
    using that by (cases t) auto
  from assms have "dropWhile is_space (rev s) = rev s" by (intro drop) simp
  with drop [OF assms] show ?thesis by (simp add: strip_def)
qed

end
