(* ===== verification/Regex.thy ===== *)
theory Regex
  imports Prelude
begin

text \<open>
  Regular expressions for the patterns of the gateway (\<open>re.fullmatch\<close> in
  \<open>services/api_keys.py\<close> and \<open>services/idempotency.py\<close>, the anchored \<open>pattern=\<close> constraints of
  \<open>schemas/api.py\<close>, the search pattern of \<open>logging.py\<close>): the language of an expression, a
  matcher by derivatives, and the proof that the matcher decides the language. A pattern
  \<open>^r$\<close> under \<open>fullmatch\<close> accepts exactly the strings of \<open>r\<close>: \<open>fullmatch\<close> leaves no
  trailing newline for \<open>$\<close> to skip.
\<close>

datatype regex =
    Never
  | Epsilon
  | Chars "char \<Rightarrow> bool"
  | Seq regex regex
  | Alt regex regex
  | Star regex

fun lang :: "regex \<Rightarrow> string set" where
  "lang Never = {}"
| "lang Epsilon = {[]}"
| "lang (Chars P) = {[c] | c. P c}"
| "lang (Seq r s) = {u @ v | u v. u \<in> lang r \<and> v \<in> lang s}"
| "lang (Alt r s) = lang r \<union> lang s"
| "lang (Star r) = {concat us | us. set us \<subseteq> lang r}"

fun nullable :: "regex \<Rightarrow> bool" where
  "nullable Never = False"
| "nullable Epsilon = True"
| "nullable (Chars P) = False"
| "nullable (Seq r s) = (nullable r \<and> nullable s)"
| "nullable (Alt r s) = (nullable r \<or> nullable s)"
| "nullable (Star r) = True"

fun deriv :: "char \<Rightarrow> regex \<Rightarrow> regex" where
  "deriv c Never = Never"
| "deriv c Epsilon = Never"
| "deriv c (Chars P) = (if P c then Epsilon else Never)"
| "deriv c (Seq r s) =
     (if nullable r then Alt (Seq (deriv c r) s) (deriv c s) else Seq (deriv c r) s)"
| "deriv c (Alt r s) = Alt (deriv c r) (deriv c s)"
| "deriv c (Star r) = Seq (deriv c r) (Star r)"

definition fullmatch :: "regex \<Rightarrow> string \<Rightarrow> bool" where
  "fullmatch r s = nullable (fold deriv s r)"

section \<open>Abbreviations of the pattern syntax\<close>

fun Lit :: "string \<Rightarrow> regex" where
  "Lit [] = Epsilon"
| "Lit (c # cs) = Seq (Chars ((=) c)) (Lit cs)"

fun Times :: "nat \<Rightarrow> regex \<Rightarrow> regex" where
  "Times 0 r = Epsilon"
| "Times (Suc n) r = Seq r (Times n r)"

fun UpTo :: "nat \<Rightarrow> regex \<Rightarrow> regex" where
  "UpTo 0 r = Epsilon"
| "UpTo (Suc n) r = Alt Epsilon (Seq r (UpTo n r))"

definition Between :: "nat \<Rightarrow> nat \<Rightarrow> regex \<Rightarrow> regex" where
  "Between m n r = Seq (Times m r) (UpTo (n - m) r)"

definition Plus :: "regex \<Rightarrow> regex" where
  "Plus r = Seq r (Star r)"

definition Opt :: "regex \<Rightarrow> regex" where
  "Opt r = Alt Epsilon r"

definition is_upper :: "char \<Rightarrow> bool" where
  "is_upper c \<longleftrightarrow> (let n = (of_char c :: nat) in 65 \<le> n \<and> n \<le> 90)"

definition is_lower :: "char \<Rightarrow> bool" where
  "is_lower c \<longleftrightarrow> (let n = (of_char c :: nat) in 97 \<le> n \<and> n \<le> 122)"

definition is_digit :: "char \<Rightarrow> bool" where
  "is_digit c \<longleftrightarrow> (let n = (of_char c :: nat) in 48 \<le> n \<and> n \<le> 57)"

definition is_alnum :: "char \<Rightarrow> bool" where
  "is_alnum c \<longleftrightarrow> is_upper c \<or> is_lower c \<or> is_digit c"

text \<open>The class \<open>[A-Za-z0-9_-]\<close> of the credential patterns.\<close>

definition url_char :: "char \<Rightarrow> bool" where
  "url_char c \<longleftrightarrow> is_alnum c \<or> c = CHR ''_'' \<or> c = CHR ''-''"

section \<open>The matcher decides the language\<close>

lemma lang_Star_iff: "s \<in> lang (Star r) \<longleftrightarrow> (\<exists>us. s = concat us \<and> set us \<subseteq> lang r)"
  by auto

lemma lang_Seq_Chars [simp]:
  "s \<in> lang (Seq (Chars P) r) \<longleftrightarrow> (\<exists>c t. s = c # t \<and> P c \<and> t \<in> lang r)"
proof
  assume "s \<in> lang (Seq (Chars P) r)"
  then show "\<exists>c t. s = c # t \<and> P c \<and> t \<in> lang r" by auto
next
  assume "\<exists>c t. s = c # t \<and> P c \<and> t \<in> lang r"
  then obtain c t where "s = [c] @ t" "[c] \<in> lang (Chars P)" "t \<in> lang r" by auto
  then show "s \<in> lang (Seq (Chars P) r)" unfolding lang.simps by blast
qed

lemma lang_Seq_iff: "s \<in> lang (Seq r t) \<longleftrightarrow> (\<exists>u v. s = u @ v \<and> u \<in> lang r \<and> v \<in> lang t)"
  unfolding lang.simps by blast

lemma lang_SeqI: "u \<in> lang r \<Longrightarrow> v \<in> lang t \<Longrightarrow> u @ v \<in> lang (Seq r t)"
  unfolding lang_Seq_iff by blast

declare lang.simps(4,6) [simp del]

lemma nullable_iff: "nullable r \<longleftrightarrow> [] \<in> lang r"
  by (induction r) (auto simp: lang_Seq_iff lang_Star_iff intro: exI [of _ "[]"])

lemma concat_eq_ConsD:
  assumes "concat us = c # s" and "set us \<subseteq> A"
  shows "\<exists>u vs. c # u \<in> A \<and> set vs \<subseteq> A \<and> s = u @ concat vs"
  using assms
proof (induction us)
  case Nil
  then show ?case by simp
next
  case (Cons w us)
  then show ?case by (cases w) auto
qed

lemma deriv_lang: "s \<in> lang (deriv c r) \<longleftrightarrow> c # s \<in> lang r"
proof (induction r arbitrary: s)
  case (Seq r t)
  have "c # s \<in> lang (Seq r t) \<longleftrightarrow>
      (\<exists>u v. s = u @ v \<and> c # u \<in> lang r \<and> v \<in> lang t) \<or> [] \<in> lang r \<and> c # s \<in> lang t"
    unfolding lang_Seq_iff by (auto simp: Cons_eq_append_conv)
  with Seq show ?case by (auto simp: nullable_iff lang_Seq_iff)
next
  case (Star r)
  show ?case
  proof
    assume "s \<in> lang (deriv c (Star r))"
    then obtain u v where "u \<in> lang (deriv c r)" "v \<in> lang (Star r)" "s = u @ v"
      by (auto simp: lang_Seq_iff)
    then obtain vs where "c # u \<in> lang r" "set vs \<subseteq> lang r" "s = u @ concat vs"
      using Star by (auto simp: lang_Star_iff)
    then have "c # s = concat ((c # u) # vs)" "set ((c # u) # vs) \<subseteq> lang r" by auto
    then show "c # s \<in> lang (Star r)" unfolding lang_Star_iff by blast
  next
    assume "c # s \<in> lang (Star r)"
    then obtain us where "concat us = c # s" "set us \<subseteq> lang r" unfolding lang_Star_iff by metis
    then obtain u vs where "c # u \<in> lang r" "set vs \<subseteq> lang r" "s = u @ concat vs"
      using concat_eq_ConsD by metis
    then have "u \<in> lang (deriv c r)" "concat vs \<in> lang (Star r)" "s = u @ concat vs"
      using Star by (auto simp: lang_Star_iff)
    then show "s \<in> lang (deriv c (Star r))" unfolding deriv.simps lang_Seq_iff by blast
  qed
qed auto

lemma fullmatch_iff: "fullmatch r s \<longleftrightarrow> s \<in> lang r"
proof -
  have "t \<in> lang (fold deriv s r) \<longleftrightarrow> s @ t \<in> lang r" for t
    by (induction s arbitrary: r) (simp_all add: deriv_lang)
  from this [of "[]"] show ?thesis by (simp add: fullmatch_def nullable_iff)
qed

section \<open>The language of the abbreviations\<close>

lemma lang_Lit [simp]: "s \<in> lang (Lit p) \<longleftrightarrow> s = p"
proof (induction p arbitrary: s)
  case (Cons c p)
  show ?case by (simp only: Lit.simps lang_Seq_Chars Cons) blast
qed simp

declare Lit.simps [simp del]

lemma lang_Times_Chars: "s \<in> lang (Times n (Chars P)) \<longleftrightarrow> length s = n \<and> list_all P s"
proof (induction n arbitrary: s)
  case (Suc n)
  then show ?case
    by (cases s) (simp_all only: Times.simps lang_Seq_Chars, auto)
qed auto

lemma lang_UpTo_Chars: "s \<in> lang (UpTo n (Chars P)) \<longleftrightarrow> length s \<le> n \<and> list_all P s"
proof (induction n arbitrary: s)
  case 0
  then show ?case by auto
next
  case (Suc n)
  then show ?case by (cases s) auto
qed

lemma lang_Between_Chars:
  assumes "m \<le> n"
  shows "s \<in> lang (Between m n (Chars P)) \<longleftrightarrow> m \<le> length s \<and> length s \<le> n \<and> list_all P s"
proof
  assume "s \<in> lang (Between m n (Chars P))"
  with assms show "m \<le> length s \<and> length s \<le> n \<and> list_all P s"
    by (auto simp: Between_def lang_Seq_iff lang_Times_Chars lang_UpTo_Chars)
next
  assume s: "m \<le> length s \<and> length s \<le> n \<and> list_all P s"
  then have "take m s \<in> lang (Times m (Chars P))" and "drop m s \<in> lang (UpTo (n - m) (Chars P))"
    by (auto simp: lang_Times_Chars lang_UpTo_Chars list_all_iff dest: in_set_takeD in_set_dropD)
  then have "take m s @ drop m s \<in> lang (Between m n (Chars P))"
    unfolding Between_def lang_Seq_iff by blast
  then show "s \<in> lang (Between m n (Chars P))" by simp
qed

lemma lang_Star_Chars: "s \<in> lang (Star (Chars P)) \<longleftrightarrow> list_all P s"
proof (induction s)
  case Nil
  have "concat [] \<in> lang (Star (Chars P))" unfolding lang_Star_iff by (intro exI [of _ "[]"]) simp
  then show ?case by simp
next
  case (Cons c s)
  have "c # s \<in> lang (Star (Chars P)) \<longleftrightarrow> s \<in> lang (deriv c (Star (Chars P)))"
    by (simp only: deriv_lang)
  also have "\<dots> \<longleftrightarrow> P c \<and> s \<in> lang (Star (Chars P))"
    by (cases "P c") (simp_all add: lang_Seq_iff)
  finally show ?case using Cons by simp
qed

lemma lang_Plus_Chars: "s \<in> lang (Plus (Chars P)) \<longleftrightarrow> s \<noteq> [] \<and> list_all P s"
  by (cases s) (auto simp: Plus_def lang_Star_Chars)

end
