(* ===== verification/Encoding.thy ===== *)
theory Encoding
  imports Regex
begin

text \<open>
  The parts of Python's standard library that the credentials and the middleware use:
  \<open>secrets.token_urlsafe\<close> (unpadded base64 with the URL-safe alphabet) from the random bytes
  it draws, the UTF-8 length of a string (\<open>len(s.encode())\<close>), the decimal rendering of an
  integer (\<open>str(n)\<close>, zero-padded fields of \<open>strftime\<close>), and \<open>int(text)\<close>, which accepts
  surrounding whitespace, a sign and single underscores between digits.
\<close>

section \<open>URL-safe base64\<close>

text \<open>The 6-bit groups of a byte sequence; the last group of a short tail is filled with zeros.\<close>

fun sextets :: "nat list \<Rightarrow> nat list" where
  "sextets [] = []"
| "sextets [a] = [a div 4, (a mod 4) * 16]"
| "sextets [a, b] = [a div 4, (a mod 4) * 16 + b div 16, (b mod 16) * 4]"
| "sextets (a # b # c # rest) =
     a div 4 # ((a mod 4) * 16 + b div 16) # ((b mod 16) * 4 + c div 64) # c mod 64 # sextets rest"

definition url_alphabet :: string where
  "url_alphabet = ''ABCDEFGHIJKLMNOPQRSTUVWXYZabcdefghijklmnopqrstuvwxyz0123456789-_''"

definition padding :: "nat list \<Rightarrow> string" where
  "padding bs = replicate ((3 - length bs mod 3) mod 3) (CHR ''='')"

definition urlsafe_b64encode :: "nat list \<Rightarrow> string" where
  "urlsafe_b64encode bs = map ((!) url_alphabet) (sextets bs) @ padding bs"

definition token_urlsafe :: "nat list \<Rightarrow> string" where
  "token_urlsafe bs = rev (dropWhile ((=) (CHR ''='')) (rev (urlsafe_b64encode bs)))"

definition is_bytes :: "nat list \<Rightarrow> bool" where
  "is_bytes bs \<longleftrightarrow> list_all (\<lambda>b. b < 256) bs"

lemma length_url_alphabet [simp]: "length url_alphabet = 64"
  by (simp add: url_alphabet_def)

lemma url_alphabet_chars: "list_all url_char url_alphabet"
  by (simp add: url_alphabet_def url_char_def is_alnum_def is_upper_def is_lower_def is_digit_def)

lemma url_alphabet_nth: "i < 64 \<Longrightarrow> url_char (url_alphabet ! i)"
  using url_alphabet_chars by (simp add: list_all_length)

lemma distinct_url_alphabet: "distinct url_alphabet"
  by (simp add: url_alphabet_def)

lemma sextets_bound: "is_bytes bs \<Longrightarrow> n \<in> set (sextets bs) \<Longrightarrow> n < 64"
proof (induction bs rule: sextets.induct)
  case (4 a b c rest)
  then show ?case by (auto simp: is_bytes_def)
qed (auto simp: is_bytes_def)

lemma length_sextets: "length (sextets bs) = (4 * length bs + 2) div 3"
  by (induction bs rule: sextets.induct) auto

lemma eq_not_url_char: "\<not> url_char (CHR ''='')"
  by (simp add: url_char_def is_alnum_def is_upper_def is_lower_def is_digit_def)

text \<open>Stripping the padding leaves the groups: none of their characters is \<open>=\<close>.\<close>

lemma token_urlsafe_eq:
  assumes "is_bytes bs"
  shows "token_urlsafe bs = map ((!) url_alphabet) (sextets bs)"
proof -
  let ?t = "map ((!) url_alphabet) (sextets bs)"
  have chars: "\<forall>c\<in>set ?t. c \<noteq> CHR ''=''"
    using sextets_bound [OF assms] url_alphabet_nth eq_not_url_char by fastforce
  have no_pad: "dropWhile ((=) (CHR ''='')) cs = cs" if "\<forall>c\<in>set cs. c \<noteq> CHR ''=''" for cs
    using that by (cases cs) auto
  have "dropWhile ((=) (CHR ''='')) (replicate k (CHR ''='') @ rev ?t) = rev ?t" for k
  proof (induction k)
    case 0
    show ?case using no_pad [of "rev ?t"] chars by simp
  qed simp
  then show ?thesis by (simp add: token_urlsafe_def urlsafe_b64encode_def padding_def)
qed

lemma token_urlsafe_chars: "is_bytes bs \<Longrightarrow> list_all url_char (token_urlsafe bs)"
  using sextets_bound url_alphabet_nth by (auto simp: token_urlsafe_eq list_all_iff)

lemma length_token_urlsafe: "is_bytes bs \<Longrightarrow> length (token_urlsafe bs) = (4 * length bs + 2) div 3"
  by (simp add: token_urlsafe_eq length_sextets)

text \<open>No entropy is lost: different bytes of one length give different tokens.\<close>

lemma div_mod_eq_nat: "(a::nat) div k = b div k \<Longrightarrow> a mod k = b mod k \<Longrightarrow> a = b"
  by (metis div_mult_mod_eq)

lemma mixed_radix_inj:
  assumes "x * k + y = x' * k + y'" and "y < k" and "y' < (k::nat)"
  shows "x = x' \<and> y = y'"
proof -
  have "(x * k + y) div k = x" "(x' * k + y') div k = x'" using assms(2,3) by simp_all
  with assms(1) show ?thesis by simp
qed

lemma pack_sextet_inj:
  "(a mod 4) * 16 + b div 16 = (a' mod 4) * 16 + b' div 16 \<Longrightarrow> b < 256 \<Longrightarrow> b' < (256::nat) \<Longrightarrow>
   a mod 4 = a' mod (4::nat) \<and> b div 16 = b' div 16"
  by (rule mixed_radix_inj) auto

lemma pack_sextet_inj':
  "(b mod 16) * 4 + c div 64 = (b' mod 16) * 4 + c' div 64 \<Longrightarrow> c < 256 \<Longrightarrow> c' < (256::nat) \<Longrightarrow>
   b mod 16 = b' mod (16::nat) \<and> c div 64 = c' div 64"
  by (rule mixed_radix_inj) auto

lemma sextets_inj:
  "length xs = length bs \<Longrightarrow> is_bytes xs \<Longrightarrow> is_bytes bs \<Longrightarrow> sextets xs = sextets bs \<Longrightarrow> xs = bs"
proof (induction xs arbitrary: bs rule: sextets.induct)
  case 1
  then show ?case by simp
next
  case (2 a)
  then obtain b where "bs = [b]" by (cases bs) auto
  with 2 show ?case by (auto intro: div_mod_eq_nat)
next
  case (3 a b)
  then obtain a' b' where bs: "bs = [a', b']" by (cases bs rule: sextets.cases) auto
  with 3 have "a mod 4 = a' mod 4 \<and> b div 16 = b' div 16"
    by (intro pack_sextet_inj) (auto simp: is_bytes_def)
  with 3 bs show ?case by (auto intro: div_mod_eq_nat)
next
  case (4 a b c xs)
  then obtain a' b' c' bs' where bs: "bs = a' # b' # c' # bs'"
    by (cases bs rule: sextets.cases) auto
  with 4 have ab: "a mod 4 = a' mod 4 \<and> b div 16 = b' div 16"
    by (intro pack_sextet_inj) (auto simp: is_bytes_def)
  from 4 bs have bc: "b mod 16 = b' mod 16 \<and> c div 64 = c' div 64"
    by (intro pack_sextet_inj') (auto simp: is_bytes_def)
  from 4 bs have "xs = bs'" by (auto simp: is_bytes_def)
  with 4 bs ab bc show ?case by (auto intro: div_mod_eq_nat)
qed

lemma token_urlsafe_inj:
  assumes "is_bytes xs" and "is_bytes bs" and "length xs = length bs"
    and "token_urlsafe xs = token_urlsafe bs"
  shows "xs = bs"
proof -
  have "\<forall>i\<in>set (sextets xs) \<union> set (sextets bs). i < length url_alphabet"
    using sextets_bound [OF assms(1)] sextets_bound [OF assms(2)] by auto
  then have inj: "inj_on ((!) url_alphabet) (set (sextets xs) \<union> set (sextets bs))"
    by (intro inj_on_nth distinct_url_alphabet)
  have "map ((!) url_alphabet) (sextets xs) = map ((!) url_alphabet) (sextets bs)"
    using assms(4) unfolding token_urlsafe_eq [OF assms(1)] token_urlsafe_eq [OF assms(2)] .
  then have "sextets xs = sextets bs" unfolding inj_on_map_eq_map [OF inj] .
  then show ?thesis by (rule sextets_inj [OF assms(3) assms(1,2)])
qed

section \<open>UTF-8 length\<close>

text \<open>
  A Python string is the list of its code points. \<open>text_of\<close> is a string of Latin-1 characters
  as such a list.
\<close>

type_synonym unicode = "nat list"

definition text_of :: "string \<Rightarrow> unicode" where
  "text_of s = map of_char s"

definition is_text :: "unicode \<Rightarrow> bool" where
  "is_text t \<longleftrightarrow> list_all (\<lambda>n. n < 1114112 \<and> \<not> (55296 \<le> n \<and> n \<le> 57343)) t"

definition utf8_width :: "nat \<Rightarrow> nat" where
  "utf8_width n = (if n < 128 then 1 else if n < 2048 then 2 else if n < 65536 then 3 else 4)"

definition utf8_length :: "unicode \<Rightarrow> nat" where
  "utf8_length t = sum_list (map utf8_width t)"

lemma utf8_length_ge: "length t \<le> utf8_length t"
  by (induction t) (auto simp: utf8_length_def utf8_width_def)

lemma utf8_length_le: "utf8_length t \<le> 4 * length t"
  by (induction t) (auto simp: utf8_length_def utf8_width_def)

lemma utf8_length_ascii: "list_all (\<lambda>n. n < 128) t \<Longrightarrow> utf8_length t = length t"
  by (induction t) (auto simp: utf8_length_def utf8_width_def)

section \<open>Integers and text\<close>

definition digit_char :: "nat \<Rightarrow> char" where
  "digit_char d = ''0123456789'' ! d"

fun show_nat :: "nat \<Rightarrow> string" where
  "show_nat n = (if n < 10 then [digit_char n] else show_nat (n div 10) @ [digit_char (n mod 10)])"

declare show_nat.simps [simp del]

definition show_int :: "int \<Rightarrow> string" where
  "show_int i = (if i < 0 then CHR ''-'' # show_nat (nat (- i)) else show_nat (nat i))"

definition digit_value :: "char \<Rightarrow> nat option" where
  "digit_value c = (if is_digit c then Some (of_char c - 48) else None)"

text \<open>
  The digits of \<open>int(text)\<close> in base 10. The flag says whether the last character was a digit:
  an underscore must follow one, and the text must end with one.
\<close>

fun parse_digits :: "nat \<Rightarrow> bool \<Rightarrow> string \<Rightarrow> nat option" where
  "parse_digits acc after_digit [] = (if after_digit then Some acc else None)"
| "parse_digits acc after_digit (c # cs) =
     (if c = CHR ''_'' then (if after_digit then parse_digits acc False cs else None)
      else case digit_value c of
             None \<Rightarrow> None
           | Some d \<Rightarrow> parse_digits (10 * acc + d) True cs)"

text \<open>
  \<open>max_str_digits\<close> is CPython's default limit on the digits of a decimal conversion; a longer
  text raises \<open>ValueError\<close> as a malformed one does.
\<close>

definition max_str_digits :: nat where
  "max_str_digits = 4300"

definition parse_unsigned :: "string \<Rightarrow> nat option" where
  "parse_unsigned s =
     (if length (filter is_digit s) > max_str_digits then None else parse_digits 0 False s)"

definition parse_int :: "string \<Rightarrow> int option" where
  "parse_int s =
     (case s of
        [] \<Rightarrow> None
      | c # cs \<Rightarrow>
          if c = CHR ''-'' then map_option (\<lambda>n. - int n) (parse_unsigned cs)
          else if c = CHR ''+'' then map_option int (parse_unsigned cs)
          else map_option int (parse_unsigned s))"

lemma digit_value_digit_char: "d < 10 \<Longrightarrow> digit_value (digit_char d) = Some d"
proof -
  assume "d < 10"
  then have "d \<in> {0, 1, 2, 3, 4, 5, 6, 7, 8, 9}" by auto
  then show ?thesis
    by (auto simp: digit_value_def digit_char_def is_digit_def)
qed

lemma digit_char_not_sign:
  assumes "d < 10"
  shows "digit_char d \<noteq> CHR ''_''" and "digit_char d \<noteq> CHR ''-''" and "digit_char d \<noteq> CHR ''+''"
    and "is_digit (digit_char d)"
proof -
  from assms have "d \<in> {0, 1, 2, 3, 4, 5, 6, 7, 8, 9}" by auto
  then show "digit_char d \<noteq> CHR ''_''" and "digit_char d \<noteq> CHR ''-''" and "digit_char d \<noteq> CHR ''+''"
    and "is_digit (digit_char d)"
    by (auto simp: digit_char_def is_digit_def)
qed

lemma show_nat_digits: "list_all is_digit (show_nat n)"
proof (induction n rule: show_nat.induct)
  case (1 n)
  then show ?case
    by (subst show_nat.simps) (auto simp: digit_char_not_sign)
qed

lemma parse_digits_show_nat_append:
  "parse_digits 0 b (show_nat n @ cs) = parse_digits n True cs"
proof (induction n arbitrary: b cs rule: show_nat.induct)
  case (1 n)
  show ?case
  proof (cases "n < 10")
    case True
    then show ?thesis
      by (subst show_nat.simps) (simp add: digit_value_digit_char digit_char_not_sign)
  next
    case False
    have "parse_digits 0 b (show_nat (n div 10) @ digit_char (n mod 10) # cs) =
        parse_digits (n div 10) True (digit_char (n mod 10) # cs)"
      using 1 False by simp
    also have "\<dots> = parse_digits n True cs"
      by (simp add: digit_value_digit_char digit_char_not_sign)
    finally show ?thesis using False by (subst show_nat.simps) simp
  qed
qed

lemma parse_digits_show_nat [simp]: "parse_digits 0 False (show_nat n) = Some n"
  using parse_digits_show_nat_append [of False n "[]"] by simp

text \<open>The width-\<open>w\<close> zero-padded fields of \<open>strftime\<close>.\<close>

definition zero_pad :: "nat \<Rightarrow> nat \<Rightarrow> string" where
  "zero_pad w n = (let s = show_nat n in replicate (w - length s) (CHR ''0'') @ s)"

lemma parse_digits_zeros: "parse_digits 0 b (replicate k (CHR ''0'') @ show_nat n) = Some n"
proof (induction k arbitrary: b)
  case 0
  show ?case using parse_digits_show_nat_append [of b n "[]"] by simp
qed (simp add: digit_value_def is_digit_def)

lemma zero_pad_inj: "zero_pad w m = zero_pad w n \<Longrightarrow> m = n"
  using parse_digits_zeros [of False _ m] parse_digits_zeros [of False _ n]
  by (metis option.inject zero_pad_def)

lemma length_show_nat_less: "n < 10 ^ k \<Longrightarrow> 0 < k \<Longrightarrow> length (show_nat n) \<le> k"
proof (induction k arbitrary: n)
  case 0
  then show ?case by simp
next
  case (Suc k)
  show ?case
  proof (cases "n < 10")
    case True
    then show ?thesis by (subst show_nat.simps) simp
  next
    case False
    with Suc.prems have "n div 10 < 10 ^ k" "0 < k"
      by (auto simp: less_mult_imp_div_less intro: gr0I)
    with Suc.IH False show ?thesis by (subst show_nat.simps) simp
  qed
qed

lemma length_zero_pad: "n < 10 ^ w \<Longrightarrow> 0 < w \<Longrightarrow> length (zero_pad w n) = w"
  using length_show_nat_less [of n w] by (simp add: zero_pad_def Let_def)

end
