(* ===== verification/Calendar.thy ===== *)
theory Calendar
  imports Prelude
begin

text \<open>
  The UTC calendar the gateway reads from Python's \<open>datetime\<close>: \<open>utc_date\<close> is
  \<open>datetime.now(UTC).date()\<close> of an instant (microseconds since 1970-01-01T00:00Z),
  \<open>replace_day_1\<close> is \<open>date.replace(day=1)\<close>, and \<open>minute_stamp\<close> is
  \<open>strftime("%Y%m%d%H%M")\<close>. Dates are ordered as Python orders them, by year, month and day.
\<close>

datatype date = Date (year_of: nat) (month_of: nat) (day_of: nat)

instantiation date :: linorder
begin

definition less_eq_date :: "date \<Rightarrow> date \<Rightarrow> bool" where
  "less_eq_date a b \<longleftrightarrow>
     (year_of a, month_of a, day_of a) \<le> (year_of b, month_of b, day_of b)"

definition less_date :: "date \<Rightarrow> date \<Rightarrow> bool" where
  "less_date a b \<longleftrightarrow> (year_of a, month_of a, day_of a) < (year_of b, month_of b, day_of b)"

instance
  by standard
    (auto simp: less_eq_date_def less_date_def prod_eq_iff intro: date.expand)

end

definition leap_year :: "nat \<Rightarrow> bool" where
  "leap_year y \<longleftrightarrow> y mod 4 = 0 \<and> (y mod 100 \<noteq> 0 \<or> y mod 400 = 0)"

definition year_length :: "nat \<Rightarrow> nat" where
  "year_length y = (if leap_year y then 366 else 365)"

definition month_lengths :: "nat \<Rightarrow> nat list" where
  "month_lengths y = [31, if leap_year y then 29 else 28, 31, 30, 31, 30, 31, 31, 30, 31, 30, 31]"

lemma year_length_pos [simp]: "0 < year_length y"
  by (simp add: year_length_def)

lemma sum_month_lengths: "sum_list (month_lengths y) = year_length y"
  by (simp add: month_lengths_def year_length_def)

text \<open>The year and the day in it, counting days from the first of January of \<open>y\<close>.\<close>

function split_year :: "nat \<Rightarrow> nat \<Rightarrow> nat \<times> nat" where
  "split_year y n = (if n < year_length y then (y, n) else split_year (Suc y) (n - year_length y))"
  by pat_completeness auto
termination
proof (relation "measure (\<lambda>(y, n). n)")
  fix y n :: nat
  assume "\<not> n < year_length y"
  then show "((Suc y, n - year_length y), (y, n)) \<in> measure (\<lambda>(y, n). n)"
    using year_length_pos [of y] by (auto simp del: year_length_pos)
qed simp

declare split_year.simps [simp del]

fun split_month :: "nat list \<Rightarrow> nat \<Rightarrow> nat \<Rightarrow> nat \<times> nat" where
  "split_month [] m n = (m, Suc n)"
| "split_month (l # ls) m n = (if n < l then (m, Suc n) else split_month ls (Suc m) (n - l))"

definition civil_date :: "nat \<Rightarrow> date" where
  "civil_date n =
     (let (y, d) = split_year 1970 n; (m, k) = split_month (month_lengths y) 1 d in Date y m k)"

abbreviation (input) microseconds_per_day :: int where
  "microseconds_per_day \<equiv> 86400000000"

definition utc_date :: "instant \<Rightarrow> date" where
  "utc_date t = civil_date (nat (t div microseconds_per_day))"

definition replace_day_1 :: "date \<Rightarrow> date" where
  "replace_day_1 d = Date (year_of d) (month_of d) 1"

text \<open>The accounting month of an instant, as \<open>BudgetService.reserve\<close> computes it.\<close>

definition utc_month :: "instant \<Rightarrow> date" where
  "utc_month t = replace_day_1 (utc_date t)"

section \<open>The calendar is monotone\<close>

lemma split_year_ge: "fst (split_year y n) \<ge> y"
proof (induction y n rule: split_year.induct)
  case (1 y n)
  then show ?case by (subst split_year.simps) (auto dest: Suc_leD)
qed

lemma split_year_strict_mono:
  "m < n \<Longrightarrow> split_year y m < split_year y n"
proof (induction y m arbitrary: n rule: split_year.induct)
  case (1 y m)
  show ?case
  proof (cases "n < year_length y")
    case True
    with 1 show ?thesis
      by (simp add: split_year.simps [of y m] split_year.simps [of y n])
  next
    case n: False
    show ?thesis
    proof (cases "m < year_length y")
      case True
      have "y < fst (split_year (Suc y) (n - year_length y))"
        using split_year_ge [of "Suc y" "n - year_length y"] by simp
      with True n show ?thesis
        by (simp add: split_year.simps [of y m] split_year.simps [of y n] less_prod_def')
    next
      case False
      with n 1 show ?thesis
        by (simp add: split_year.simps [of y m] split_year.simps [of y n] diff_less_mono)
    qed
  qed
qed

lemma split_month_ge: "fst (split_month ls m n) \<ge> m"
  by (induction ls m n rule: split_month.induct) (auto dest: Suc_leD)

lemma split_month_strict_mono:
  "a < b \<Longrightarrow> split_month ls m a < split_month ls m b"
proof (induction ls arbitrary: m a b)
  case Nil
  then show ?case by simp
next
  case (Cons l ls)
  show ?case
  proof (cases "b < l")
    case True
    with Cons.prems show ?thesis by simp
  next
    case b: False
    show ?thesis
    proof (cases "a < l")
      case True
      have "m < fst (split_month ls (Suc m) (b - l))"
        using split_month_ge [of "Suc m" ls "b - l"] by simp
      with True b show ?thesis by (simp add: less_prod_def')
    next
      case False
      with b Cons show ?thesis by (simp add: diff_less_mono)
    qed
  qed
qed

lemma civil_date_strict_mono: "m < n \<Longrightarrow> civil_date m < civil_date n"
proof -
  assume "m < n"
  then have lt: "split_year 1970 m < split_year 1970 n" by (rule split_year_strict_mono)
  obtain y d y' d' where ym: "split_year 1970 m = (y, d)" and yn: "split_year 1970 n = (y', d')"
    by fastforce
  show "civil_date m < civil_date n"
  proof (cases "y = y'")
    case True
    with lt ym yn have "d < d'" by simp
    then have "split_month (month_lengths y) 1 d < split_month (month_lengths y) 1 d'"
      by (rule split_month_strict_mono)
    with True ym yn show ?thesis
      by (auto simp: civil_date_def less_date_def split: prod.splits)
  next
    case False
    with lt ym yn have "y < y'" by auto
    with ym yn show ?thesis
      by (auto simp: civil_date_def less_date_def split: prod.splits)
  qed
qed

lemma civil_date_eq_iff [simp]: "civil_date m = civil_date n \<longleftrightarrow> m = n"
  using civil_date_strict_mono [of m n] civil_date_strict_mono [of n m]
  by (cases m n rule: linorder_cases) auto

lemma civil_date_mono: "m \<le> n \<Longrightarrow> civil_date m \<le> civil_date n"
  using civil_date_strict_mono [of m n] by (cases "m = n") auto

lemma utc_date_mono: "s \<le> t \<Longrightarrow> utc_date s \<le> utc_date t"
  by (simp add: utc_date_def civil_date_mono nat_mono zdiv_mono1)

lemma replace_day_1_mono: "a \<le> b \<Longrightarrow> replace_day_1 a \<le> replace_day_1 b"
  by (auto simp: replace_day_1_def less_eq_date_def)

lemma utc_month_mono: "s \<le> t \<Longrightarrow> utc_month s \<le> utc_month t"
  by (simp add: utc_month_def replace_day_1_mono utc_date_mono)

end
