(* ===== verification/Entities.thy ===== *)
theory Entities
  imports Calendar
begin

text \<open>
  The persisted entities of \<open>models/entities.py\<close>, one record per ORM class with the columns in
  the order the class declares them, and the database as the record of their tables.
  \<open>json\<close> is the value space of a \<open>JSONB\<close> column. The status strings become datatypes
  whose constructors are the literals that the code or the schema names. A nullable column is
  an \<open>option\<close>, with \<open>None\<close> for SQL \<open>NULL\<close>.
\<close>

datatype json =
    JNull
  | JBool bool
  | JNum rat
  | JStr string
  | JText "nat list"
  | JArr "json list"
  | JObj "(string \<times> json) list"

text \<open>PostgreSQL has no value for U+0000, neither in a text nor in the strings and names of a \<open>JSONB\<close> value:
  a statement that sends one is refused.\<close>

definition has_nul :: "string \<Rightarrow> bool" where
  "has_nul s \<longleftrightarrow> CHR 0x00 \<in> set s"

fun json_has_nul :: "json \<Rightarrow> bool" where
  "json_has_nul (JStr s) = has_nul s"
| "json_has_nul (JText t) = (0 \<in> set t)"
| "json_has_nul (JArr js) = list_ex json_has_nul js"
| "json_has_nul (JObj kvs) = list_ex (\<lambda>(k, v). has_nul k \<or> json_has_nul v) kvs"
| "json_has_nul _ = False"

datatype request_status =
    QUEUED | ASSIGNED | STARTING | RUNNING | STREAMING
  | COMPLETED | FAILED_FINAL | CANCELLED | EXPIRED

datatype worker_status = ONLINE | DRAINING | OFFLINE | SUSPENDED

record project =
  pj_id :: uuid
  pj_name :: string
  pj_slug :: string
  pj_owner_id :: uuid
  pj_monthly_token_limit :: int
  pj_monthly_tokens_used :: int
  pj_daily_token_limit :: int
  pj_daily_tokens_used :: int
  pj_daily_usage_date :: date
  pj_monthly_usage_month :: date
  pj_is_active :: bool
  pj_created_at :: instant

record api_key =
  ak_id :: uuid
  ak_project_id :: uuid
  ak_key_id :: string
  ak_display_prefix :: string
  ak_secret_hash :: string
  ak_environment :: string
  ak_name :: "string option"
  ak_scopes :: "string list"
  ak_expires_at :: "instant option"
  ak_revoked_at :: "instant option"
  ak_last_used_at :: "instant option"
  ak_total_requests :: int
  ak_total_tokens :: int
  ak_rpm_limit :: int
  ak_daily_req_limit :: int
  ak_daily_requests_used :: int
  ak_daily_requests_date :: date
  ak_created_at :: instant

record model_alias =
  ma_alias :: string
  ma_display_name :: "string option"
  ma_model_id :: string
  ma_fallback_alias :: "string option"
  ma_is_active :: bool
  ma_min_vram_gb :: "rat option"
  ma_required_capabilities :: json
  ma_supports_streaming :: bool
  ma_supports_tools :: bool
  ma_max_context_tokens :: int

record worker =
  wk_id :: uuid
  wk_provider_type :: string
  wk_name :: string
  wk_status :: worker_status
  wk_supported_models :: "string list"
  wk_capabilities :: json
  wk_current_queue_depth :: int
  wk_failure_count_1h :: int
  wk_p95_latency_ms :: "rat option"
  wk_token_jti :: "string option"
  wk_registered_at :: instant
  wk_last_heartbeat :: "instant option"
  wk_revoked_at :: "instant option"

record worker_enrollment_token =
  et_id :: uuid
  et_token_id :: string
  et_secret_hash :: string
  et_expires_at :: instant
  et_consumed_at :: "instant option"
  et_created_at :: instant

record orbi_request =
  rq_id :: uuid
  rq_idempotency_key :: "string option"
  rq_project_id :: uuid
  rq_api_key_id :: uuid
  rq_model_alias :: string
  rq_resolved_model :: string
  rq_payload :: json
  rq_required_capabilities :: json
  rq_priority :: int
  rq_status :: request_status
  rq_assigned_to :: "uuid option"
  rq_lease_expires :: "instant option"
  rq_retry_count :: int
  rq_max_retries :: int
  rq_created_at :: instant
  rq_expires_at :: instant
  rq_completed_at :: "instant option"
  rq_result :: "json option"
  rq_error_detail :: "json option"
  rq_input_tokens :: "int option"
  rq_output_tokens :: "int option"
  rq_reserved_tokens :: int
  rq_budget_day :: date
  rq_budget_month :: date

record usage_record =
  ur_id :: uuid
  ur_request_id :: uuid
  ur_project_id :: uuid
  ur_api_key_id :: uuid
  ur_worker_id :: "uuid option"
  ur_provider_type :: "string option"
  ur_model_id :: string
  ur_input_tokens :: int
  ur_output_tokens :: int
  ur_latency_ms :: "int option"
  ur_cost_usd :: rat
  ur_recorded_at :: instant

record incident =
  in_id :: uuid
  in_type :: string
  in_severity :: string
  in_worker_id :: "uuid option"
  in_detail :: json
  in_resolved_at :: "instant option"
  in_created_at :: instant

record db =
  projects :: "project list"
  api_keys :: "api_key list"
  model_aliases :: "model_alias list"
  workers :: "worker list"
  enrollment_tokens :: "worker_enrollment_token list"
  requests :: "orbi_request list"
  usage_records :: "usage_record list"
  incidents :: "incident list"

definition empty_db :: db where
  "empty_db = \<lparr>projects = [], api_keys = [], model_aliases = [], workers = [],
     enrollment_tokens = [], requests = [], usage_records = [], incidents = []\<rparr>"

text \<open>
  The statuses in which a worker holds a request (the \<open>IN\<close> list that \<open>queue.py\<close> repeats),
  and the statuses that no operation leaves.
\<close>

definition in_flight :: "request_status \<Rightarrow> bool" where
  "in_flight s \<longleftrightarrow> s \<in> set [ASSIGNED, STARTING, RUNNING, STREAMING]"

definition terminal :: "request_status \<Rightarrow> bool" where
  "terminal s \<longleftrightarrow> s \<in> set [COMPLETED, FAILED_FINAL, CANCELLED, EXPIRED]"

lemma in_flight_simps [simp]:
  "in_flight ASSIGNED" "in_flight STARTING" "in_flight RUNNING" "in_flight STREAMING"
  "\<not> in_flight QUEUED" "\<not> in_flight COMPLETED" "\<not> in_flight FAILED_FINAL"
  "\<not> in_flight CANCELLED" "\<not> in_flight EXPIRED"
  by (simp_all add: in_flight_def)

lemma terminal_simps [simp]:
  "terminal COMPLETED" "terminal FAILED_FINAL" "terminal CANCELLED" "terminal EXPIRED"
  "\<not> terminal QUEUED" "\<not> terminal ASSIGNED" "\<not> terminal STARTING"
  "\<not> terminal RUNNING" "\<not> terminal STREAMING"
  by (simp_all add: terminal_def)

lemma status_trichotomy: "s = QUEUED \<or> in_flight s \<or> terminal s"
  by (cases s) simp_all

end
