(* ===== verification/Credentials.thy ===== *)
theory Credentials
  imports Encoding Entities
begin

text \<open>
  What the project keys, the worker enrollment tokens and the administrator token share: a
  secret with a server-side pepper under Argon2id, and the format \<open>prefix_id_secret\<close> with a
  12-character identifier and a 43-character secret. Argon2 (\<open>argon2-cffi\<close>) is not part of
  the repository: a hasher is a parameter, and \<open>sound_hasher\<close> is what its documentation
  promises, that \<open>verify\<close> accepts the hash of the same password and raises
  \<open>VerifyMismatchError\<close> for another one.
\<close>

datatype verify_outcome =
    Verified
  | VerifyMismatchError
  | InvalidHashError
  | OtherVerificationError

text \<open>\<open>ph_hash\<close> takes the random salt that \<open>PasswordHasher.hash\<close> draws.\<close>

record password_hasher =
  ph_hash :: "string \<Rightarrow> string \<Rightarrow> string"
  ph_verify :: "string \<Rightarrow> string \<Rightarrow> verify_outcome"

definition sound_hasher :: "password_hasher \<Rightarrow> bool" where
  "sound_hasher h \<longleftrightarrow>
     (\<forall>salt password given. ph_verify h (ph_hash h salt password) given =
        (if given = password then Verified else VerifyMismatchError))"

text \<open>
  The \<open>try ... verify ... except (VerifyMismatchError, InvalidHashError): return False\<close> of the
  three credential checks; any other verification error goes on.
\<close>

definition verify_guarded :: "password_hasher \<Rightarrow> string \<Rightarrow> string \<Rightarrow> bool result" where
  "verify_guarded h stored_hash password =
     (case ph_verify h stored_hash password of
        Verified \<Rightarrow> Inr True
      | VerifyMismatchError \<Rightarrow> Inr False
      | InvalidHashError \<Rightarrow> Inr False
      | OtherVerificationError \<Rightarrow> Inl VerificationError)"

text \<open>\<open>f"{secret}:{pepper}"\<close> and the length check on the pepper's UTF-8 encoding.\<close>

definition peppered :: "string \<Rightarrow> string \<Rightarrow> string" where
  "peppered pepper secret = secret @ '':'' @ pepper"

definition pepper_ok :: "string \<Rightarrow> bool" where
  "pepper_ok pepper \<longleftrightarrow> \<not> utf8_length (text_of pepper) < 32"

lemma peppered_inj: "peppered pepper a = peppered pepper b \<longleftrightarrow> a = b"
  by (simp add: peppered_def)

lemma verify_guarded_hash:
  assumes "sound_hasher h"
  shows "verify_guarded h (ph_hash h salt (peppered pepper secret)) (peppered pepper given) =
    Inr (given = secret)"
  using assms by (simp add: verify_guarded_def sound_hasher_def peppered_inj)

text \<open>A concrete hasher that meets the contract, for the witnesses.\<close>

definition plain_hasher :: password_hasher where
  "plain_hasher =
     \<lparr>ph_hash = (\<lambda>salt password. password),
      ph_verify = (\<lambda>h given. if given = h then Verified else VerifyMismatchError)\<rparr>"

lemma sound_plain_hasher: "sound_hasher plain_hasher"
  by (simp add: sound_hasher_def plain_hasher_def)

section \<open>The interface of a credential format\<close>

definition is_key_id :: "string \<Rightarrow> bool" where
  "is_key_id i \<longleftrightarrow> length i = 12 \<and> list_all url_char i"

definition is_key_secret :: "string \<Rightarrow> bool" where
  "is_key_secret s \<longleftrightarrow> length s = 43 \<and> list_all url_char s"

lemma token_urlsafe_key_id: "is_bytes bs \<Longrightarrow> length bs = 9 \<Longrightarrow> is_key_id (token_urlsafe bs)"
  by (simp add: is_key_id_def length_token_urlsafe token_urlsafe_chars)

lemma token_urlsafe_key_secret: "is_bytes bs \<Longrightarrow> length bs = 32 \<Longrightarrow> is_key_secret (token_urlsafe bs)"
  by (simp add: is_key_secret_def length_token_urlsafe token_urlsafe_chars)

text \<open>
  A format renders an identifier and a secret into one string and takes it apart again. An
  identifier may contain the separator (\<open>_\<close> is URL-safe), so the split goes by position.
\<close>

locale credential_format =
  fixes render :: "string \<Rightarrow> string \<Rightarrow> string"
    and parse :: "string \<Rightarrow> (string \<times> string) option"
  assumes parse_render: "is_key_id i \<Longrightarrow> is_key_secret s \<Longrightarrow> parse (render i s) = Some (i, s)"
    and render_parse: "parse raw = Some (i, s) \<Longrightarrow> raw = render i s \<and> length i = 12 \<and> length s = 43"
begin

lemma parse_unique:
  assumes "parse raw = Some (i, s)" and "parse raw' = Some (i, s)"
  shows "raw = raw'"
  using render_parse [OF assms(1)] render_parse [OF assms(2)] by simp

lemma render_inj:
  assumes "is_key_id i" "is_key_secret s" "is_key_id i'" "is_key_secret s'"
    and "render i s = render i' s'"
  shows "i = i' \<and> s = s'"
  using parse_render [OF assms(1,2)] parse_render [OF assms(3,4)] unfolding assms(5) by simp

lemma generated_round_trip:
  assumes "is_bytes ib" "length ib = 9" "is_bytes sb" "length sb = 32"
  shows "parse (render (token_urlsafe ib) (token_urlsafe sb)) =
    Some (token_urlsafe ib, token_urlsafe sb)"
  using assms by (intro parse_render token_urlsafe_key_id token_urlsafe_key_secret)

lemma generated_distinct:
  assumes "is_bytes ib" "length ib = 9" "is_bytes sb" "length sb = 32"
    and "is_bytes ib'" "length ib' = 9" "is_bytes sb'" "length sb' = 32"
    and "render (token_urlsafe ib) (token_urlsafe sb) = render (token_urlsafe ib') (token_urlsafe sb')"
  shows "ib = ib' \<and> sb = sb'"
proof -
  have "token_urlsafe ib = token_urlsafe ib' \<and> token_urlsafe sb = token_urlsafe sb'"
    using render_inj [OF token_urlsafe_key_id [OF assms(1,2)] token_urlsafe_key_secret [OF assms(3,4)]
        token_urlsafe_key_id [OF assms(5,6)] token_urlsafe_key_secret [OF assms(7,8)] assms(9)] .
  with assms show ?thesis by (auto dest: token_urlsafe_inj)
qed

end

end
