(* ===== verification/ApiKeys.thy ===== *)
theory ApiKeys
  imports Credentials
begin

text \<open>
  \<open>services/api_keys.py\<close>: generating, parsing and verifying project keys. The random bytes of
  \<open>secrets.token_urlsafe\<close> and the salt are arguments.
\<close>

record generated_api_key =
  ga_raw_key :: string
  ga_key_id :: string
  ga_display_prefix :: string
  ga_secret_hash :: string
  ga_environment :: string

record api_key_service =
  aks_pepper :: string
  aks_hasher :: password_hasher

text \<open>\<open>_KEY_RE\<close>: \<open>^orbi_(live|test)_v1_([A-Za-z0-9_-]{12})_([A-Za-z0-9_-]{43})$\<close>.\<close>

definition key_re :: regex where
  "key_re =
     Seq (Lit ''orbi_'') (Seq (Alt (Lit ''live'') (Lit ''test'')) (Seq (Lit ''_v1_'')
       (Seq (Times 12 (Chars url_char)) (Seq (Lit ''_'') (Times 43 (Chars url_char))))))"

definition api_key_service_init :: "string \<Rightarrow> password_hasher \<Rightarrow> api_key_service result" where
  "api_key_service_init pepper hasher =
     (if pepper_ok pepper then Inr \<lparr>aks_pepper = pepper, aks_hasher = hasher\<rparr>
      else Inl (ValueError ''API key pepper must contain at least 32 bytes''))"

definition render_api_key :: "string \<Rightarrow> string \<Rightarrow> string \<Rightarrow> string" where
  "render_api_key environment key_id secret =
     ''orbi_'' @ environment @ ''_v1_'' @ key_id @ ''_'' @ secret"

definition quoted :: "string \<Rightarrow> string" where
  "quoted s = [CHR 0x27] @ s @ [CHR 0x27]"

definition generate ::
  "api_key_service \<Rightarrow> nat list \<Rightarrow> nat list \<Rightarrow> string \<Rightarrow> string \<Rightarrow> generated_api_key result" where
  "generate svc id_bytes secret_bytes salt environment =
     (if environment \<notin> {''live'', ''test''}
      then Inl (ValueError (''environment must be '' @ quoted ''live'' @ '' or '' @ quoted ''test''))
      else
        let key_id = token_urlsafe id_bytes;
            secret = token_urlsafe secret_bytes
        in Inr \<lparr>ga_raw_key = render_api_key environment key_id secret,
                ga_key_id = key_id,
                ga_display_prefix = ''orbi_'' @ environment @ ''_v1_'' @ key_id,
                ga_secret_hash = ph_hash (aks_hasher svc) salt (peppered (aks_pepper svc) secret),
                ga_environment = environment\<rparr>)"

text \<open>The groups of a full match lie at fixed positions.\<close>

definition parse_api_key :: "string \<Rightarrow> (string \<times> string \<times> string) option" where
  "parse_api_key raw_key =
     (if fullmatch key_re raw_key
      then Some (take 4 (drop 5 raw_key), take 12 (drop 13 raw_key), drop 26 raw_key)
      else None)"

definition verify_secret :: "api_key_service \<Rightarrow> string \<Rightarrow> string \<Rightarrow> bool result" where
  "verify_secret svc secret stored_hash =
     verify_guarded (aks_hasher svc) stored_hash (peppered (aks_pepper svc) secret)"

definition is_record_active :: "instant \<Rightarrow> instant option \<Rightarrow> instant option \<Rightarrow> bool" where
  "is_record_active now expires_at revoked_at =
     (if revoked_at \<noteq> None then False
      else case expires_at of None \<Rightarrow> True | Some e \<Rightarrow> e > now)"

section \<open>The accepted keys\<close>

lemma key_re_iff:
  "raw \<in> lang key_re \<longleftrightarrow>
     (\<exists>e k s. e \<in> {''live'', ''test''} \<and> is_key_id k \<and> is_key_secret s \<and> raw = render_api_key e k s)"
proof
  assume "raw \<in> lang key_re"
  then obtain e k s where "e \<in> lang (Alt (Lit ''live'') (Lit ''test''))"
    and "k \<in> lang (Times 12 (Chars url_char))" and "s \<in> lang (Times 43 (Chars url_char))"
    and "raw = ''orbi_'' @ e @ ''_v1_'' @ k @ ''_'' @ s"
    unfolding key_re_def lang_Seq_iff lang_Lit by blast
  moreover from this have "e \<in> {''live'', ''test''}"
    by (simp only: lang.simps(5) Un_iff lang_Lit insert_iff empty_iff simp_thms)
  ultimately show "\<exists>e k s. e \<in> {''live'', ''test''} \<and> is_key_id k \<and> is_key_secret s \<and> raw = render_api_key e k s"
    by (intro exI [of _ e] exI [of _ k] exI [of _ s])
      (simp only: lang_Times_Chars is_key_id_def is_key_secret_def render_api_key_def simp_thms)
next
  assume "\<exists>e k s. e \<in> {''live'', ''test''} \<and> is_key_id k \<and> is_key_secret s \<and> raw = render_api_key e k s"
  then obtain e k s where e: "e \<in> {''live'', ''test''}"
    and k: "is_key_id k" and s: "is_key_secret s" and r: "raw = render_api_key e k s"
    by blast
  from k s have ks: "k \<in> lang (Times 12 (Chars url_char))" "s \<in> lang (Times 43 (Chars url_char))"
    by (simp_all only: lang_Times_Chars is_key_id_def is_key_secret_def)
  from r have raw: "raw = ''orbi_'' @ e @ ''_v1_'' @ k @ ''_'' @ s"
    by (simp only: render_api_key_def)
  from e have "e \<in> lang (Alt (Lit ''live'') (Lit ''test''))"
    by (simp only: lang.simps(5) Un_iff lang_Lit insert_iff empty_iff simp_thms)
  with ks show "raw \<in> lang key_re"
    unfolding key_re_def raw by (intro lang_SeqI) (simp_all only: lang_Lit)
qed

lemma environment_length: "e \<in> {''live'', ''test''} \<Longrightarrow> length e = 4"
  by auto

lemma parse_api_key_iff:
  "parse_api_key raw = Some (e, k, s) \<longleftrightarrow>
     e \<in> {''live'', ''test''} \<and> is_key_id k \<and> is_key_secret s \<and> raw = render_api_key e k s"
proof -
  have groups: "take 4 (drop 5 (render_api_key e k s)) = e \<and>
      take 12 (drop 13 (render_api_key e k s)) = k \<and> drop 26 (render_api_key e k s) = s"
    if "e \<in> {''live'', ''test''}" "is_key_id k" for e k s
    using that by (auto simp: render_api_key_def is_key_id_def)
  show ?thesis
  proof
    assume parsed: "parse_api_key raw = Some (e, k, s)"
    then obtain e' k' s' where "e' \<in> {''live'', ''test''}" "is_key_id k'" "is_key_secret s'"
      "raw = render_api_key e' k' s'"
      by (auto simp: parse_api_key_def fullmatch_iff key_re_iff split: if_splits)
    moreover from this parsed groups [of e' k' s'] have "e = e' \<and> k = k' \<and> s = s'"
      by (auto simp: parse_api_key_def split: if_splits)
    ultimately show "e \<in> {''live'', ''test''} \<and> is_key_id k \<and> is_key_secret s \<and> raw = render_api_key e k s"
      by simp
  next
    assume r: "e \<in> {''live'', ''test''} \<and> is_key_id k \<and> is_key_secret s \<and> raw = render_api_key e k s"
    then have "fullmatch key_re raw" unfolding fullmatch_iff key_re_iff by blast
    with r groups [of e k s] show "parse_api_key raw = Some (e, k, s)"
      by (simp add: parse_api_key_def)
  qed
qed

definition parse_in :: "string \<Rightarrow> string \<Rightarrow> (string \<times> string) option" where
  "parse_in environment raw =
     (case parse_api_key raw of
        None \<Rightarrow> None
      | Some (e, k, s) \<Rightarrow> if e = environment then Some (k, s) else None)"

lemma parse_in_Some: "parse_in e raw = Some (k, s) \<longleftrightarrow> parse_api_key raw = Some (e, k, s)"
  by (auto simp: parse_in_def split: option.splits if_splits)

interpretation live_keys: credential_format "render_api_key ''live''" "parse_in ''live''"
  by unfold_locales (auto simp: parse_in_Some parse_api_key_iff is_key_id_def is_key_secret_def)

interpretation test_keys: credential_format "render_api_key ''test''" "parse_in ''test''"
  by unfold_locales (auto simp: parse_in_Some parse_api_key_iff is_key_id_def is_key_secret_def)

section \<open>Properties\<close>

text \<open>A generated key parses back into its environment, its lookup identifier and the secret
  whose peppered hash was stored, so the key is accepted by \<open>verify_secret\<close>; and a different
  secret is not accepted. The hypothesis on the hasher is Argon2's documented contract.\<close>

theorem api_key_round_trip:
  assumes "generate svc id_bytes secret_bytes salt environment = Inr g"
    and "is_bytes id_bytes" "length id_bytes = 9" "is_bytes secret_bytes" "length secret_bytes = 32"
    and "sound_hasher (aks_hasher svc)"
  shows "\<exists>secret. parse_api_key (ga_raw_key g) = Some (environment, ga_key_id g, secret)
    \<and> ga_raw_key g = ga_display_prefix g @ ''_'' @ secret
    \<and> (\<forall>given. verify_secret svc given (ga_secret_hash g) = Inr (given = secret))"
proof (intro exI conjI allI)
  from assms(1) have env: "environment \<in> {''live'', ''test''}"
    and g: "ga_raw_key g = render_api_key environment (token_urlsafe id_bytes) (token_urlsafe secret_bytes)"
      "ga_key_id g = token_urlsafe id_bytes"
      "ga_display_prefix g = ''orbi_'' @ environment @ ''_v1_'' @ token_urlsafe id_bytes"
      "ga_secret_hash g = ph_hash (aks_hasher svc) salt (peppered (aks_pepper svc) (token_urlsafe secret_bytes))"
    by (auto simp: generate_def Let_def split: if_splits)
  show "parse_api_key (ga_raw_key g) = Some (environment, ga_key_id g, token_urlsafe secret_bytes)"
    unfolding parse_api_key_iff g
    using env assms(2-5) by (blast intro: token_urlsafe_key_id token_urlsafe_key_secret)
  show "ga_raw_key g = ga_display_prefix g @ ''_'' @ token_urlsafe secret_bytes"
    by (simp add: g render_api_key_def)
  show "verify_secret svc given (ga_secret_hash g) = Inr (given = token_urlsafe secret_bytes)" for given
    by (simp add: g verify_secret_def verify_guarded_hash [OF assms(6)])
qed

theorem api_key_round_trip_witness:
  "\<exists>g secret. generate \<lparr>aks_pepper = ''p'', aks_hasher = plain_hasher\<rparr>
       (replicate 9 7) (replicate 32 200) [] ''test'' = Inr g
     \<and> parse_api_key (ga_raw_key g) = Some (''test'', ga_key_id g, secret)
     \<and> (\<forall>given. verify_secret \<lparr>aks_pepper = ''p'', aks_hasher = plain_hasher\<rparr> given
            (ga_secret_hash g) = Inr (given = secret))"
proof -
  let ?svc = "\<lparr>aks_pepper = ''p'', aks_hasher = plain_hasher\<rparr>"
  obtain g where g: "generate ?svc (replicate 9 7) (replicate 32 200) [] ''test'' = Inr g"
    by (simp add: generate_def Let_def)
  moreover have "is_bytes (replicate 9 7)" "is_bytes (replicate 32 200)"
    by (simp_all add: is_bytes_def list_all_iff)
  ultimately show ?thesis
    using api_key_round_trip [OF g] sound_plain_hasher by simp blast
qed

text \<open>\<open>parse\<close> accepts exactly the strings \<open>orbi_<env>_v1_<id>_<secret>\<close> with a known
  environment, a 12-character identifier and a 43-character secret, and returns these parts.\<close>

theorem parse_api_key_spec:
  "parse_api_key raw = Some (e, k, s) \<longleftrightarrow>
     (e = ''live'' \<or> e = ''test'')
     \<and> length k = 12 \<and> list_all url_char k \<and> length s = 43 \<and> list_all url_char s
     \<and> raw = ''orbi_'' @ e @ ''_v1_'' @ k @ ''_'' @ s"
  unfolding parse_api_key_iff is_key_id_def is_key_secret_def render_api_key_def by blast

end
