(* ===== verification/WorkerTokens.thy ===== *)
theory WorkerTokens
  imports Credentials
begin

text \<open>
  \<open>services/worker_tokens.py\<close>: one-time enrollment tokens and the worker JWT. PyJWT is not part
  of the repository: encoding and decoding are parameters, on the claims record that the code
  builds and reads. \<open>sound_jwt\<close> states PyJWT's documented behaviour for the options the code
  passes: the token of given claims decodes to them, with its times cut to whole seconds, exactly
  while these times make it valid, for the expected issuer and audience.
\<close>

section \<open>Enrollment tokens\<close>

record generated_enrollment_token =
  ge_raw_token :: string
  ge_token_id :: string
  ge_secret_hash :: string

record enrollment_service =
  ens_pepper :: string
  ens_hasher :: password_hasher

definition enrollment_service_init :: "string \<Rightarrow> password_hasher \<Rightarrow> enrollment_service result" where
  "enrollment_service_init pepper hasher =
     (if pepper_ok pepper then Inr \<lparr>ens_pepper = pepper, ens_hasher = hasher\<rparr>
      else Inl (ValueError ''worker enrollment pepper must contain at least 32 bytes''))"

definition node_prefix :: string where
  "node_prefix = ''orbi_node_v1_''"

definition render_node_token :: "string \<Rightarrow> string \<Rightarrow> string" where
  "render_node_token token_id secret = node_prefix @ token_id @ ''_'' @ secret"

definition generate_enrollment ::
  "enrollment_service \<Rightarrow> nat list \<Rightarrow> nat list \<Rightarrow> string \<Rightarrow> generated_enrollment_token" where
  "generate_enrollment svc id_bytes secret_bytes salt =
     (let token_id = token_urlsafe id_bytes;
          secret = token_urlsafe secret_bytes
      in \<lparr>ge_raw_token = render_node_token token_id secret,
          ge_token_id = token_id,
          ge_secret_hash = ph_hash (ens_hasher svc) salt (peppered (ens_pepper svc) secret)\<rparr>)"

definition parse_and_verify :: "enrollment_service \<Rightarrow> string \<Rightarrow> string \<Rightarrow> string option result" where
  "parse_and_verify svc raw_token expected_hash =
     (if \<not> starts_with node_prefix raw_token then Inr None
      else
        let remainder = remove_prefix node_prefix raw_token
        in if length remainder \<noteq> 56 \<or> remainder ! 12 \<noteq> CHR ''_'' then Inr None
           else
             let token_id = take 12 remainder; secret = drop 13 remainder
             in bind_result
                  (verify_guarded (ens_hasher svc) expected_hash (peppered (ens_pepper svc) secret))
                  (\<lambda>ok. Inr (if ok then Some token_id else None)))"

text \<open>The syntactic half of \<open>parse_and_verify\<close>, which the registration route repeats.\<close>

definition split_node_token :: "string \<Rightarrow> (string \<times> string) option" where
  "split_node_token raw_token =
     (let remainder = remove_prefix node_prefix raw_token
      in if \<not> starts_with node_prefix raw_token \<or> length remainder \<noteq> 56 \<or> remainder ! 12 \<noteq> CHR ''_''
         then None else Some (take 12 remainder, drop 13 remainder))"

lemma split_at_separator:
  assumes "length r = 56" and "r ! 12 = CHR ''_''"
  shows "r = take 12 r @ ''_'' @ drop 13 r"
  using assms by (metis Cons_nth_drop_Suc append.simps append_take_drop_id eval_nat_numeral(3)
      less_numeral_extra(1) numeral_less_iff semiring_norm(68) semiring_norm(77) semiring_norm(76)
      semiring_norm(78) semiring_norm(75) semiring_norm(80) semiring_norm(81) Suc_numeral)

lemma split_node_token_Some:
  "split_node_token raw = Some (i, s) \<longleftrightarrow>
     raw = render_node_token i s \<and> length i = 12 \<and> length s = 43"
proof
  assume split: "split_node_token raw = Some (i, s)"
  then obtain r where raw: "raw = node_prefix @ r" and r: "length r = 56" "r ! 12 = CHR ''_''"
    "i = take 12 r" "s = drop 13 r"
    by (auto simp: split_node_token_def Let_def starts_with_iff split: if_splits)
  with split_at_separator [OF r(1,2)] show "raw = render_node_token i s \<and> length i = 12 \<and> length s = 43"
    by (simp add: render_node_token_def)
next
  assume "raw = render_node_token i s \<and> length i = 12 \<and> length s = 43"
  then show "split_node_token raw = Some (i, s)"
    by (simp add: split_node_token_def render_node_token_def nth_append)
qed

lemma parse_and_verify_split:
  "parse_and_verify svc raw h =
     (case split_node_token raw of
        None \<Rightarrow> Inr None
      | Some (i, s) \<Rightarrow> bind_result (verify_guarded (ens_hasher svc) h (peppered (ens_pepper svc) s))
          (\<lambda>ok. Inr (if ok then Some i else None)))"
  by (simp add: parse_and_verify_def split_node_token_def Let_def)

interpretation node_tokens: credential_format render_node_token split_node_token
  by unfold_locales (auto simp: split_node_token_Some is_key_id_def is_key_secret_def)

section \<open>Worker JWTs\<close>

text \<open>
  The claims that \<open>issue\<close> signs. Python's \<open>datetime\<close> claims are kept as instants. The scope
  claim is a JSON value: the code checks its shape only when it reads it.
\<close>

record jwt_claims =
  cl_sub :: string
  cl_jti :: string
  cl_scope :: json
  cl_iat :: instant
  cl_nbf :: instant
  cl_exp :: instant
  cl_iss :: string
  cl_aud :: string

record jwt_service =
  jw_private_key :: string
  jw_public_key :: string
  jw_issuer :: string
  jw_audience :: string
  jw_ttl :: int

text \<open>
  The codec: \<open>jc_encode key claims\<close> is the signed token, \<open>jc_decode key audience issuer now
  token\<close> is the result of \<open>jwt.decode\<close> with these arguments, \<open>None\<close> where it raises an
  \<open>InvalidTokenError\<close>.
\<close>

record jwt_codec =
  jc_encode :: "string \<Rightarrow> jwt_claims \<Rightarrow> string"
  jc_decode :: "string \<Rightarrow> string \<Rightarrow> string \<Rightarrow> instant \<Rightarrow> string \<Rightarrow> jwt_claims option"

text \<open>The times of a token are numeric dates: PyJWT keeps the whole seconds of a \<open>datetime\<close>.\<close>

definition numeric_date :: "instant \<Rightarrow> instant" where
  "numeric_date t = t - t mod microseconds_per_second"

definition wire_claims :: "jwt_claims \<Rightarrow> jwt_claims" where
  "wire_claims c = c\<lparr>cl_iat := numeric_date (cl_iat c), cl_nbf := numeric_date (cl_nbf c),
     cl_exp := numeric_date (cl_exp c)\<rparr>"

definition sound_jwt :: "jwt_codec \<Rightarrow> string \<Rightarrow> string \<Rightarrow> jwt_claims \<Rightarrow> bool" where
  "sound_jwt codec private_key public_key claims \<longleftrightarrow>
     (\<forall>audience issuer now.
        jc_decode codec public_key audience issuer now (jc_encode codec private_key claims) =
          (if cl_aud claims = audience \<and> cl_iss claims = issuer
              \<and> numeric_date (cl_nbf claims) \<le> now \<and> now < numeric_date (cl_exp claims)
           then Some (wire_claims claims) else None))"

lemma numeric_date_le: "numeric_date t \<le> t"
  by (simp add: numeric_date_def)

lemma numeric_date_seconds: "numeric_date (t + seconds n) = numeric_date t + seconds n"
  by (simp add: numeric_date_def seconds_def)

lemma wire_claims_fields [simp]:
  "cl_sub (wire_claims c) = cl_sub c" "cl_jti (wire_claims c) = cl_jti c"
  "cl_scope (wire_claims c) = cl_scope c"
  by (simp_all add: wire_claims_def)

definition worker_scopes :: "string list" where
  "worker_scopes =
     [''worker:heartbeat'', ''worker:pull'', ''worker:result'', ''worker:error'', ''worker:renew'']"

text \<open>\<open>str(worker_id)\<close> and \<open>str(uuid4())\<close> are supplied as strings.\<close>

definition issued_claims :: "jwt_service \<Rightarrow> instant \<Rightarrow> string \<Rightarrow> string \<Rightarrow> jwt_claims" where
  "issued_claims svc now jti worker_id =
     \<lparr>cl_sub = worker_id, cl_jti = jti,
      cl_scope = JArr (map JStr worker_scopes),
      cl_iat = now, cl_nbf = now, cl_exp = now + seconds (jw_ttl svc),
      cl_iss = jw_issuer svc, cl_aud = jw_audience svc\<rparr>"

definition issue :: "jwt_codec \<Rightarrow> jwt_service \<Rightarrow> instant \<Rightarrow> string \<Rightarrow> string \<Rightarrow> string \<times> string" where
  "issue codec svc now jti worker_id =
     (jc_encode codec (jw_private_key svc) (issued_claims svc now jti worker_id), jti)"

definition verify_token :: "jwt_codec \<Rightarrow> jwt_service \<Rightarrow> instant \<Rightarrow> string \<Rightarrow> jwt_claims option" where
  "verify_token codec svc now token =
     jc_decode codec (jw_public_key svc) (jw_audience svc) (jw_issuer svc) now token"

lemma verify_issued:
  assumes "sound_jwt codec (jw_private_key svc) (jw_public_key svc) (issued_claims svc now jti w)"
  shows "verify_token codec svc t (fst (issue codec svc now jti w)) =
    (if numeric_date now \<le> t \<and> t < numeric_date now + seconds (jw_ttl svc)
     then Some (wire_claims (issued_claims svc now jti w)) else None)"
  using assms by (simp add: sound_jwt_def issue_def verify_token_def issued_claims_def numeric_date_seconds)

text \<open>A codec that signs one set of claims, for the witnesses.\<close>

definition one_token_codec :: "jwt_claims \<Rightarrow> jwt_codec" where
  "one_token_codec c =
     \<lparr>jc_encode = (\<lambda>key claims. if claims = c then ''T'' else ''U''),
      jc_decode = (\<lambda>key audience issuer now token.
        if token = ''T'' \<and> cl_aud c = audience \<and> cl_iss c = issuer
           \<and> numeric_date (cl_nbf c) \<le> now \<and> now < numeric_date (cl_exp c)
        then Some (wire_claims c) else None)\<rparr>"

lemma sound_one_token_codec: "sound_jwt (one_token_codec c) priv pub c"
  by (simp add: sound_jwt_def one_token_codec_def)

section \<open>Properties\<close>

text \<open>A generated enrollment token is accepted against its stored hash and yields its token
  identifier, whatever underscores its parts contain; against the hash of another secret, and
  when a character is appended, it is refused.\<close>

theorem enrollment_round_trip:
  assumes "is_bytes id_bytes" "length id_bytes = 9" "is_bytes secret_bytes" "length secret_bytes = 32"
    and "sound_hasher (ens_hasher svc)"
    and "g = generate_enrollment svc id_bytes secret_bytes salt"
  shows "parse_and_verify svc (ge_raw_token g) (ge_secret_hash g) = Inr (Some (ge_token_id g))
    \<and> (other \<noteq> token_urlsafe secret_bytes \<longrightarrow> parse_and_verify svc (ge_raw_token g)
           (ph_hash (ens_hasher svc) salt' (peppered (ens_pepper svc) other)) = Inr None)
    \<and> parse_and_verify svc (ge_raw_token g @ [c]) h = Inr None"
proof -
  have split: "split_node_token (ge_raw_token g) = Some (token_urlsafe id_bytes, token_urlsafe secret_bytes)"
    using node_tokens.generated_round_trip [OF assms(1-4)] assms(6)
    by (simp add: generate_enrollment_def Let_def)
  have own: "parse_and_verify svc (ge_raw_token g) (ge_secret_hash g) = Inr (Some (ge_token_id g))"
    unfolding parse_and_verify_split split using assms(5,6)
    by (simp add: generate_enrollment_def Let_def verify_guarded_hash)
  have foreign: "other \<noteq> token_urlsafe secret_bytes \<longrightarrow> parse_and_verify svc (ge_raw_token g)
      (ph_hash (ens_hasher svc) salt' (peppered (ens_pepper svc) other)) = Inr None"
    unfolding parse_and_verify_split split using assms(5) by (simp add: verify_guarded_hash)
  have "length (ge_raw_token g) = 69"
    using split by (auto simp: split_node_token_Some render_node_token_def node_prefix_def)
  then have "split_node_token (ge_raw_token g @ [c]) \<noteq> Some (i, s)" for i s
    by (auto simp: split_node_token_Some render_node_token_def node_prefix_def
        dest!: arg_cong [where f = length])
  then have "split_node_token (ge_raw_token g @ [c]) = None"
    by (metis option.exhaust surj_pair)
  with own foreign show ?thesis by (simp add: parse_and_verify_split)
qed

theorem enrollment_round_trip_witness:
  "parse_and_verify \<lparr>ens_pepper = ''p'', ens_hasher = plain_hasher\<rparr>
     (ge_raw_token (generate_enrollment \<lparr>ens_pepper = ''p'', ens_hasher = plain_hasher\<rparr>
       (replicate 9 255) (replicate 32 255) []))
     (ge_secret_hash (generate_enrollment \<lparr>ens_pepper = ''p'', ens_hasher = plain_hasher\<rparr>
       (replicate 9 255) (replicate 32 255) [])) = Inr (Some ''____________'')"
proof -
  have "is_bytes (replicate 9 255)" "is_bytes (replicate 32 255)"
    by (simp_all add: is_bytes_def list_all_iff)
  moreover have "ge_token_id (generate_enrollment \<lparr>ens_pepper = ''p'', ens_hasher = plain_hasher\<rparr>
      (replicate 9 255) (replicate 32 255) []) = ''____________''"
    by code_simp
  ultimately show ?thesis
    using enrollment_round_trip [of "replicate 9 255" "replicate 32 255"
        "\<lparr>ens_pepper = ''p'', ens_hasher = plain_hasher\<rparr>" _ "[]" "[]" "[]" "CHR ''x''" "[]"]
      sound_plain_hasher by simp
qed

end
