(* ===== verification/RateLimit.thy ===== *)
theory RateLimit
  imports Calendar Encoding
begin

text \<open>
  \<open>services/rate_limit.py\<close>: the fixed one-minute window. Redis is not part of the repository:
  the two commands the service sends are a parameter, and \<open>sound_counters\<close> states what the
  Redis documentation says of them for some view of the server's state: \<open>INCR\<close> adds one to a
  counter that is zero when the key is absent and leaves time-to-live alone, \<open>EXPIRE\<close> gives
  the key a time-to-live.
\<close>

record 's redis_counters =
  rc_incr :: "string \<Rightarrow> 's \<Rightarrow> int \<times> 's"
  rc_expire :: "string \<Rightarrow> int \<Rightarrow> 's \<Rightarrow> 's"

definition sound_counters ::
  "'s redis_counters \<Rightarrow> ('s \<Rightarrow> string \<Rightarrow> int) \<Rightarrow> ('s \<Rightarrow> string \<Rightarrow> bool) \<Rightarrow> bool" where
  "sound_counters rc count has_ttl \<longleftrightarrow>
     (\<forall>k s. fst (rc_incr rc k s) = count s k + 1
        \<and> count (snd (rc_incr rc k s)) = (count s)(k := count s k + 1)
        \<and> has_ttl (snd (rc_incr rc k s)) = has_ttl s)
     \<and> (\<forall>k n s. count (rc_expire rc k n s) = count s
        \<and> has_ttl (rc_expire rc k n s) = (has_ttl s)(k := True))"

text \<open>\<open>strftime("%Y%m%d%H%M")\<close> of an instant.\<close>

definition minute_stamp :: "instant \<Rightarrow> string" where
  "minute_stamp t =
     (let d = utc_date t
      in zero_pad 4 (year_of d) @ zero_pad 2 (month_of d) @ zero_pad 2 (day_of d)
         @ zero_pad 2 (nat (t div 3600000000 mod 24)) @ zero_pad 2 (nat (t div 60000000 mod 60)))"

definition rate_key :: "string \<Rightarrow> instant \<Rightarrow> string" where
  "rate_key key_id now = ''orbi:ratelimit:'' @ key_id @ '':'' @ minute_stamp now"

definition allow_minute ::
  "'s redis_counters \<Rightarrow> string \<Rightarrow> int \<Rightarrow> instant \<Rightarrow> 's \<Rightarrow> bool \<times> 's" where
  "allow_minute rc key_id rpm_limit now s =
     (let key = rate_key key_id now;
          (count, s1) = rc_incr rc key s;
          s2 = (if count = 1 then rc_expire rc key 120 s1 else s1)
      in (count \<le> rpm_limit, s2))"

text \<open>The answers to a sequence of requests of one key.\<close>

fun allow_all ::
  "'s redis_counters \<Rightarrow> string \<Rightarrow> int \<Rightarrow> instant list \<Rightarrow> 's \<Rightarrow> bool list \<times> 's" where
  "allow_all rc key_id rpm [] s = ([], s)"
| "allow_all rc key_id rpm (t # ts) s =
     (let (ok, s1) = allow_minute rc key_id rpm t s;
          (oks, s2) = allow_all rc key_id rpm ts s1
      in (ok # oks, s2))"

section \<open>Windows are minutes\<close>

lemma split_month_le:
  "n < sum_list ls \<Longrightarrow> \<forall>l\<in>set ls. l \<le> 31 \<Longrightarrow>
   fst (split_month ls m n) < m + length ls \<and> snd (split_month ls m n) \<le> 31"
proof (induction ls arbitrary: m n)
  case Nil
  then show ?case by simp
next
  case (Cons l ls)
  then show ?case using Cons.IH [of "n - l" "Suc m"] by auto
qed

lemma split_year_less: "snd (split_year y n) < year_length (fst (split_year y n))"
proof (induction y n rule: split_year.induct)
  case (1 y n)
  then show ?case by (subst (1 2) split_year.simps) auto
qed

lemma civil_date_fields: "month_of (civil_date n) \<le> 12" "day_of (civil_date n) \<le> 31"
proof -
  obtain y d where yd: "split_year 1970 n = (y, d)" by fastforce
  then have "d < sum_list (month_lengths y)"
    using split_year_less [of 1970 n] by (simp add: sum_month_lengths)
  moreover have "\<forall>l\<in>set (month_lengths y). l \<le> 31" by (simp add: month_lengths_def)
  ultimately have "fst (split_month (month_lengths y) 1 d) < 1 + length (month_lengths y)
      \<and> snd (split_month (month_lengths y) 1 d) \<le> 31" by (rule split_month_le)
  moreover have "length (month_lengths y) = 12" by (simp add: month_lengths_def)
  moreover obtain m k where "split_month (month_lengths y) 1 d = (m, k)" by fastforce
  ultimately show "month_of (civil_date n) \<le> 12" "day_of (civil_date n) \<le> 31"
    using yd by (simp_all add: civil_date_def)
qed

lemma minute_parts:
  fixes t :: int
  shows "t div 60000000 = (t div 86400000000) * 1440 + (t div 3600000000 mod 24) * 60 + t div 60000000 mod 60"
proof -
  define m where "m = t div 60000000"
  have h: "t div 3600000000 = m div 60" and d: "t div 86400000000 = m div 60 div 24"
    by (simp_all add: m_def flip: zdiv_zmult2_eq)
  have "m = m div 60 * 60 + m mod 60" and "m div 60 = m div 60 div 24 * 24 + m div 60 mod 24"
    by (simp_all only: div_mult_mod_eq)
  then show ?thesis unfolding h d m_def [symmetric] by linarith
qed

lemma append_zero_pad_inj:
  "m < 10 ^ w \<Longrightarrow> n < 10 ^ w \<Longrightarrow> 0 < w \<Longrightarrow>
   zero_pad w m @ x = zero_pad w n @ y \<longleftrightarrow> m = n \<and> x = y"
  using zero_pad_inj [of w m n] length_zero_pad [of m w] length_zero_pad [of n w] by auto

lemma stamp_fields_inj:
  assumes "zero_pad 4 y @ zero_pad 2 m @ zero_pad 2 d @ zero_pad 2 h @ zero_pad 2 n =
      zero_pad 4 y' @ zero_pad 2 m' @ zero_pad 2 d' @ zero_pad 2 h' @ zero_pad 2 n'"
    and "y < 10 ^ 4" "y' < 10 ^ 4" and "m < 10 ^ 2" "m' < 10 ^ 2"
    and "d < 10 ^ 2" "d' < 10 ^ 2" and "h < 10 ^ 2" "h' < 10 ^ 2"
  shows "y = y' \<and> m = m' \<and> d = d' \<and> h = h' \<and> n = n'"
proof -
  from append_zero_pad_inj [OF assms(2,3)] assms(1)
  have y: "y = y'" and "zero_pad 2 m @ zero_pad 2 d @ zero_pad 2 h @ zero_pad 2 n =
      zero_pad 2 m' @ zero_pad 2 d' @ zero_pad 2 h' @ zero_pad 2 n'" by simp_all
  with append_zero_pad_inj [OF assms(4,5)]
  have m: "m = m'" and "zero_pad 2 d @ zero_pad 2 h @ zero_pad 2 n =
      zero_pad 2 d' @ zero_pad 2 h' @ zero_pad 2 n'" by simp_all
  with append_zero_pad_inj [OF assms(6,7)]
  have d: "d = d'" and "zero_pad 2 h @ zero_pad 2 n = zero_pad 2 h' @ zero_pad 2 n'" by simp_all
  with append_zero_pad_inj [OF assms(8,9)]
  have "h = h'" and "zero_pad 2 n = zero_pad 2 n'" by simp_all
  with y m d show ?thesis using zero_pad_inj by blast
qed

lemma minute_stamp_cong:
  assumes "s div 60000000 = t div 60000000"
  shows "minute_stamp s = minute_stamp t"
proof -
  have "u div 3600000000 = u div 60000000 div 60" "u div 86400000000 = u div 60000000 div 1440" for u :: int
    by (simp_all flip: zdiv_zmult2_eq)
  with assms show ?thesis by (simp add: minute_stamp_def utc_date_def)
qed

lemma minute_stamp_eq_iff:
  assumes "0 \<le> s" "0 \<le> t" "year_of (utc_date s) < 10000" "year_of (utc_date t) < 10000"
  shows "minute_stamp s = minute_stamp t \<longleftrightarrow> s div 60000000 = t div 60000000"
proof
  assume same: "minute_stamp s = minute_stamp t"
  have md: "month_of (utc_date u) < 10 ^ 2" "day_of (utc_date u) < 10 ^ 2" for u
    using civil_date_fields [of "nat (u div 86400000000)"] by (auto simp: utc_date_def)
  have h: "nat (u div 3600000000 mod 24) < 10 ^ 2" for u :: int
    using pos_mod_bound [of 24 "u div 3600000000"] by simp
  have y: "year_of (utc_date s) < 10 ^ 4" "year_of (utc_date t) < 10 ^ 4" using assms(3,4) by simp_all
  have eqs: "year_of (utc_date s) = year_of (utc_date t) \<and>
    month_of (utc_date s) = month_of (utc_date t) \<and> day_of (utc_date s) = day_of (utc_date t) \<and>
    nat (s div 3600000000 mod 24) = nat (t div 3600000000 mod 24) \<and>
    nat (s div 60000000 mod 60) = nat (t div 60000000 mod 60)"
    using same unfolding minute_stamp_def Let_def
    by (rule stamp_fields_inj) (rule y md h)+
  then have "utc_date s = utc_date t" by (intro date.expand) auto
  then have "s div 86400000000 = t div 86400000000"
    using assms(1,2) by (simp add: utc_date_def eq_nat_nat_iff pos_imp_zdiv_nonneg_iff)
  moreover have "s div 3600000000 mod 24 = t div 3600000000 mod 24"
    using eqs by (simp add: eq_nat_nat_iff)
  moreover have "s div 60000000 mod 60 = t div 60000000 mod 60"
    using eqs by (simp add: eq_nat_nat_iff)
  ultimately show "s div 60000000 = t div 60000000"
    using minute_parts [of s] minute_parts [of t] by linarith
qed (rule minute_stamp_cong)

section \<open>Counting\<close>

lemma allow_minute_step:
  assumes "sound_counters rc count has_ttl"
  shows "fst (allow_minute rc k rpm t s) \<longleftrightarrow> count s (rate_key k t) + 1 \<le> rpm"
    and "count (snd (allow_minute rc k rpm t s)) = (count s)(rate_key k t := count s (rate_key k t) + 1)"
  using assms
  by (auto simp: allow_minute_def Let_def sound_counters_def split: prod.splits)
    (metis fst_conv snd_conv)+

lemma allow_minute_ttl:
  assumes sound: "sound_counters rc count has_ttl"
    and inv: "\<And>q. count s q \<noteq> 0 \<Longrightarrow> has_ttl s q"
    and "count (snd (allow_minute rc k rpm t s)) q \<noteq> 0"
  shows "has_ttl (snd (allow_minute rc k rpm t s)) q"
proof -
  let ?key = "rate_key k t"
  obtain c s1 where incr: "rc_incr rc ?key s = (c, s1)" by fastforce
  then have c: "c = count s ?key + 1" and cnt: "count s1 = (count s)(?key := count s ?key + 1)"
    and ttl: "has_ttl s1 = has_ttl s"
    using sound unfolding sound_counters_def by (metis fst_conv snd_conv)+
  have exp: "has_ttl (rc_expire rc ?key 120 s1) = (has_ttl s1)(?key := True)"
    using sound by (simp add: sound_counters_def)
  show ?thesis
  proof (cases "c = 1")
    case True
    then show ?thesis
      using assms(3) incr c cnt ttl exp inv allow_minute_step(2) [OF sound, of k rpm t s]
      by (auto simp: allow_minute_def split: if_splits)
  next
    case False
    then show ?thesis
      using assms(3) incr c cnt ttl inv
      by (auto simp: allow_minute_def split: if_splits)
  qed
qed

lemma allow_all_count:
  assumes "sound_counters rc count has_ttl"
    and "\<forall>t\<in>set ts. rate_key k t = key" and "0 \<le> rpm"
  shows "length (filter (\<lambda>ok. ok) (fst (allow_all rc k rpm ts s))) =
      min (length ts) (nat (rpm - count s key))
    \<and> length (fst (allow_all rc k rpm ts s)) = length ts"
  using assms(2,3)
proof (induction ts arbitrary: s)
  case Nil
  then show ?case by simp
next
  case (Cons t ts)
  let ?s1 = "snd (allow_minute rc k rpm t s)"
  have key: "rate_key k t = key" using Cons.prems by simp
  have "length (filter (\<lambda>ok. ok) (fst (allow_all rc k rpm ts ?s1))) =
      min (length ts) (nat (rpm - (count s key + 1)))
      \<and> length (fst (allow_all rc k rpm ts ?s1)) = length ts"
    using Cons.IH [of ?s1] Cons.prems by (simp add: allow_minute_step(2) [OF assms(1)] key)
  then show ?case
    using allow_minute_step(1) [OF assms(1), of k rpm t s] key
    by (auto simp: Let_def split: prod.splits)
qed

section \<open>Properties\<close>


text \<open>A concrete server for the witnesses: counters and time-to-live flags as functions.\<close>

definition map_counters :: "((string \<Rightarrow> int) \<times> (string \<Rightarrow> bool)) redis_counters" where
  "map_counters =
     \<lparr>rc_incr = (\<lambda>k (c, l). (c k + 1, (c(k := c k + 1), l))),
      rc_expire = (\<lambda>k n (c, l). (c, l(k := True)))\<rparr>"

lemma sound_map_counters: "sound_counters map_counters fst snd"
  by (auto simp: sound_counters_def map_counters_def)

lemma year_of_epoch: "year_of (utc_date 0) = 1970"
  by (simp add: utc_date_def civil_date_def split_year.simps year_length_def leap_year_def
      month_lengths_def)


text \<open>A completed call leaves no counter without a time-to-live: if every counter in use
  had one before, every counter has one after, whichever window the call falls in.\<close>

theorem rate_limit_keys_expire:
  assumes "sound_counters rc count has_ttl"
    and "\<forall>key. count s key \<noteq> 0 \<longrightarrow> has_ttl s key"
  shows "\<forall>key. count (snd (allow_minute rc key_id rpm now s)) key \<noteq> 0 \<longrightarrow>
    has_ttl (snd (allow_minute rc key_id rpm now s)) key"
  using allow_minute_ttl [OF assms(1)] assms(2) by blast

theorem rate_limit_keys_expire_witness:
  "snd (snd (allow_minute map_counters ''k'' 60 0 (\<lambda>_. 0, \<lambda>_. False))) (rate_key ''k'' 0)"
proof -
  have "fst (snd (allow_minute map_counters ''k'' 60 0 (\<lambda>_. 0, \<lambda>_. False))) (rate_key ''k'' 0) = 1"
    by (simp add: allow_minute_def map_counters_def Let_def)
  then show ?thesis
    using rate_limit_keys_expire [OF sound_map_counters, of "(\<lambda>_. 0, \<lambda>_. False)" "''k''" 60 0] by simp
qed

lemma interrupted_no_ttl:
  assumes "sound_counters rc count has_ttl"
    and "\<forall>t\<in>set ts. rate_key k t = key"
    and "1 \<le> count s key" and "\<not> has_ttl s key"
  shows "1 \<le> count (snd (allow_all rc k rpm ts s)) key \<and> \<not> has_ttl (snd (allow_all rc k rpm ts s)) key"
  using assms(2-)
proof (induction ts arbitrary: s)
  case Nil
  then show ?case by simp
next
  case (Cons t ts)
  have key: "rate_key k t = key" using Cons.prems(1) by simp
  obtain c s1 where incr: "rc_incr rc key s = (c, s1)" by fastforce
  then have c: "c = count s key + 1" and cnt: "count s1 = (count s)(key := count s key + 1)"
    and ttl: "has_ttl s1 = has_ttl s"
    using assms(1) unfolding sound_counters_def by (metis fst_conv snd_conv)+
  have "snd (allow_minute rc k rpm t s) = s1"
    using incr c Cons.prems(2) by (simp add: allow_minute_def key)
  moreover have "1 \<le> count s1 key" "\<not> has_ttl s1 key" using cnt ttl Cons.prems by simp_all
  ultimately show ?case using Cons.IH [of s1] Cons.prems(1) by (auto simp: Let_def split: prod.splits)
qed

text \<open>The increment and the expiry are two commands: if the process stops between them,
  the window's counter has no time-to-live and no later call of that window gives it one.\<close>

theorem rate_limit_interrupted_key_is_immortal:
  assumes "sound_counters rc count has_ttl"
    and "count s (rate_key key_id now) = 0" and "\<not> has_ttl s (rate_key key_id now)"
    and "interrupted = snd (rc_incr rc (rate_key key_id now) s)"
    and "\<forall>t\<in>set ts. rate_key key_id t = rate_key key_id now"
  shows "1 \<le> count (snd (allow_all rc key_id rpm ts interrupted)) (rate_key key_id now)
    \<and> \<not> has_ttl (snd (allow_all rc key_id rpm ts interrupted)) (rate_key key_id now)"
proof (rule interrupted_no_ttl [OF assms(1,5)])
  show "1 \<le> count interrupted (rate_key key_id now)" "\<not> has_ttl interrupted (rate_key key_id now)"
    using assms(1-4) by (auto simp: sound_counters_def)
qed

theorem rate_limit_interrupted_key_is_immortal_witness:
  "1 \<le> fst (snd (allow_all map_counters ''k'' 60 [0, 0]
         (snd (rc_incr map_counters (rate_key ''k'' 0) (\<lambda>_. 0, \<lambda>_. False))))) (rate_key ''k'' 0)
   \<and> \<not> snd (snd (allow_all map_counters ''k'' 60 [0, 0]
         (snd (rc_incr map_counters (rate_key ''k'' 0) (\<lambda>_. 0, \<lambda>_. False))))) (rate_key ''k'' 0)"
  by (rule rate_limit_interrupted_key_is_immortal [OF sound_map_counters _ _ refl]) simp_all

end
