(* ===== verification/Uuids.thy ===== *)
theory Uuids
  imports Encoding
begin

text \<open>
  The text form of identifiers: \<open>str(uuid)\<close> and the \<open>UUID(hex)\<close> constructor of Python's \<open>uuid\<close>
  module as \<open>dependencies.py\<close> and the routes use them. A \<open>uuid\<close> is its 128-bit integer. The
  constructor drops \<open>urn:\<close>, \<open>uuid:\<close>, surrounding braces and hyphens, wants 32 characters, and
  reads them with \<open>int(hex, 16)\<close>, which itself skips surrounding white space, a sign, a \<open>0x\<close>
  prefix and single underscores.
\<close>

definition hex_char :: "nat \<Rightarrow> char" where
  "hex_char d = ''0123456789abcdef'' ! d"

fun hex_fixed :: "nat \<Rightarrow> nat \<Rightarrow> string" where
  "hex_fixed 0 n = []"
| "hex_fixed (Suc k) n = hex_fixed k (n div 16) @ [hex_char (n mod 16)]"

definition hyphenate :: "string \<Rightarrow> string" where
  "hyphenate h = take 8 h @ ''-'' @ take 4 (drop 8 h) @ ''-'' @ take 4 (drop 12 h) @ ''-''
     @ take 4 (drop 16 h) @ ''-'' @ drop 20 h"

definition uuid_str :: "uuid \<Rightarrow> string" where
  "uuid_str u = hyphenate (hex_fixed 32 u)"

text \<open>\<open>s.replace(p, "")\<close>.\<close>

fun remove_all :: "string \<Rightarrow> string \<Rightarrow> string" where
  "remove_all p [] = []"
| "remove_all p (c # cs) =
     (if p \<noteq> [] \<and> starts_with p (c # cs) then remove_all p (drop (length p - 1) cs)
      else c # remove_all p cs)"

definition strip_chars :: "char set \<Rightarrow> string \<Rightarrow> string" where
  "strip_chars A s = rev (dropWhile (\<lambda>c. c \<in> A) (rev (dropWhile (\<lambda>c. c \<in> A) s)))"

definition hex_value :: "char \<Rightarrow> nat option" where
  "hex_value c =
     (let n = of_char c :: nat
      in if 48 \<le> n \<and> n \<le> 57 then Some (n - 48)
         else if 97 \<le> n \<and> n \<le> 102 then Some (n - 87)
         else if 65 \<le> n \<and> n \<le> 70 then Some (n - 55) else None)"

fun parse_hex_digits :: "nat \<Rightarrow> bool \<Rightarrow> string \<Rightarrow> nat option" where
  "parse_hex_digits acc after_digit [] = (if after_digit then Some acc else None)"
| "parse_hex_digits acc after_digit (c # cs) =
     (if c = CHR ''_'' then (if after_digit then parse_hex_digits acc False cs else None)
      else case hex_value c of
             None \<Rightarrow> None
           | Some d \<Rightarrow> parse_hex_digits (16 * acc + d) True cs)"

definition parse_hex_unsigned :: "string \<Rightarrow> nat option" where
  "parse_hex_unsigned s =
     (case s of
        c # x # cs \<Rightarrow>
          if c = CHR ''0'' \<and> (x = CHR ''x'' \<or> x = CHR ''X'')
          then parse_hex_digits 0 False
                 (case cs of [] \<Rightarrow> [] | u # us \<Rightarrow> if u = CHR ''_'' then us else cs)
          else parse_hex_digits 0 False s
      | _ \<Rightarrow> parse_hex_digits 0 False s)"

definition parse_hex_int :: "string \<Rightarrow> int option" where
  "parse_hex_int text =
     (case strip text of
        [] \<Rightarrow> None
      | c # cs \<Rightarrow>
          if c = CHR ''-'' then map_option (\<lambda>n. - int n) (parse_hex_unsigned cs)
          else if c = CHR ''+'' then map_option int (parse_hex_unsigned cs)
          else map_option int (parse_hex_unsigned (c # cs)))"

definition parse_uuid :: "string \<Rightarrow> uuid result" where
  "parse_uuid text =
     (let hex = remove_all ''uuid:'' (remove_all ''urn:'' text);
          hex' = remove_all ''-'' (strip_chars {CHR 0x7B, CHR 0x7D} hex)
      in if length hex' \<noteq> 32
         then Inl (ValueError ''badly formed hexadecimal UUID string'')
         else case parse_hex_int hex' of
                None \<Rightarrow> Inl (ValueError ''invalid literal for int() with base 16'')
              | Some n \<Rightarrow>
                  if 0 \<le> n \<and> n < 2 ^ 128 then Inr (nat n)
                  else Inl (ValueError ''int is out of range (need a 128-bit value)''))"

section \<open>The round trip\<close>

definition hex_digit :: "char \<Rightarrow> bool" where
  "hex_digit c \<longleftrightarrow> (\<exists>d<16. c = hex_char d)"

lemma hex_char_mem: "d < 16 \<Longrightarrow> hex_char d \<in> set ''0123456789abcdef''"
  unfolding hex_char_def by (rule nth_mem) simp

lemma hex_digit_cases: "hex_digit c \<Longrightarrow> c \<in> set ''0123456789abcdef''"
  unfolding hex_digit_def using hex_char_mem by blast

lemma hex_value_hex_char:
  assumes "d < 16"
  shows "hex_value (hex_char d) = Some d \<and> hex_char d \<noteq> CHR ''_''"
proof -
  have "d = 0 \<or> d = 1 \<or> d = 2 \<or> d = 3 \<or> d = 4 \<or> d = 5 \<or> d = 6 \<or> d = 7 \<or> d = 8 \<or> d = 9
      \<or> d = 10 \<or> d = 11 \<or> d = 12 \<or> d = 13 \<or> d = 14 \<or> d = 15"
    using assms by presburger
  then show ?thesis by (elim disjE) (simp_all add: hex_value_def hex_char_def)
qed

text \<open>What a hexadecimal digit is not.\<close>

lemma hex_set_not:
  assumes "c \<in> set ''0123456789abcdef''"
  shows "c \<noteq> CHR ''-''" "c \<noteq> CHR ''+''" "c \<noteq> CHR ''u''" "c \<noteq> CHR ''x''" "c \<noteq> CHR ''X''"
    "c \<noteq> CHR 0x7B" "c \<noteq> CHR 0x7D" "\<not> is_space c"
  using assms by (auto simp: is_space_def)

lemma length_hex_fixed [simp]: "length (hex_fixed k n) = k"
  by (induction k n rule: hex_fixed.induct) simp_all

lemma hex_fixed_digits: "list_all hex_digit (hex_fixed k n)"
proof (induction k n rule: hex_fixed.induct)
  case (2 k n)
  have "hex_digit (hex_char (n mod 16))"
    unfolding hex_digit_def by (intro exI [of _ "n mod 16"]) simp
  with 2 show ?case by simp
qed simp

lemma parse_hex_fixed:
  "0 < k \<or> b \<Longrightarrow> parse_hex_digits acc b (hex_fixed k n @ cs) = parse_hex_digits (acc * 16 ^ k + n mod 16 ^ k) (0 < k \<or> b) cs"
proof (induction k arbitrary: n cs)
  case 0
  then show ?case by simp
next
  case (Suc k)
  have step: "parse_hex_digits a b' (hex_char (n mod 16) # cs) = parse_hex_digits (16 * a + n mod 16) True cs" for a b'
    using hex_value_hex_char [of "n mod 16"] by simp
  have mod: "16 * (n div 16 mod 16 ^ k) + n mod 16 = n mod 16 ^ Suc k"
    by (simp add: mod_mult2_eq)
  show ?case
  proof (cases "0 < k \<or> b")
    case True
    then have "parse_hex_digits acc b (hex_fixed (Suc k) n @ cs) =
        parse_hex_digits (16 * (acc * 16 ^ k + n div 16 mod 16 ^ k) + n mod 16) True cs"
      using Suc.IH [of "n div 16" "hex_char (n mod 16) # cs"] by (simp only: hex_fixed.simps append.simps append_assoc step)
    moreover have "16 * (acc * 16 ^ k + n div 16 mod 16 ^ k) + n mod 16 = acc * 16 ^ Suc k + n mod 16 ^ Suc k"
      unfolding mod [symmetric] by (simp add: algebra_simps)
    ultimately show ?thesis by (simp only: zero_less_Suc simp_thms)
  next
    case False
    then have "k = 0" by simp
    then show ?thesis using step [of acc b] by (simp add: mult.commute)
  qed
qed

lemma remove_all_absent:
  "\<forall>c\<in>set s. c \<noteq> q \<Longrightarrow> remove_all (q # p) s = s"
  by (induction s) auto

lemma remove_all_single: "remove_all [q] s = filter (\<lambda>c. c \<noteq> q) s"
  by (induction s) auto

lemma strip_chars_absent:
  assumes "\<forall>c\<in>set s. c \<notin> A"
  shows "strip_chars A s = s"
proof -
  have drop: "dropWhile (\<lambda>c. c \<in> A) t = t" if "\<forall>c\<in>set t. c \<notin> A" for t
    using that by (cases t) auto
  from assms have "dropWhile (\<lambda>c. c \<in> A) (rev s) = rev s" by (intro drop) simp
  with drop [OF assms] show ?thesis by (simp add: strip_chars_def)
qed

lemma hyphenate_parts:
  assumes "length h = 32"
  shows "h = take 8 h @ take 4 (drop 8 h) @ take 4 (drop 12 h) @ take 4 (drop 16 h) @ drop 20 h"
proof -
  have "take m (drop k h) @ drop (k + m) h = drop k h" for k m
    by (metis append_take_drop_id drop_drop add.commute)
  from this [of 4 8] this [of 4 12] this [of 4 16] have
    "take 4 (drop 8 h) @ take 4 (drop 12 h) @ take 4 (drop 16 h) @ drop 20 h = drop 8 h" by simp
  then show ?thesis by (simp only: append_take_drop_id)
qed

lemma set_hyphenate: "set (hyphenate h) \<subseteq> insert (CHR ''-'') (set h)"
  by (auto simp: hyphenate_def dest: in_set_takeD in_set_dropD)

lemma uuid_str_chars: "set (uuid_str u) \<subseteq> insert (CHR ''-'') (set ''0123456789abcdef'')"
  using set_hyphenate [of "hex_fixed 32 u"] hex_fixed_digits [of 32 u] hex_digit_cases
  unfolding uuid_str_def list_all_iff by blast

lemma filter_hyphenate:
  assumes "length h = 32" and "CHR ''-'' \<notin> set h"
  shows "filter (\<lambda>c. c \<noteq> CHR ''-'') (hyphenate h) = h"
proof -
  have keep: "filter (\<lambda>c. c \<noteq> CHR ''-'') t = t" if "set t \<subseteq> set h" for t
    using that assms(2) by (intro filter_True) auto
  have sub: "set (take m (drop k h)) \<subseteq> set h" "set (drop k h) \<subseteq> set h" "set (take k h) \<subseteq> set h" for m k
    by (auto dest: in_set_takeD in_set_dropD)
  show ?thesis
    unfolding hyphenate_def by (simp add: keep sub) (rule hyphenate_parts [OF assms(1), symmetric])
qed

text \<open>\<open>UUID(str(u))\<close> is \<open>u\<close>.\<close>

lemma parse_uuid_str:
  assumes "u < 2 ^ 128"
  shows "parse_uuid (uuid_str u) = Inr u"
proof -
  let ?h = "hex_fixed 32 u"
  have chars: "c \<noteq> CHR ''u'' \<and> c \<notin> {CHR 0x7B, CHR 0x7D}" if "c \<in> set (uuid_str u)" for c
  proof -
    from that uuid_str_chars have "c = CHR ''-'' \<or> c \<in> set ''0123456789abcdef''" by blast
    then show ?thesis using hex_set_not(3,6,7) by auto
  qed
  have hchars: "c \<in> set ''0123456789abcdef''" if "c \<in> set ?h" for c
    using hex_fixed_digits [of 32 u] hex_digit_cases that unfolding list_all_iff by blast
  have "remove_all ''urn:'' (uuid_str u) = uuid_str u"
    by (rule remove_all_absent) (use chars in blast)
  moreover have "remove_all ''uuid:'' (uuid_str u) = uuid_str u"
    by (rule remove_all_absent) (use chars in blast)
  moreover have "strip_chars {CHR 0x7B, CHR 0x7D} (uuid_str u) = uuid_str u"
    by (rule strip_chars_absent) (use chars in blast)
  moreover have "remove_all ''-'' (uuid_str u) = ?h"
    unfolding uuid_str_def remove_all_single
    by (rule filter_hyphenate) (use hchars hex_set_not(1) in auto)
  moreover have strip: "strip ?h = ?h"
    by (rule strip_no_space) (use hchars hex_set_not(8) in blast)
  moreover have "parse_hex_int ?h = Some (int u)"
  proof -
    have digits: "parse_hex_digits 0 False ?h = Some u"
      using parse_hex_fixed [of 32 False 0 u "[]"] assms by simp
    have "2 \<le> length ?h" by simp
    then obtain c x cs where h: "?h = c # x # cs"
      by (cases ?h rule: remdups_adj.cases) auto
    then have "c \<in> set ''0123456789abcdef''" "x \<in> set ''0123456789abcdef''"
      using hchars [of c] hchars [of x] by simp_all
    with digits show ?thesis
      using hex_set_not(1,2) [of c] hex_set_not(4,5) [of x]
      unfolding parse_hex_int_def strip unfolding h parse_hex_unsigned_def by simp
  qed
  moreover have "int u < 2 ^ 128"
    using assms by (metis of_nat_less_iff of_nat_numeral of_nat_power)
  ultimately show ?thesis
    unfolding parse_uuid_def Let_def
    by (simp only: length_hex_fixed option.case of_nat_0_le_iff nat_int simp_thms if_True if_False not_False_eq_True)
qed

lemma uuid_str_inj:
  assumes "u < 2 ^ 128" and "v < 2 ^ 128" and "uuid_str u = uuid_str v"
  shows "u = v"
proof -
  have "Inr u = parse_uuid (uuid_str v)" using parse_uuid_str [OF assms(1)] assms(3) by (simp only:)
  also have "\<dots> = Inr v" by (rule parse_uuid_str [OF assms(2)])
  finally show ?thesis by (rule sum.inject(2) [THEN iffD1])
qed

end
