(* ===== verification/Config.thy ===== *)
theory Config
  imports Credentials
begin

text \<open>
  \<open>config.py\<close>: the settings and what their validation guarantees. Reading the environment and
  \<open>.env\<close> is pydantic's; a value of the record is what its fields were set to (or defaulted to),
  and \<open>validate_settings\<close> is the field constraints and the validator of the class. A
  \<open>SecretStr\<close> is its text, a \<open>Path\<close> its string.
\<close>

record settings =
  st_environment :: string
  st_log_level :: string
  st_database_url :: string
  st_redis_url :: string
  st_api_key_pepper :: string
  st_worker_enrollment_pepper :: string
  st_admin_token_hash :: string
  st_admin_token_pepper :: string
  st_jwt_private_key_path :: string
  st_jwt_public_key_path :: string
  st_jwt_issuer :: string
  st_jwt_audience :: string
  st_worker_token_ttl_seconds :: int
  st_rate_limit_rpm_default :: int
  st_max_request_body_bytes :: int
  st_request_wait_timeout_seconds :: int
  st_worker_lease_seconds :: int
  st_lease_recovery_interval_seconds :: int
  st_circuit_failure_threshold :: int
  st_circuit_cooldown_seconds :: int

text \<open>The defaults of the optional fields; the required fields are the arguments.\<close>

definition default_settings ::
  "string \<Rightarrow> string \<Rightarrow> string \<Rightarrow> string \<Rightarrow> string \<Rightarrow> string \<Rightarrow> string \<Rightarrow> string \<Rightarrow> settings" where
  "default_settings database_url redis_url api_key_pepper worker_enrollment_pepper
     admin_token_hash admin_token_pepper jwt_private_key_path jwt_public_key_path =
     \<lparr>st_environment = ''development'', st_log_level = ''INFO'',
      st_database_url = database_url, st_redis_url = redis_url,
      st_api_key_pepper = api_key_pepper, st_worker_enrollment_pepper = worker_enrollment_pepper,
      st_admin_token_hash = admin_token_hash, st_admin_token_pepper = admin_token_pepper,
      st_jwt_private_key_path = jwt_private_key_path, st_jwt_public_key_path = jwt_public_key_path,
      st_jwt_issuer = ''orbi-core'', st_jwt_audience = ''orbi-worker'',
      st_worker_token_ttl_seconds = 3600, st_rate_limit_rpm_default = 60,
      st_max_request_body_bytes = 1048576, st_request_wait_timeout_seconds = 60,
      st_worker_lease_seconds = 120, st_lease_recovery_interval_seconds = 30,
      st_circuit_failure_threshold = 5, st_circuit_cooldown_seconds = 120\<rparr>"

definition validate_secret_length :: "string \<Rightarrow> string result" where
  "validate_secret_length raw =
     (if utf8_length (text_of raw) < 32 \<or> starts_with ''replace-'' raw
      then Inl (ValueError ''security peppers must contain at least 32 non-placeholder bytes'')
      else Inr raw)"

text \<open>\<open>Field(ge=lo, le=hi)\<close>.\<close>

definition in_range :: "int \<Rightarrow> int \<Rightarrow> int \<Rightarrow> bool" where
  "in_range lo hi n \<longleftrightarrow> lo \<le> n \<and> n \<le> hi"

definition settings_in_range :: "settings \<Rightarrow> bool" where
  "settings_in_range st \<longleftrightarrow>
     in_range 300 86400 (st_worker_token_ttl_seconds st)
     \<and> in_range 1 100000 (st_rate_limit_rpm_default st)
     \<and> in_range 1024 16777216 (st_max_request_body_bytes st)
     \<and> in_range 1 600 (st_request_wait_timeout_seconds st)
     \<and> in_range 30 1800 (st_worker_lease_seconds st)
     \<and> in_range 5 300 (st_lease_recovery_interval_seconds st)
     \<and> in_range 1 100 (st_circuit_failure_threshold st)
     \<and> in_range 10 3600 (st_circuit_cooldown_seconds st)"

definition validate_settings :: "settings \<Rightarrow> settings result" where
  "validate_settings st =
     (if \<not> settings_in_range st then Inl (ValueError ''Field'')
      else
        bind_result (validate_secret_length (st_api_key_pepper st)) (\<lambda>_.
        bind_result (validate_secret_length (st_worker_enrollment_pepper st)) (\<lambda>_.
        bind_result (validate_secret_length (st_admin_token_pepper st)) (\<lambda>_.
        Inr st))))"

lemma validate_secret_length_Inr:
  "validate_secret_length raw = Inr r \<longleftrightarrow>
     r = raw \<and> pepper_ok raw \<and> \<not> starts_with ''replace-'' raw"
  by (auto simp: validate_secret_length_def pepper_ok_def)

lemma validate_settings_Inr:
  "validate_settings st = Inr st' \<longleftrightarrow>
     st' = st \<and> settings_in_range st
     \<and> (\<forall>raw\<in>{st_api_key_pepper st, st_worker_enrollment_pepper st, st_admin_token_pepper st}.
          pepper_ok raw \<and> \<not> starts_with ''replace-'' raw)"
  by (auto simp: validate_settings_def result_simps validate_secret_length_Inr)

end
