(* ===== verification/Samples.thy ===== *)
theory Samples
  imports Entities
begin

text \<open>
  Concrete rows on which the witnesses evaluate the properties: one active project, one key,
  two workers, one open request, and the database of these.
\<close>

definition sample_project :: project where
  "sample_project =
     \<lparr>pj_id = 5, pj_name = ''demo'', pj_slug = ''demo'', pj_owner_id = 9,
      pj_monthly_token_limit = 1000, pj_monthly_tokens_used = 70,
      pj_daily_token_limit = 100, pj_daily_tokens_used = 70,
      pj_daily_usage_date = utc_date 0, pj_monthly_usage_month = utc_month 0,
      pj_is_active = True, pj_created_at = 0\<rparr>"

definition sample_key :: api_key where
  "sample_key =
     \<lparr>ak_id = 2, ak_project_id = 5, ak_key_id = ''AAAAAAAAAAAA'',
      ak_display_prefix = ''orbi_test_v1_AAAAAAAAAAAA'', ak_secret_hash = ''h'',
      ak_environment = ''test'', ak_name = None, ak_scopes = [''chat''],
      ak_expires_at = None, ak_revoked_at = None, ak_last_used_at = None,
      ak_total_requests = 0, ak_total_tokens = 0, ak_rpm_limit = 60, ak_daily_req_limit = 2,
      ak_daily_requests_used = 0, ak_daily_requests_date = utc_date 0, ak_created_at = 0\<rparr>"

definition sample_worker :: "uuid \<Rightarrow> worker" where
  "sample_worker i =
     \<lparr>wk_id = i, wk_provider_type = ''local'', wk_name = ''w'', wk_status = ONLINE,
      wk_supported_models = [''m''], wk_capabilities = JObj [], wk_current_queue_depth = 0,
      wk_failure_count_1h = 0, wk_p95_latency_ms = None, wk_token_jti = Some ''j'',
      wk_registered_at = 0, wk_last_heartbeat = Some 0, wk_revoked_at = None\<rparr>"

definition sample_request :: "uuid \<Rightarrow> int \<Rightarrow> orbi_request" where
  "sample_request i priority =
     \<lparr>rq_id = i, rq_idempotency_key = None, rq_project_id = 5, rq_api_key_id = 2,
      rq_model_alias = ''m'', rq_resolved_model = ''m-1'', rq_payload = JObj [],
      rq_required_capabilities = JObj [], rq_priority = priority, rq_status = QUEUED,
      rq_assigned_to = None, rq_lease_expires = None, rq_retry_count = 0, rq_max_retries = 3,
      rq_created_at = 0, rq_expires_at = 300000000, rq_completed_at = None, rq_result = None,
      rq_error_detail = None, rq_input_tokens = None, rq_output_tokens = None,
      rq_reserved_tokens = 70, rq_budget_day = utc_date 0, rq_budget_month = utc_month 0\<rparr>"

definition assigned_request :: "uuid \<Rightarrow> uuid \<Rightarrow> instant \<Rightarrow> orbi_request" where
  "assigned_request i w lease =
     (sample_request i 5)\<lparr>rq_status := ASSIGNED, rq_assigned_to := Some w,
       rq_lease_expires := Some lease\<rparr>"

definition sample_alias :: model_alias where
  "sample_alias =
     \<lparr>ma_alias = ''m'', ma_display_name = None, ma_model_id = ''m-1'', ma_fallback_alias = None,
      ma_is_active = True, ma_min_vram_gb = None, ma_required_capabilities = JObj [],
      ma_supports_streaming = True, ma_supports_tools = False, ma_max_context_tokens = 4096\<rparr>"

definition sample_db :: "orbi_request list \<Rightarrow> db" where
  "sample_db rows =
     empty_db\<lparr>projects := [sample_project], api_keys := [sample_key],
       model_aliases := [sample_alias], workers := [sample_worker 3, sample_worker 4],
       requests := rows\<rparr>"

lemmas sample_defs = sample_project_def sample_key_def sample_worker_def sample_request_def
  assigned_request_def sample_alias_def sample_db_def empty_db_def

lemma utc_date_first_day:
  assumes "0 \<le> t" and "t < 86400000000"
  shows "utc_date t = utc_date 0"
proof -
  have "t div 86400000000 = 0 div 86400000000"
    using div_pos_pos_trivial [OF assms] by (simp only: div_0)
  then show ?thesis unfolding utc_date_def by (rule arg_cong)
qed

lemma utc_month_first_day: "0 \<le> t \<Longrightarrow> t < 86400000000 \<Longrightarrow> utc_month t = utc_month 0"
  unfolding utc_month_def using utc_date_first_day by (rule arg_cong)

end
