(* ===== verification/Budget.thy ===== *)
theory Budget
  imports Samples
begin

text \<open>
  \<open>services/budget.py\<close>: the hard token budget of a project. \<open>reserve\<close> rolls the accounting
  periods forward, checks both limits and charges the reservation; \<open>reconcile\<close> replaces a
  reservation with the actual usage when its period is still the current one; \<open>release\<close> is
  \<open>reconcile\<close> with no usage. The database row of a project is read with \<open>scalar_one\<close>, so a
  missing project raises. The second half is the accounting interface: the daily and the
  monthly budget are two interpretations of one locale, whose lemmas say that a project's
  counter stays equal to the sum of what is posted against it.
\<close>

record budget_snapshot =
  daily_limit :: int
  daily_used :: int
  monthly_limit :: int
  monthly_used :: int

definition enforce_budget :: "budget_snapshot \<Rightarrow> int \<Rightarrow> unit result" where
  "enforce_budget snapshot requested_tokens =
     (if requested_tokens < 1
      then Inl (ValueError ''requested_tokens must be positive'')
      else if daily_used snapshot + requested_tokens > daily_limit snapshot
      then Inl (BudgetExceededError ''daily token limit would be exceeded'')
      else if monthly_used snapshot + requested_tokens > monthly_limit snapshot
      then Inl (BudgetExceededError ''monthly token limit would be exceeded'')
      else Inr ())"

text \<open>The statements of \<open>reserve\<close> on the locked row, in order.\<close>

definition roll_periods :: "date \<Rightarrow> date \<Rightarrow> project \<Rightarrow> project" where
  "roll_periods today month project =
     (let p = (if pj_daily_usage_date project \<noteq> today
               then project\<lparr>pj_daily_usage_date := today, pj_daily_tokens_used := 0\<rparr>
               else project)
      in if pj_monthly_usage_month p \<noteq> month
         then p\<lparr>pj_monthly_usage_month := month, pj_monthly_tokens_used := 0\<rparr>
         else p)"

definition snapshot_of :: "project \<Rightarrow> budget_snapshot" where
  "snapshot_of project =
     \<lparr>daily_limit = pj_daily_token_limit project,
      daily_used = pj_daily_tokens_used project,
      monthly_limit = pj_monthly_token_limit project,
      monthly_used = pj_monthly_tokens_used project\<rparr>"

definition charge_project :: "int \<Rightarrow> project \<Rightarrow> project" where
  "charge_project requested_tokens p =
     p\<lparr>pj_daily_tokens_used := pj_daily_tokens_used p + requested_tokens,
       pj_monthly_tokens_used := pj_monthly_tokens_used p + requested_tokens\<rparr>"

text \<open>The two guarded assignments of \<open>reconcile\<close>.\<close>

definition settle_project :: "int \<Rightarrow> date \<Rightarrow> date \<Rightarrow> project \<Rightarrow> project" where
  "settle_project delta budget_day budget_month project =
     (let p = (if pj_daily_usage_date project = budget_day
               then project\<lparr>pj_daily_tokens_used := max 0 (pj_daily_tokens_used project + delta)\<rparr>
               else project)
      in if pj_monthly_usage_month p = budget_month
         then p\<lparr>pj_monthly_tokens_used := max 0 (pj_monthly_tokens_used p + delta)\<rparr>
         else p)"

definition select_project :: "uuid \<Rightarrow> db \<Rightarrow> project result" where
  "select_project project_id s = scalar_one (filter (\<lambda>p. pj_id p = project_id) (projects s))"

text \<open>Flushing the changed row; both counters are \<open>BigInteger\<close> columns.\<close>

definition flush_project :: "project \<Rightarrow> db \<Rightarrow> db result" where
  "flush_project p s =
     (if fits_int8 (pj_daily_tokens_used p) \<and> fits_int8 (pj_monthly_tokens_used p)
      then Inr (s\<lparr>projects := update_where (\<lambda>q. pj_id q = pj_id p) (\<lambda>_. p) (projects s)\<rparr>)
      else Inl DataError)"

definition reserve :: "instant \<Rightarrow> uuid \<Rightarrow> int \<Rightarrow> db \<Rightarrow> ((project \<times> date \<times> date) \<times> db) result" where
  "reserve now project_id requested_tokens s =
     bind_result (select_project project_id s) (\<lambda>project.
       let today = utc_date now;
           month = replace_day_1 today;
           rolled = roll_periods today month project
       in bind_result (enforce_budget (snapshot_of rolled) requested_tokens) (\<lambda>_.
            let charged = charge_project requested_tokens rolled
            in bind_result (flush_project charged s) (\<lambda>s'. Inr ((charged, today, month), s'))))"

definition reconcile :: "uuid \<Rightarrow> int \<Rightarrow> int \<Rightarrow> date \<Rightarrow> date \<Rightarrow> db \<Rightarrow> db result" where
  "reconcile project_id reserved_tokens actual_tokens budget_day budget_month s =
     bind_result (select_project project_id s) (\<lambda>project.
       flush_project
         (settle_project (actual_tokens - reserved_tokens) budget_day budget_month project) s)"

definition release :: "uuid \<Rightarrow> int \<Rightarrow> date \<Rightarrow> date \<Rightarrow> db \<Rightarrow> db result" where
  "release project_id reserved_tokens budget_day budget_month s =
     reconcile project_id reserved_tokens 0 budget_day budget_month s"

lemmas budget_defs =
  roll_periods_def snapshot_of_def charge_project_def settle_project_def

section \<open>Functional behaviour\<close>

lemma enforce_budget_Inr [simp]:
  "enforce_budget b n = Inr u \<longleftrightarrow>
     1 \<le> n \<and> daily_used b + n \<le> daily_limit b \<and> monthly_used b + n \<le> monthly_limit b"
  by (auto simp: enforce_budget_def)

lemma roll_periods_id [simp]: "pj_id (roll_periods d m p) = pj_id p"
  by (simp add: roll_periods_def Let_def)

lemma charge_project_id [simp]: "pj_id (charge_project n p) = pj_id p"
  by (simp add: charge_project_def)

lemma settle_project_id [simp]: "pj_id (settle_project n d m p) = pj_id p"
  by (simp add: settle_project_def Let_def)

lemma select_project_Inr:
  "select_project i s = Inr p \<Longrightarrow> p \<in> set (projects s) \<and> pj_id p = i"
  unfolding select_project_def scalar_one_eq_Inr
  by (auto dest: filter_eq_singletonD)

lemma select_project_found:
  assumes "distinct (map pj_id (projects s))" and "p \<in> set (projects s)"
  shows "select_project (pj_id p) s = Inr p"
  using filter_key_unique [OF assms] by (simp add: select_project_def)

lemma flush_project_Inr:
  "flush_project p s = Inr s' \<longleftrightarrow>
     fits_int8 (pj_daily_tokens_used p) \<and> fits_int8 (pj_monthly_tokens_used p) \<and>
     s' = s\<lparr>projects := update_where (\<lambda>q. pj_id q = pj_id p) (\<lambda>_. p) (projects s)\<rparr>"
  by (auto simp: flush_project_def)

lemma reserve_Inr:
  "reserve now pid n s = Inr ((p', d, m), s') \<longleftrightarrow>
     (\<exists>p. select_project pid s = Inr p \<and> d = utc_date now \<and> m = utc_month now \<and>
       enforce_budget (snapshot_of (roll_periods d m p)) n = Inr () \<and>
       p' = charge_project n (roll_periods d m p) \<and> flush_project p' s = Inr s')"
  by (auto simp: reserve_def result_simps Let_def utc_month_def simp del: enforce_budget_Inr)

lemma reconcile_Inr:
  "reconcile pid r a d m s = Inr s' \<longleftrightarrow>
     (\<exists>p. select_project pid s = Inr p \<and> flush_project (settle_project (a - r) d m p) s = Inr s')"
  by (simp add: reconcile_def result_simps)

text \<open>Budget operations write the project table and nothing else.\<close>

lemma flush_project_frame:
  assumes "flush_project p s = Inr s'"
  shows "s' = s\<lparr>projects := projects s'\<rparr>"
    and "map pj_id (projects s') = map pj_id (projects s)"
  using assms by (auto simp: flush_project_Inr intro!: map_update_where)

lemma reserve_frame:
  assumes "reserve now pid n s = Inr (r, s')"
  shows "s' = s\<lparr>projects := projects s'\<rparr>"
    and "map pj_id (projects s') = map pj_id (projects s)"
  using assms by (cases r; force simp: reserve_Inr dest: flush_project_frame)+

lemma reconcile_frame:
  assumes "reconcile pid r a d m s = Inr s'"
  shows "s' = s\<lparr>projects := projects s'\<rparr>"
    and "map pj_id (projects s') = map pj_id (projects s)"
  using assms by (auto simp: reconcile_Inr dest: flush_project_frame)

section \<open>Accounting: what is posted against a project\<close>

text \<open>
  A posting is a charge against a project in a day and a month. \<open>posted\<close> adds the postings of
  one project in one period; \<open>pick\<close> selects which of the two dates is the period.
\<close>

type_synonym posting = "uuid \<times> (date \<times> date) \<times> int"

definition posted :: "(date \<times> date \<Rightarrow> date) \<Rightarrow> uuid \<Rightarrow> date \<Rightarrow> posting list \<Rightarrow> int" where
  "posted pick pid d xs =
     sum_list (map (\<lambda>(i, dm, a). a) (filter (\<lambda>(i, dm, a). i = pid \<and> pick dm = d) xs))"

lemma posted_Nil [simp]: "posted pick pid d [] = 0"
  by (simp add: posted_def)

lemma posted_Cons [simp]:
  "posted pick pid d ((i, dm, a) # xs) =
     (if i = pid \<and> pick dm = d then a else 0) + posted pick pid d xs"
  by (simp add: posted_def)

lemma posted_append [simp]:
  "posted pick pid d (xs @ ys) = posted pick pid d xs + posted pick pid d ys"
  by (simp add: posted_def)

lemma posted_nonneg: "\<forall>(i, dm, a)\<in>set xs. 0 \<le> a \<Longrightarrow> 0 \<le> posted pick pid d xs"
  by (induction xs) auto

lemma posted_eq_0: "\<forall>(i, dm, a)\<in>set xs. i = pid \<longrightarrow> pick dm \<noteq> d \<Longrightarrow> posted pick pid d xs = 0"
  by (induction xs) auto

locale accounting_period =
  fixes used :: "project \<Rightarrow> int"
    and limit :: "project \<Rightarrow> int"
    and period :: "project \<Rightarrow> date"
    and pick :: "date \<times> date \<Rightarrow> date"
    and current :: "instant \<Rightarrow> date"
  assumes pick_current: "pick (utc_date t, utc_month t) = current t"
    and current_mono: "s \<le> t \<Longrightarrow> current s \<le> current t"
    and period_roll: "period (roll_periods (utc_date t) (utc_month t) p) = current t"
    and used_roll: "used (roll_periods (utc_date t) (utc_month t) p) =
        (if period p = current t then used p else 0)"
    and limit_roll: "limit (roll_periods d m p) = limit p"
    and period_charge: "period (charge_project n p) = period p"
    and used_charge: "used (charge_project n p) = used p + n"
    and limit_charge: "limit (charge_project n p) = limit p"
    and enforced: "enforce_budget (snapshot_of p) n = Inr () \<Longrightarrow> used p + n \<le> limit p"
    and period_settle: "period (settle_project \<delta> d m p) = period p"
    and used_settle: "used (settle_project \<delta> d m p) =
        (if period p = pick (d, m) then max 0 (used p + \<delta>) else used p)"
    and limit_settle: "limit (settle_project \<delta> d m p) = limit p"
begin

text \<open>
  The counter of every project agrees with the postings of its current period, and no posting
  is in a later period than the project's, which in turn is not later than the clock.
\<close>

definition balanced :: "project list \<Rightarrow> posting list \<Rightarrow> bool" where
  "balanced ps xs \<longleftrightarrow> (\<forall>p\<in>set ps. used p = posted pick (pj_id p) (period p) xs)"

definition current_up_to :: "instant \<Rightarrow> project list \<Rightarrow> posting list \<Rightarrow> bool" where
  "current_up_to t ps xs \<longleftrightarrow>
     (\<forall>p\<in>set ps. \<forall>(i, dm, a)\<in>set xs. i = pj_id p \<longrightarrow> pick dm \<le> period p \<and> period p \<le> current t)"

lemma current_up_to_later: "current_up_to s ps xs \<Longrightarrow> s \<le> t \<Longrightarrow> current_up_to t ps xs"
  unfolding current_up_to_def using current_mono by (fastforce intro: order_trans)

lemma reserve_within_limit:
  assumes "reserve now pid n s = Inr ((p', d, m), s')"
  shows "used p' \<le> limit p'" and "p' \<in> set (projects s')" and "pj_id p' = pid"
    and "period p' = current now"
proof -
  from assms obtain p where sel: "select_project pid s = Inr p"
    and d: "d = utc_date now" "m = utc_month now"
    and ok: "enforce_budget (snapshot_of (roll_periods d m p)) n = Inr ()"
    and p': "p' = charge_project n (roll_periods d m p)" and fl: "flush_project p' s = Inr s'"
    by (auto simp: reserve_Inr simp del: enforce_budget_Inr)
  from sel have p: "p \<in> set (projects s)" "pj_id p = pid" by (auto dest: select_project_Inr)
  show "used p' \<le> limit p'"
    using enforced [OF ok] by (simp add: p' used_charge limit_charge)
  show "pj_id p' = pid" using p by (simp add: p')
  then show "p' \<in> set (projects s')" using fl p by (force simp: flush_project_Inr set_update_where)
  show "period p' = current now" by (simp add: p' d period_charge period_roll)
qed

lemma reserve_balanced:
  assumes res: "reserve now pid n s = Inr ((p', d, m), s')"
    and bal: "balanced (projects s) xs" and upto: "current_up_to now (projects s) xs"
  shows "balanced (projects s') (xs @ [(pid, (d, m), n)])"
proof -
  from res obtain p where sel: "select_project pid s = Inr p"
    and d: "d = utc_date now" "m = utc_month now"
    and p': "p' = charge_project n (roll_periods d m p)" and fl: "flush_project p' s = Inr s'"
    by (auto simp: reserve_Inr)
  from sel have p: "p \<in> set (projects s)" "pj_id p = pid" by (auto dest: select_project_Inr)
  have stale: "posted pick pid (current now) xs = 0" if "period p \<noteq> current now"
  proof (rule posted_eq_0)
    show "\<forall>(i, dm, a)\<in>set xs. i = pid \<longrightarrow> pick dm \<noteq> current now"
      using upto p that unfolding current_up_to_def by (fastforce dest: antisym)
  qed
  have new: "used p' = posted pick pid (period p') (xs @ [(pid, (d, m), n)])"
    using bal p stale
    by (auto simp: p' d used_charge period_charge period_roll used_roll pick_current balanced_def)
  show ?thesis
    unfolding balanced_def
  proof
    fix q assume "q \<in> set (projects s')"
    then obtain q0 where q0: "q0 \<in> set (projects s)"
      and q: "q = (if pj_id q0 = pid then p' else q0)"
      using fl p by (auto simp: flush_project_Inr set_update_where p')
    show "used q = posted pick (pj_id q) (period q) (xs @ [(pid, (d, m), n)])"
    proof (cases "pj_id q0 = pid")
      case True
      with new p q show ?thesis by (simp add: p')
    next
      case False
      with bal q0 q show ?thesis by (auto simp: balanced_def)
    qed
  qed
qed

lemma reserve_current_up_to:
  assumes res: "reserve now pid n s = Inr ((p', d, m), s')"
    and upto: "current_up_to now (projects s) xs"
  shows "current_up_to now (projects s') (xs @ [(pid, (d, m), n)])"
proof -
  from res obtain p where sel: "select_project pid s = Inr p"
    and d: "d = utc_date now" "m = utc_month now"
    and p': "p' = charge_project n (roll_periods d m p)" and fl: "flush_project p' s = Inr s'"
    by (auto simp: reserve_Inr)
  from sel have p: "p \<in> set (projects s)" "pj_id p = pid" by (auto dest: select_project_Inr)
  have per: "period p' = current now" by (simp add: p' d period_charge period_roll)
  have old: "pick dm \<le> current now" if "(pid, dm, a) \<in> set xs" for dm a
    using upto p that unfolding current_up_to_def by (fastforce intro: order_trans)
  show ?thesis
    unfolding current_up_to_def
  proof (intro ballI, clarify)
    fix q i dd mm a
    assume q: "q \<in> set (projects s')" and x: "(pj_id q, (dd, mm), a) \<in> set (xs @ [(pid, (d, m), n)])"
    from q obtain q0 where q0: "q0 \<in> set (projects s)"
      and q: "q = (if pj_id q0 = pid then p' else q0)"
      using fl p by (auto simp: flush_project_Inr set_update_where p')
    show "pick (dd, mm) \<le> period q \<and> period q \<le> current now"
    proof (cases "pj_id q0 = pid")
      case True
      with x q p old [of "(dd, mm)" a] show ?thesis
        by (auto simp: per p' d pick_current period_charge period_roll)
    next
      case False
      with x q q0 upto show ?thesis by (fastforce simp: current_up_to_def)
    qed
  qed
qed

text \<open>Settling one pending posting: the truncation at zero never cuts anything off.\<close>

lemma reconcile_balanced:
  assumes rec: "reconcile pid r a d m s = Inr s'"
    and bal: "balanced (projects s) (xs @ [(pid, (d, m), r - a)])"
    and nonneg: "\<forall>(i, dm, a)\<in>set xs. 0 \<le> a"
  shows "balanced (projects s') xs"
proof -
  from rec obtain p where sel: "select_project pid s = Inr p"
    and fl: "flush_project (settle_project (a - r) d m p) s = Inr s'"
    by (auto simp: reconcile_Inr)
  from sel have p: "p \<in> set (projects s)" "pj_id p = pid" by (auto dest: select_project_Inr)
  have "0 \<le> posted pick pid (period p) xs" using nonneg by (rule posted_nonneg)
  then have new: "used (settle_project (a - r) d m p) = posted pick pid (period p) xs"
    using bal p by (auto simp: used_settle balanced_def)
  show ?thesis
    unfolding balanced_def
  proof
    fix q assume "q \<in> set (projects s')"
    then obtain q0 where q0: "q0 \<in> set (projects s)"
      and q: "q = (if pj_id q0 = pid then settle_project (a - r) d m p else q0)"
      using fl p by (auto simp: flush_project_Inr set_update_where)
    show "used q = posted pick (pj_id q) (period q) xs"
    proof (cases "pj_id q0 = pid")
      case True
      with new p q show ?thesis by (simp add: period_settle)
    next
      case False
      with bal q0 q show ?thesis by (auto simp: balanced_def)
    qed
  qed
qed

lemma reconcile_current_up_to:
  assumes rec: "reconcile pid r a d m s = Inr s'"
    and upto: "current_up_to t (projects s) xs"
  shows "current_up_to t (projects s') xs"
proof -
  from rec obtain p where sel: "select_project pid s = Inr p"
    and fl: "flush_project (settle_project (a - r) d m p) s = Inr s'"
    by (auto simp: reconcile_Inr)
  from sel have p: "p \<in> set (projects s)" "pj_id p = pid" by (auto dest: select_project_Inr)
  have "\<exists>q0\<in>set (projects s). pj_id q0 = pj_id q \<and> period q0 = period q"
    if "q \<in> set (projects s')" for q
    using that fl p by (auto simp: flush_project_Inr set_update_where period_settle split: if_splits)
  then show ?thesis using upto unfolding current_up_to_def by fastforce
qed

end

interpretation daily: accounting_period
  pj_daily_tokens_used pj_daily_token_limit pj_daily_usage_date fst utc_date
  by unfold_locales (auto simp: budget_defs Let_def utc_date_mono)

interpretation monthly: accounting_period
  pj_monthly_tokens_used pj_monthly_token_limit pj_monthly_usage_month snd utc_month
  by unfold_locales (auto simp: budget_defs Let_def utc_month_mono)

section \<open>Properties\<close>

text \<open>The counter that a reservation at an instant starts from.\<close>

definition daily_base :: "instant \<Rightarrow> project \<Rightarrow> int" where
  "daily_base now p = (if pj_daily_usage_date p = utc_date now then pj_daily_tokens_used p else 0)"

definition monthly_base :: "instant \<Rightarrow> project \<Rightarrow> int" where
  "monthly_base now p = (if pj_monthly_usage_month p = utc_month now then pj_monthly_tokens_used p else 0)"

definition charged :: "instant \<Rightarrow> int \<Rightarrow> project \<Rightarrow> project" where
  "charged now n p = p\<lparr>pj_daily_usage_date := utc_date now, pj_daily_tokens_used := daily_base now p + n,
     pj_monthly_usage_month := utc_month now, pj_monthly_tokens_used := monthly_base now p + n\<rparr>"

definition replace_project :: "project \<Rightarrow> db \<Rightarrow> db" where
  "replace_project p s = s\<lparr>projects := update_where (\<lambda>q. pj_id q = pj_id p) (\<lambda>_. p) (projects s)\<rparr>"

lemma charge_rolled:
  "charge_project n (roll_periods (utc_date now) (utc_month now) p) = charged now n p"
  by (cases p) (simp add: charge_project_def roll_periods_def charged_def daily_base_def
      monthly_base_def Let_def)

lemma snapshot_rolled:
  "snapshot_of (roll_periods (utc_date now) (utc_month now) p) =
     \<lparr>daily_limit = pj_daily_token_limit p, daily_used = daily_base now p,
      monthly_limit = pj_monthly_token_limit p, monthly_used = monthly_base now p\<rparr>"
  by (simp add: snapshot_of_def roll_periods_def daily_base_def monthly_base_def Let_def)

text \<open>A row that the schema allows: counters and limits are within their columns.\<close>

definition wf_project :: "project \<Rightarrow> bool" where
  "wf_project p \<longleftrightarrow> 0 \<le> pj_daily_tokens_used p \<and> 0 \<le> pj_monthly_tokens_used p
     \<and> fits_int8 (pj_daily_token_limit p) \<and> fits_int8 (pj_monthly_token_limit p)"

lemma base_nonneg: "wf_project p \<Longrightarrow> 0 \<le> daily_base now p \<and> 0 \<le> monthly_base now p"
  by (simp add: wf_project_def daily_base_def monthly_base_def)

text \<open>What \<open>reserve\<close> does with a stored project.\<close>

lemma reserve_stored:
  assumes "distinct (map pj_id (projects s))" and "p \<in> set (projects s)" and "wf_project p"
  shows "reserve now (pj_id p) n s =
    (if n < 1 then Inl (ValueError ''requested_tokens must be positive'')
     else if pj_daily_token_limit p < daily_base now p + n
       then Inl (BudgetExceededError ''daily token limit would be exceeded'')
     else if pj_monthly_token_limit p < monthly_base now p + n
       then Inl (BudgetExceededError ''monthly token limit would be exceeded'')
     else Inr ((charged now n p, utc_date now, utc_month now), replace_project (charged now n p) s))"
proof -
  have sel: "select_project (pj_id p) s = Inr p" using select_project_found [OF assms(1,2)] .
  have fits: "flush_project (charged now n p) s = Inr (replace_project (charged now n p) s)"
    if "1 \<le> n" "daily_base now p + n \<le> pj_daily_token_limit p"
      "monthly_base now p + n \<le> pj_monthly_token_limit p"
    using that assms(3) base_nonneg [OF assms(3), of now]
    by (auto simp: flush_project_def charged_def replace_project_def wf_project_def fits_int8_def)
  show ?thesis
    using fits
    by (simp add: reserve_def sel Let_def flip: utc_month_def)
      (simp add: snapshot_rolled charge_rolled enforce_budget_def)
qed

text \<open>C23. The complete behaviour of \<open>reserve\<close> on a stored project: a non-positive amount is a
  \<open>ValueError\<close>, the daily limit is checked before the monthly one, a counter of a past period
  counts as zero, and otherwise exactly this project's row is charged in both periods and the
  database is otherwise unchanged. In particular no overflow of the \<open>BIGINT\<close> columns can occur.\<close>

theorem reserve_spec:
  assumes "distinct (map pj_id (projects s))" and "p \<in> set (projects s)" and "wf_project p"
  shows "reserve now (pj_id p) n s =
    (if n < 1 then Inl (ValueError ''requested_tokens must be positive'')
     else if pj_daily_token_limit p < daily_base now p + n
       then Inl (BudgetExceededError ''daily token limit would be exceeded'')
     else if pj_monthly_token_limit p < monthly_base now p + n
       then Inl (BudgetExceededError ''monthly token limit would be exceeded'')
     else Inr ((charged now n p, utc_date now, utc_month now), replace_project (charged now n p) s))"
  using assms by (rule reserve_stored)

theorem reserve_spec_witness:
  "reserve 0 5 30 (sample_db []) =
     Inr ((charged 0 30 sample_project, utc_date 0, utc_month 0),
          replace_project (charged 0 30 sample_project) (sample_db []))
   \<and> reserve 0 5 31 (sample_db []) = Inl (BudgetExceededError ''daily token limit would be exceeded'')"
proof -
  have "distinct (map pj_id (projects (sample_db [])))" "sample_project \<in> set (projects (sample_db []))"
    "wf_project sample_project"
    by (simp_all add: sample_defs wf_project_def fits_int8_def)
  note spec = reserve_spec [OF this]
  have "pj_id sample_project = 5" by (simp add: sample_project_def)
  with spec [of 0 30] spec [of 0 31] show ?thesis
    by (simp add: sample_project_def daily_base_def monthly_base_def)
qed

text \<open>A sequence of reservations for one project, each at its own time; \<open>grants\<close> are the amounts
  granted. A refused reservation is rolled back.\<close>

fun reserve_all :: "uuid \<Rightarrow> (instant \<times> int) list \<Rightarrow> db \<Rightarrow> int list \<times> db" where
  "reserve_all pid [] s = ([], s)"
| "reserve_all pid ((now, n) # rs) s =
     (case reserve now pid n s of
        Inl e \<Rightarrow> reserve_all pid rs s
      | Inr (granted, s1) \<Rightarrow> let (ns, s2) = reserve_all pid rs s1 in (n # ns, s2))"

lemma reserve_all_day:
  assumes "distinct (map pj_id (projects s))" and "p \<in> set (projects s)" and "pj_id p = pid"
    and "\<forall>(now, n)\<in>set rs. utc_date now = d" and "used = (if pj_daily_usage_date p = d then pj_daily_tokens_used p else 0)"
    and "used \<le> pj_daily_token_limit p"
  shows "used + sum_list (fst (reserve_all pid rs s)) \<le> pj_daily_token_limit p"
  using assms
proof (induction rs arbitrary: s p used)
  case Nil
  then show ?case by simp
next
  case (Cons r rs)
  obtain now n where r: "r = (now, n)" by fastforce
  show ?case
  proof (cases "reserve now pid n s")
    case (Inl e)
    with Cons show ?thesis by (simp add: r)
  next
    case (Inr res)
    obtain p' d' m s1 where res: "res = ((p', d', m), s1)" by (cases res) auto
    with Inr have ok: "reserve now pid n s = Inr ((p', d', m), s1)" by simp
    have sel: "select_project pid s = Inr p"
      using select_project_found [OF Cons.prems(1,2)] Cons.prems(3) by simp
    have now: "utc_date now = d" using Cons.prems(4) by (simp add: r)
    from ok sel have p': "p' = charged now n p"
      by (auto simp: reserve_Inr charge_rolled)
    have base: "daily_base now p = used" using Cons.prems(5) now by (simp add: daily_base_def)
    have used': "pj_daily_tokens_used p' = used + n" "pj_daily_usage_date p' = d"
      "pj_daily_token_limit p' = pj_daily_token_limit p" "pj_id p' = pid"
      using Cons.prems(3) now base by (simp_all add: p' charged_def)
    have "used + n \<le> pj_daily_token_limit p"
      using daily.reserve_within_limit(1) [OF ok] used' by simp
    moreover have "p' \<in> set (projects s1)" using daily.reserve_within_limit(2) [OF ok] .
    moreover have "distinct (map pj_id (projects s1))"
      using reserve_frame(2) [OF ok] Cons.prems(1) by simp
    ultimately have "(used + n) + sum_list (fst (reserve_all pid rs s1)) \<le> pj_daily_token_limit p'"
      using Cons.IH [of s1 p' "used + n"] Cons.prems(4) used' by auto
    then show ?thesis using Inr res used'
      by (cases "reserve_all pid rs s1") (simp add: r)
  qed
qed

text \<open>C10. However many reservations are attempted on one UTC day and however many of them are
  refused, what is granted together with what was already used stays within the daily limit.\<close>

theorem daily_limit_never_oversubscribed:
  assumes "distinct (map pj_id (projects s))" and "p \<in> set (projects s)"
    and "\<forall>(now, n)\<in>set rs. utc_date now = d"
    and "pj_daily_usage_date p = d \<longrightarrow> pj_daily_tokens_used p \<le> pj_daily_token_limit p"
    and "0 \<le> pj_daily_token_limit p"
  shows "(if pj_daily_usage_date p = d then pj_daily_tokens_used p else 0)
      + sum_list (fst (reserve_all (pj_id p) rs s)) \<le> pj_daily_token_limit p"
  using assms by (intro reserve_all_day) auto

theorem daily_limit_never_oversubscribed_witness:
  "70 + sum_list (fst (reserve_all 5 [(0, 20), (5, 20), (6, 10)] (sample_db []))) \<le> 100"
proof -
  have "distinct (map pj_id (projects (sample_db [])))" "sample_project \<in> set (projects (sample_db []))"
    by (simp_all add: sample_defs)
  moreover have "\<forall>(now, n)\<in>set [(0, 20), (5, 20), (6, 10 :: int)]. utc_date now = utc_date 0"
    using utc_date_first_day [of 5] utc_date_first_day [of 6] by simp
  ultimately show ?thesis
    using daily_limit_never_oversubscribed [of "sample_db []" sample_project _ "utc_date 0"]
    by (simp add: sample_project_def del: reserve_all.simps)
qed

text \<open>Settling a reservation moves each counter by the difference exactly when the project is
  still in the period the reservation was made in, never below zero; a counter that has moved on
  to a newer period, the limits and every other row are untouched.\<close>

theorem reconcile_spec:
  assumes "distinct (map pj_id (projects s))" and "p \<in> set (projects s)"
    and "fits_int8 (pj_daily_tokens_used p)" "fits_int8 (pj_monthly_tokens_used p)"
    and "fits_int8 (pj_daily_tokens_used p + (actual - reserved))"
    and "fits_int8 (pj_monthly_tokens_used p + (actual - reserved))"
  shows "reconcile (pj_id p) reserved actual day month s = Inr (replace_project
    (p\<lparr>pj_daily_tokens_used := (if pj_daily_usage_date p = day
          then max 0 (pj_daily_tokens_used p + (actual - reserved)) else pj_daily_tokens_used p),
       pj_monthly_tokens_used := (if pj_monthly_usage_month p = month
          then max 0 (pj_monthly_tokens_used p + (actual - reserved)) else pj_monthly_tokens_used p)\<rparr>) s)"
proof -
  have sel: "select_project (pj_id p) s = Inr p" using select_project_found [OF assms(1,2)] .
  have "settle_project (actual - reserved) day month p =
    p\<lparr>pj_daily_tokens_used := (if pj_daily_usage_date p = day
          then max 0 (pj_daily_tokens_used p + (actual - reserved)) else pj_daily_tokens_used p),
       pj_monthly_tokens_used := (if pj_monthly_usage_month p = month
          then max 0 (pj_monthly_tokens_used p + (actual - reserved)) else pj_monthly_tokens_used p)\<rparr>"
    by (cases p) (simp add: settle_project_def Let_def)
  moreover have "fits_int8 (max 0 x)" if "fits_int8 x" for x
    using that by (auto simp: fits_int8_def max_def)
  ultimately show ?thesis
    using assms(3-) by (simp add: reconcile_def sel flush_project_def replace_project_def)
qed

theorem reconcile_spec_witness:
  "\<exists>p s'. reconcile 5 70 50 (utc_date 0) (utc_month 0) (sample_db []) = Inr s'
    \<and> p \<in> set (projects s') \<and> pj_daily_tokens_used p = 50 \<and> pj_monthly_tokens_used p = 50"
proof -
  have "distinct (map pj_id (projects (sample_db [])))" "sample_project \<in> set (projects (sample_db []))"
    by (simp_all add: sample_defs)
  from reconcile_spec [OF this, of 50 70 "utc_date 0" "utc_month 0"] show ?thesis
    by (simp add: sample_project_def sample_db_def replace_project_def fits_int8_def update_where_def)
qed

text \<open>Releasing a reservation in the period it was made in undoes it: what remains is the
  project with its periods rolled forward and nothing reserved.\<close>

theorem reserve_release:
  assumes "distinct (map pj_id (projects s))" and "p \<in> set (projects s)" and "wf_project p"
    and "reserve now (pj_id p) n s = Inr ((p', d, m), s1)"
  shows "release (pj_id p) n d m s1 = Inr (replace_project (charged now 0 p) s)"
proof -
  have sel: "select_project (pj_id p) s = Inr p" using select_project_found [OF assms(1,2)] .
  with assms(4) have d: "d = utc_date now" "m = utc_month now" and p': "p' = charged now n p"
    and s1: "s1 = replace_project p' s"
    by (auto simp: reserve_Inr charge_rolled flush_project_Inr replace_project_def)
  have ids: "pj_id p' = pj_id p" by (simp add: p' charged_def)
  have "p' \<in> set (projects s1)" using daily.reserve_within_limit(2) [OF assms(4)] .
  moreover have "distinct (map pj_id (projects s1))"
    using reserve_frame(2) [OF assms(4)] assms(1) by simp
  ultimately have sel': "select_project (pj_id p) s1 = Inr p'"
    using select_project_found [of s1 p'] ids by simp
  have settled: "settle_project (0 - n) d m p' = charged now 0 p"
    using base_nonneg [OF assms(3), of now]
    by (simp add: settle_project_def p' d charged_def Let_def)
  have "fits_int8 (daily_base now p)" "fits_int8 (monthly_base now p)"
    using assms(4) sel base_nonneg [OF assms(3), of now] assms(3)
    by (auto simp: reserve_Inr snapshot_rolled wf_project_def fits_int8_def)
  then have "flush_project (charged now 0 p) s1 = Inr (replace_project (charged now 0 p) s1)"
    by (simp add: flush_project_def replace_project_def charged_def)
  moreover have "replace_project (charged now 0 p) s1 = replace_project (charged now 0 p) s"
    by (simp add: s1 p' replace_project_def charged_def update_where_def)
  ultimately show ?thesis
    by (simp add: release_def reconcile_def sel' settled del: diff_0)
qed

theorem reserve_release_witness:
  "\<exists>s1. reserve 0 5 30 (sample_db []) = Inr ((charged 0 30 sample_project, utc_date 0, utc_month 0), s1)
    \<and> release 5 30 (utc_date 0) (utc_month 0) s1 =
        Inr (replace_project (charged 0 0 sample_project) (sample_db []))"
proof -
  have wf: "distinct (map pj_id (projects (sample_db [])))" "sample_project \<in> set (projects (sample_db []))"
    "wf_project sample_project"
    by (simp_all add: sample_defs wf_project_def fits_int8_def)
  have id: "pj_id sample_project = 5" by (simp add: sample_project_def)
  have "reserve 0 5 30 (sample_db []) = Inr ((charged 0 30 sample_project, utc_date 0, utc_month 0),
      replace_project (charged 0 30 sample_project) (sample_db []))"
    by (simp add: reserve_def select_project_def sample_db_def id Let_def flip: utc_month_def)
      (simp add: snapshot_rolled charge_rolled enforce_budget_def daily_base_def monthly_base_def
        flush_project_def charged_def replace_project_def sample_project_def fits_int8_def)
  with reserve_release [OF wf, unfolded id, OF this] show ?thesis by blast
qed

end
