(* ===== verification/Constraints.thy ===== *)
theory Constraints
  imports Budget
begin

text \<open>
  The constraints that the schema of \<open>models/entities.py\<close> puts on the tables, as far as the
  queries rely on them: primary keys, unique columns, the unique pair of API key and idempotency
  key, the foreign key from API keys to projects, and the widths of the project's counters.
\<close>

text \<open>The unique constraint on the pair of key and idempotency key.\<close>

definition idempotency_unique :: "orbi_request list \<Rightarrow> bool" where
  "idempotency_unique rows \<longleftrightarrow>
     (\<forall>a key. length (filter (\<lambda>r. rq_api_key_id r = a \<and> rq_idempotency_key r = Some key) rows) \<le> 1)"

text \<open>A database that satisfies its unique constraints.\<close>

definition keys_ok :: "db \<Rightarrow> bool" where
  "keys_ok s \<longleftrightarrow> distinct (map pj_id (projects s)) \<and> distinct (map ak_id (api_keys s))
     \<and> distinct (map ak_key_id (api_keys s)) \<and> distinct (map ma_alias (model_aliases s))
     \<and> (\<forall>p\<in>set (projects s). wf_project p)
     \<and> (\<forall>k\<in>set (api_keys s). ak_project_id k \<in> pj_id ` set (projects s))
     \<and> idempotency_unique (requests s)"

lemma scalar_one_or_none_total:
  "length rows \<le> 1 \<Longrightarrow> \<exists>v. scalar_one_or_none rows = Inr v"
  by (cases rows rule: scalar_one_or_none.cases) auto

lemma length_filter_key:
  "distinct (map k rows) \<Longrightarrow> length (filter (\<lambda>x. k x = a \<and> Q x) rows) \<le> 1"
proof (induction rows)
  case Nil
  then show ?case by simp
next
  case (Cons r rows)
  have "filter (\<lambda>x. k x = a \<and> Q x) rows = []" if "k r = a"
    using Cons.prems that by (auto simp: filter_empty_conv image_iff)
  with Cons show ?case by auto
qed

end
