(* ===== verification/Lifecycle.thy ===== *)
theory Lifecycle
  imports Entities
begin

text \<open>
  The contract of the queue, stated on one request row: a state machine whose five transitions
  are the only ways a row of \<open>orbi_requests\<close> may change, the well-formedness of a row, and
  what the machine guarantees (absorbing terminal states, one committed result, a bound on the
  number of transitions). The locale at the end is the interface of a queue operation: it
  acts on the request table row by row through the machine. \<open>Queue\<close> interprets it for
  every operation of \<open>services/queue.py\<close>.
\<close>

inductive request_step :: "orbi_request \<Rightarrow> orbi_request \<Rightarrow> bool" where
  claim: "rq_status r = QUEUED \<Longrightarrow>
    request_step r (r\<lparr>rq_status := ASSIGNED, rq_assigned_to := Some w, rq_lease_expires := Some l\<rparr>)"
| complete: "in_flight (rq_status r) \<Longrightarrow> rq_result r = None \<Longrightarrow> 0 \<le> i \<Longrightarrow> 0 \<le> n \<Longrightarrow>
    request_step r (r\<lparr>rq_status := COMPLETED, rq_result := Some v, rq_input_tokens := Some i,
      rq_output_tokens := Some n, rq_completed_at := Some t, rq_lease_expires := None\<rparr>)"
| requeue: "in_flight (rq_status r) \<Longrightarrow> rq_result r = None \<Longrightarrow>
    rq_retry_count r < rq_max_retries r \<Longrightarrow>
    request_step r (r\<lparr>rq_status := QUEUED, rq_assigned_to := None, rq_lease_expires := None,
      rq_retry_count := rq_retry_count r + 1, rq_error_detail := e\<rparr>)"
| fail: "in_flight (rq_status r) \<Longrightarrow> rq_result r = None \<Longrightarrow>
    request_step r (r\<lparr>rq_status := FAILED_FINAL, rq_assigned_to := None,
      rq_lease_expires := None, rq_error_detail := e\<rparr>)"
| expire: "rq_status r = QUEUED \<Longrightarrow> rq_result r = None \<Longrightarrow>
    request_step r (r\<lparr>rq_status := EXPIRED, rq_error_detail := e\<rparr>)"

inductive_cases request_step_elim: "request_step r r'"

abbreviation request_steps :: "orbi_request \<Rightarrow> orbi_request \<Rightarrow> bool" where
  "request_steps \<equiv> request_step\<^sup>*\<^sup>*"

text \<open>
  A well-formed row: the holder and the lease go with an assigned status, the result and the
  token counts go with \<open>COMPLETED\<close>, and the retry counter stays within its budget. The
  statuses \<open>STARTING\<close>, \<open>RUNNING\<close>, \<open>STREAMING\<close> and \<open>CANCELLED\<close> are tested for by the code
  but never written.
\<close>

definition wf_request :: "orbi_request \<Rightarrow> bool" where
  "wf_request r \<longleftrightarrow>
     (case rq_status r of
        QUEUED \<Rightarrow> rq_assigned_to r = None \<and> rq_lease_expires r = None \<and> rq_result r = None
      | ASSIGNED \<Rightarrow> rq_assigned_to r \<noteq> None \<and> rq_lease_expires r \<noteq> None \<and> rq_result r = None
      | COMPLETED \<Rightarrow> rq_result r \<noteq> None \<and> rq_lease_expires r = None \<and> rq_completed_at r \<noteq> None
          \<and> (\<exists>i n. rq_input_tokens r = Some i \<and> rq_output_tokens r = Some n \<and> 0 \<le> i \<and> 0 \<le> n)
      | FAILED_FINAL \<Rightarrow> rq_assigned_to r = None \<and> rq_lease_expires r = None \<and> rq_result r = None
      | EXPIRED \<Rightarrow> rq_assigned_to r = None \<and> rq_lease_expires r = None \<and> rq_result r = None
      | _ \<Rightarrow> False)
     \<and> 0 \<le> rq_retry_count r \<and> rq_retry_count r \<le> rq_max_retries r \<and> 0 \<le> rq_reserved_tokens r"

text \<open>The columns that no transition writes.\<close>

definition request_identity :: "orbi_request \<Rightarrow> _" where
  "request_identity r =
     (rq_id r, rq_idempotency_key r, rq_project_id r, rq_api_key_id r, rq_model_alias r,
      rq_resolved_model r, rq_payload r, rq_required_capabilities r, rq_priority r,
      rq_max_retries r, rq_created_at r, rq_expires_at r, rq_reserved_tokens r,
      rq_budget_day r, rq_budget_month r)"

lemma request_step_wf: "request_step r r' \<Longrightarrow> wf_request r \<Longrightarrow> wf_request r'"
  by (induction rule: request_step.induct)
    (auto simp: wf_request_def split: request_status.splits)

lemma request_step_identity: "request_step r r' \<Longrightarrow> request_identity r' = request_identity r"
  by (induction rule: request_step.induct) (simp_all add: request_identity_def)

lemma request_step_not_terminal: "request_step r r' \<Longrightarrow> \<not> terminal (rq_status r)"
  by (induction rule: request_step.induct) (auto simp: in_flight_def)

lemma request_steps_wf: "request_steps r r' \<Longrightarrow> wf_request r \<Longrightarrow> wf_request r'"
  by (induction rule: rtranclp_induct) (auto intro: request_step_wf)

lemma request_steps_identity: "request_steps r r' \<Longrightarrow> request_identity r' = request_identity r"
  by (induction rule: rtranclp_induct) (auto dest: request_step_identity)

lemma request_steps_terminal:
  assumes "request_steps r r'" and "terminal (rq_status r)"
  shows "r' = r"
  using assms by (cases rule: converse_rtranclpE) (auto dest: request_step_not_terminal)

lemma wf_request_result: "wf_request r \<Longrightarrow> rq_result r \<noteq> None \<longleftrightarrow> rq_status r = COMPLETED"
  by (auto simp: wf_request_def split: request_status.splits)

lemma wf_request_in_flight: "wf_request r \<Longrightarrow> in_flight (rq_status r) \<longleftrightarrow> rq_status r = ASSIGNED"
  by (cases "rq_status r") (auto simp: wf_request_def)

text \<open>
  A variant for termination: what a row may still go through. Every transition lowers it, so
  a row with \<open>k\<close> retries left makes at most \<open>2 k + 2\<close> transitions.
\<close>

definition remaining_steps :: "orbi_request \<Rightarrow> nat" where
  "remaining_steps r =
     (let k = nat (rq_max_retries r - rq_retry_count r)
      in if terminal (rq_status r) then 0
         else if rq_status r = QUEUED then 2 * k + 2 else 2 * k + 1)"

lemma request_step_decreases: "request_step r r' \<Longrightarrow> remaining_steps r' < remaining_steps r"
proof (induction rule: request_step.induct)
  case (requeue r e)
  then have "nat (rq_max_retries r - (rq_retry_count r + 1)) < nat (rq_max_retries r - rq_retry_count r)"
    by simp
  with requeue show ?case by (auto simp: remaining_steps_def Let_def in_flight_def)
qed (auto simp: remaining_steps_def Let_def in_flight_def)

lemma request_step_bound:
  "(request_step ^^ n) r r' \<Longrightarrow> n + remaining_steps r' \<le> remaining_steps r"
proof (induction n arbitrary: r')
  case 0
  then show ?case by simp
next
  case (Suc n)
  then obtain q where "(request_step ^^ n) r q" and "request_step q r'" by auto
  then have "n + remaining_steps q \<le> remaining_steps r" and "remaining_steps r' < remaining_steps q"
    using Suc.IH request_step_decreases by auto
  then show ?case by simp
qed

section \<open>Tables of requests\<close>

definition wf_requests :: "orbi_request list \<Rightarrow> bool" where
  "wf_requests rows \<longleftrightarrow> distinct (map rq_id rows) \<and> list_all wf_request rows"

lemma wf_requestsD: "wf_requests rows \<Longrightarrow> r \<in> set rows \<Longrightarrow> wf_request r"
  by (simp add: wf_requests_def list_all_iff)

lemma request_identity_id: "request_identity r' = request_identity r \<Longrightarrow> rq_id r' = rq_id r"
  by (simp add: request_identity_def)

lemma steps_wf_requests:
  assumes "list_all2 request_steps rows rows'" and "wf_requests rows"
  shows "wf_requests rows'"
proof -
  have "map rq_id rows' = map rq_id rows \<and> (list_all wf_request rows \<longrightarrow> list_all wf_request rows')"
    using assms(1)
    by (induction rule: list_all2_induct)
      (auto intro: request_steps_wf dest: request_steps_identity request_identity_id)
  with assms(2) show ?thesis by (simp add: wf_requests_def)
qed

text \<open>An \<open>UPDATE\<close> whose rewriting is a transition moves the whole table through the machine.\<close>

lemma update_where_steps:
  assumes "\<And>r. r \<in> set rows \<Longrightarrow> P r \<Longrightarrow> request_step r (f r)"
  shows "list_all2 request_steps rows (update_where P f rows)"
  using assms by (induction rows) (auto simp: update_where_def)

lemma request_steps_rows_trans:
  "list_all2 request_steps xs ys \<Longrightarrow> list_all2 request_steps ys zs \<Longrightarrow> list_all2 request_steps xs zs"
  by (rule list_all2_trans [where ?P1.0 = request_steps and ?P2.0 = request_steps]) auto

lemma rewrite_row_steps:
  assumes "wf_requests rows" and "r \<in> set rows" and "request_step r r'" and "rq_id r' = rq_id r"
  shows "list_all2 request_steps rows (update_where (\<lambda>q. rq_id q = rq_id r') (\<lambda>_. r') rows)"
proof (rule update_where_steps)
  fix q assume "q \<in> set rows" and "rq_id q = rq_id r'"
  with assms have "q = r" by (auto simp: wf_requests_def dest: distinct_key_eq)
  with assms(3) show "request_step q r'" by simp
qed

section \<open>The interface of a queue operation\<close>

text \<open>
  An operation is a relation between the request tables before and after. The contract: each
  row either keeps its place and moves through the machine, and no row is added or removed.
\<close>

locale lifecycle_operation =
  fixes operation :: "orbi_request list \<Rightarrow> orbi_request list \<Rightarrow> bool"
  assumes follows_machine: "operation rows rows' \<Longrightarrow> wf_requests rows \<Longrightarrow>
    list_all2 request_steps rows rows'"
begin

lemma keeps_wf:
  assumes "operation rows rows'" and "wf_requests rows"
  shows "wf_requests rows'"
  using steps_wf_requests [OF follows_machine [OF assms] assms(2)] .

lemma keeps_identity:
  assumes "operation rows rows'" and "wf_requests rows"
  shows "map request_identity rows' = map request_identity rows"
  using follows_machine [OF assms]
  by (induction rule: list_all2_induct) (auto dest: request_steps_identity)

lemma keeps_ids:
  assumes "operation rows rows'" and "wf_requests rows"
  shows "map rq_id rows' = map rq_id rows"
proof -
  have "map rq_id qs = map fst (map request_identity qs)" for qs
    by (simp add: request_identity_def)
  with keeps_identity [OF assms] show ?thesis by metis
qed

lemma keeps_terminal_rows:
  assumes "operation rows rows'" and "wf_requests rows"
    and "r \<in> set rows" and "terminal (rq_status r)"
  shows "r \<in> set rows'"
proof -
  from assms(3) obtain i where i: "i < length rows" "rows ! i = r" by (auto simp: in_set_conv_nth)
  with follows_machine [OF assms(1,2)] have "length rows = length rows'" "request_steps r (rows' ! i)"
    by (auto simp: list_all2_conv_all_nth)
  with assms(4) have "rows' ! i = r" by (auto dest: request_steps_terminal)
  with i \<open>length rows = length rows'\<close> show ?thesis by (auto simp: in_set_conv_nth)
qed

end

end
