(* ===== verification/Queue.thy ===== *)
theory Queue
  imports Budget Lifecycle
begin

text \<open>
  \<open>services/queue.py\<close>: claiming, result commitment, worker errors and lease recovery. The
  service is built with a budget service (\<open>QueueService.__init__\<close>), here a record of the
  two operations it calls; \<open>budget_contract\<close> is what it relies on. PostgreSQL's JSON
  containment operator \<open><@\<close> is the parameter \<open>jsonb_contained\<close>, and the rows that other
  transactions have locked (\<open>FOR UPDATE SKIP LOCKED\<close>) are the parameter \<open>locked\<close>.
\<close>

record budget_service =
  bs_reconcile :: "uuid \<Rightarrow> int \<Rightarrow> int \<Rightarrow> date \<Rightarrow> date \<Rightarrow> db \<Rightarrow> db result"
  bs_release :: "uuid \<Rightarrow> int \<Rightarrow> date \<Rightarrow> date \<Rightarrow> db \<Rightarrow> db result"

definition budget_service_impl :: budget_service where
  "budget_service_impl = \<lparr>bs_reconcile = reconcile, bs_release = release\<rparr>"

definition claimable ::
  "(json \<Rightarrow> json \<Rightarrow> bool) \<Rightarrow> instant \<Rightarrow> worker \<Rightarrow> orbi_request \<Rightarrow> bool" where
  "claimable jsonb_contained now worker r \<longleftrightarrow>
     rq_status r = QUEUED \<and> now < rq_expires_at r
     \<and> jsonb_contained (rq_required_capabilities r) (wk_capabilities worker)
     \<and> (rq_resolved_model r \<in> set (wk_supported_models worker)
        \<or> rq_model_alias r \<in> set (wk_supported_models worker))"

definition claim_order :: "orbi_request \<Rightarrow> int \<times> instant" where
  "claim_order r = (rq_priority r, rq_created_at r)"

definition claim_candidates ::
  "(json \<Rightarrow> json \<Rightarrow> bool) \<Rightarrow> uuid set \<Rightarrow> instant \<Rightarrow> worker \<Rightarrow> db \<Rightarrow> orbi_request list" where
  "claim_candidates jsonb_contained locked now worker s =
     sort_key claim_order
       (filter (\<lambda>r. claimable jsonb_contained now worker r \<and> rq_id r \<notin> locked) (requests s))"

definition set_request :: "orbi_request \<Rightarrow> db \<Rightarrow> db" where
  "set_request r s = s\<lparr>requests := update_where (\<lambda>q. rq_id q = rq_id r) (\<lambda>_. r) (requests s)\<rparr>"

definition claim_next ::
  "(json \<Rightarrow> json \<Rightarrow> bool) \<Rightarrow> uuid set \<Rightarrow> instant \<Rightarrow> worker \<Rightarrow> int \<Rightarrow> db \<Rightarrow>
     orbi_request option \<times> db" where
  "claim_next jsonb_contained locked now worker lease_seconds s =
     (case claim_candidates jsonb_contained locked now worker s of
        [] \<Rightarrow> (None, s)
      | r # _ \<Rightarrow>
          let r' = r\<lparr>rq_status := ASSIGNED, rq_assigned_to := Some (wk_id worker),
                     rq_lease_expires := Some (now + seconds lease_seconds)\<rparr>
          in (Some r', set_request r' s))"

text \<open>
  The \<open>WHERE\<close> clause that \<open>commit_result\<close> and \<open>record_error\<close> share: the request is held by
  this worker, in flight, and has no result.
\<close>

definition held_by :: "uuid \<Rightarrow> worker \<Rightarrow> orbi_request \<Rightarrow> bool" where
  "held_by request_id worker r \<longleftrightarrow>
     rq_id r = request_id \<and> rq_assigned_to r = Some (wk_id worker)
     \<and> rq_result r = None \<and> in_flight (rq_status r)"

definition complete_request ::
  "instant \<Rightarrow> json \<Rightarrow> int \<Rightarrow> int \<Rightarrow> orbi_request \<Rightarrow> orbi_request" where
  "complete_request now result input_tokens output_tokens r =
     r\<lparr>rq_status := COMPLETED, rq_result := Some result,
       rq_input_tokens := Some input_tokens, rq_output_tokens := Some output_tokens,
       rq_completed_at := Some now, rq_lease_expires := None\<rparr>"

definition count_completion :: "uuid \<Rightarrow> int \<Rightarrow> db \<Rightarrow> db result" where
  "count_completion api_key_id total_tokens s =
     (let keys = update_where (\<lambda>k. ak_id k = api_key_id)
                   (\<lambda>k. k\<lparr>ak_total_requests := ak_total_requests k + 1,
                          ak_total_tokens := ak_total_tokens k + total_tokens\<rparr>) (api_keys s)
      in if list_all (\<lambda>k. fits_int8 (ak_total_requests k) \<and> fits_int8 (ak_total_tokens k)) keys
         then Inr (s\<lparr>api_keys := keys\<rparr>) else Inl DataError)"

definition insert_usage :: "usage_record \<Rightarrow> db \<Rightarrow> db result" where
  "insert_usage u s =
     (if \<not> (fits_int4 (ur_input_tokens u) \<and> fits_int4 (ur_output_tokens u)
            \<and> pred_option fits_int4 (ur_latency_ms u))
      then Inl DataError
      else if ur_id u \<in> ur_id ` set (usage_records s)
           \<or> ur_request_id u \<in> ur_request_id ` set (usage_records s)
      then Inl IntegrityError
      else Inr (s\<lparr>usage_records := usage_records s @ [u]\<rparr>))"

definition usage_row ::
  "uuid \<Rightarrow> instant \<Rightarrow> uuid \<Rightarrow> worker \<Rightarrow> orbi_request \<Rightarrow> int \<Rightarrow> int \<Rightarrow> int \<Rightarrow> usage_record" where
  "usage_row usage_id recorded_at request_id worker row input_tokens output_tokens latency_ms =
     \<lparr>ur_id = usage_id, ur_request_id = request_id,
      ur_project_id = rq_project_id row, ur_api_key_id = rq_api_key_id row,
      ur_worker_id = Some (wk_id worker), ur_provider_type = Some (wk_provider_type worker),
      ur_model_id = rq_resolved_model row,
      ur_input_tokens = input_tokens, ur_output_tokens = output_tokens,
      ur_latency_ms = Some latency_ms, ur_cost_usd = 0, ur_recorded_at = recorded_at\<rparr>"

text \<open>
  \<open>usage_id\<close> and \<open>recorded_at\<close> are the values the column defaults supply (\<open>uuid4()\<close> and the
  server's \<open>now()\<close>).
\<close>

definition commit_result ::
  "budget_service \<Rightarrow> instant \<Rightarrow> uuid \<Rightarrow> instant \<Rightarrow> uuid \<Rightarrow> worker \<Rightarrow> json \<Rightarrow> int \<Rightarrow> int \<Rightarrow> int \<Rightarrow>
     db \<Rightarrow> (bool \<times> db) result" where
  "commit_result svc now usage_id recorded_at request_id worker result input_tokens
     output_tokens latency_ms s =
     (if \<not> (fits_int4 input_tokens \<and> fits_int4 output_tokens) then Inl DataError
      else
        let returned = filter (held_by request_id worker) (requests s);
            s1 = s\<lparr>requests := update_where (held_by request_id worker)
                     (complete_request now result input_tokens output_tokens) (requests s)\<rparr>
        in bind_result (scalar_one_or_none returned) (\<lambda>row.
             case row of
               None \<Rightarrow> Inr (False, s1)
             | Some row \<Rightarrow>
                 let total_tokens = input_tokens + output_tokens
                 in bind_result (bs_reconcile svc (rq_project_id row) (rq_reserved_tokens row)
                                  total_tokens (rq_budget_day row) (rq_budget_month row) s1) (\<lambda>s2.
                    bind_result (count_completion (rq_api_key_id row) total_tokens s2) (\<lambda>s3.
                    bind_result (insert_usage (usage_row usage_id recorded_at request_id worker row
                                   input_tokens output_tokens latency_ms) s3) (\<lambda>s4.
                    Inr (True, s4))))))"

definition error_detail :: "string \<Rightarrow> string \<Rightarrow> json" where
  "error_detail error_code message =
     JObj [(''code'', JStr error_code), (''message'', JStr message)]"

definition record_error ::
  "budget_service \<Rightarrow> uuid \<Rightarrow> worker \<Rightarrow> bool \<Rightarrow> string \<Rightarrow> string \<Rightarrow> db \<Rightarrow> (bool \<times> db) result" where
  "record_error svc request_id worker retryable error_code message s =
     bind_result (scalar_one_or_none (filter (held_by request_id worker) (requests s))) (\<lambda>found.
       case found of
         None \<Rightarrow> Inr (False, s)
       | Some request \<Rightarrow>
           let r1 = request\<lparr>rq_error_detail := Some (error_detail error_code message),
                            rq_assigned_to := None, rq_lease_expires := None\<rparr>
           in if retryable \<and> rq_retry_count r1 < rq_max_retries r1
              then Inr (True, set_request
                     (r1\<lparr>rq_retry_count := rq_retry_count r1 + 1, rq_status := QUEUED\<rparr>) s)
              else
                let r2 = r1\<lparr>rq_status := FAILED_FINAL\<rparr>
                in bind_result (bs_release svc (rq_project_id r2) (rq_reserved_tokens r2)
                                 (rq_budget_day r2) (rq_budget_month r2) (set_request r2 s)) (\<lambda>s'.
                     Inr (True, s')))"

text \<open>
  The three statements of \<open>recover_expired_leases\<close>. A comparison with a \<open>NULL\<close> lease is not
  true, so such a row is not matched.
\<close>

definition lease_expired :: "instant \<Rightarrow> orbi_request \<Rightarrow> bool" where
  "lease_expired now r \<longleftrightarrow>
     in_flight (rq_status r) \<and> (case rq_lease_expires r of None \<Rightarrow> False | Some l \<Rightarrow> l < now)
     \<and> rq_result r = None"

definition retry_left :: "orbi_request \<Rightarrow> bool" where
  "retry_left r \<longleftrightarrow> rq_retry_count r < rq_max_retries r"

definition queue_expired :: "instant \<Rightarrow> orbi_request \<Rightarrow> bool" where
  "queue_expired now r \<longleftrightarrow>
     rq_status r = QUEUED \<and> rq_expires_at r < now \<and> rq_result r = None"

definition requeue_row :: "orbi_request \<Rightarrow> orbi_request" where
  "requeue_row r = r\<lparr>rq_status := QUEUED, rq_assigned_to := None, rq_lease_expires := None,
     rq_retry_count := rq_retry_count r + 1\<rparr>"

definition exhaust_row :: "orbi_request \<Rightarrow> orbi_request" where
  "exhaust_row r = r\<lparr>rq_status := FAILED_FINAL, rq_assigned_to := None, rq_lease_expires := None,
     rq_error_detail := Some (JObj [(''code'', JStr ''retry_budget_exhausted'')])\<rparr>"

definition expire_row :: "orbi_request \<Rightarrow> orbi_request" where
  "expire_row r = r\<lparr>rq_status := EXPIRED,
     rq_error_detail := Some (JObj [(''code'', JStr ''queue_ttl_expired'')])\<rparr>"

definition release_row :: "budget_service \<Rightarrow> orbi_request \<Rightarrow> db \<Rightarrow> db result" where
  "release_row svc r s = bs_release svc (rq_project_id r) (rq_reserved_tokens r)
     (rq_budget_day r) (rq_budget_month r) s"

definition recover_expired_leases ::
  "budget_service \<Rightarrow> instant \<Rightarrow> db \<Rightarrow> (nat \<times> db) result" where
  "recover_expired_leases svc now s =
     (let retryable = (\<lambda>r. lease_expired now r \<and> retry_left r);
          exhausted = (\<lambda>r. lease_expired now r \<and> \<not> retry_left r);
          rowcount = length (filter retryable (requests s));
          rows1 = update_where retryable requeue_row (requests s);
          terminal_rows = filter exhausted rows1;
          rows2 = update_where exhausted exhaust_row rows1;
          expired_rows = filter (queue_expired now) rows2;
          rows3 = update_where (queue_expired now) expire_row rows2
      in bind_result
           (fold_result (release_row svc) (terminal_rows @ expired_rows) (s\<lparr>requests := rows3\<rparr>))
           (\<lambda>s'. Inr (rowcount, s')))"

section \<open>What the queue relies on\<close>

locale budget_contract =
  fixes svc :: budget_service
  assumes reconcile_frame: "bs_reconcile svc pid r a d m s = Inr s' \<Longrightarrow> s' = s\<lparr>projects := projects s'\<rparr>"
    and reconcile_keys: "bs_reconcile svc pid r a d m s = Inr s' \<Longrightarrow>
      map pj_id (projects s') = map pj_id (projects s)"
    and release_eq: "bs_release svc pid r d m s = bs_reconcile svc pid r 0 d m s"

interpretation budget: budget_contract budget_service_impl
proof
  fix pid r a d m s s'
  assume "bs_reconcile budget_service_impl pid r a d m s = Inr s'"
  then have rec: "reconcile pid r a d m s = Inr s'" by (simp add: budget_service_impl_def)
  then show "s' = s\<lparr>projects := projects s'\<rparr>" by (rule reconcile_frame)
  from rec show "map pj_id (projects s') = map pj_id (projects s)" by (rule reconcile_frame)
next
  fix pid r d m s
  show "bs_release budget_service_impl pid r d m s = bs_reconcile budget_service_impl pid r 0 d m s"
    by (simp add: budget_service_impl_def release_def)
qed

end
