(* ===== verification/Auth.thy ===== *)
theory Auth
  imports ApiKeys WorkerTokens RateLimit Uuids Config Constraints Queue Samples
begin

text \<open>
  \<open>dependencies.py\<close> and the parts of \<open>main.py\<close> that it uses: the application state, the three
  authentication boundaries and the scope checks. A dependency that raises makes the session
  roll back (\<open>with_api_key\<close>, \<open>with_worker\<close>, \<open>with_admin\<close>), but what it did to Redis stays.
  The clock readings of one call are separate arguments, in the order the code takes them.
\<close>

record 's app_state =
  app_settings :: settings
  app_api_key_service :: api_key_service
  app_enrollment_service :: enrollment_service
  app_jwt_service :: jwt_service
  app_jwt_codec :: jwt_codec
  app_rate_limiter :: "'s redis_counters"
  app_budget_service :: budget_service
  app_admin_verifier :: "string \<Rightarrow> bool result"

text \<open>\<open>verify_admin\<close> of \<open>create_app\<close>.\<close>

definition verify_admin :: "password_hasher \<Rightarrow> settings \<Rightarrow> string \<Rightarrow> bool result" where
  "verify_admin admin_hasher st token =
     verify_guarded admin_hasher (st_admin_token_hash st) (peppered (st_admin_token_pepper st) token)"

text \<open>The first lines of all three dependencies.\<close>

definition bearer_token :: "string option \<Rightarrow> string option" where
  "bearer_token authorization =
     (case authorization of
        None \<Rightarrow> None
      | Some header \<Rightarrow>
          if \<not> starts_with ''Bearer '' header then None
          else Some (strip (remove_prefix ''Bearer '' header)))"

section \<open>Project keys\<close>

definition invalid_api_key :: exn where
  "invalid_api_key = OrbiError ''invalid_api_key'' ''A valid bearer API key is required.'' 401"

definition select_key :: "string \<Rightarrow> db \<Rightarrow> api_key option result" where
  "select_key key_id s = scalar_one_or_none
     [k. k \<leftarrow> api_keys s, p \<leftarrow> projects s,
         pj_id p = ak_project_id k \<and> ak_key_id k = key_id \<and> pj_is_active p]"

definition check_key ::
  "api_key_service \<Rightarrow> instant \<Rightarrow> string \<Rightarrow> string \<Rightarrow> api_key option \<Rightarrow> api_key result" where
  "check_key svc now environment secret found =
     (case found of
        None \<Rightarrow> Inl invalid_api_key
      | Some r \<Rightarrow>
          if ak_environment r \<noteq> environment then Inl invalid_api_key
          else bind_result (verify_secret svc secret (ak_secret_hash r)) (\<lambda>ok.
            if \<not> ok \<or> \<not> is_record_active now (ak_expires_at r) (ak_revoked_at r)
            then Inl invalid_api_key else Inr r))"

definition roll_day :: "instant \<Rightarrow> api_key \<Rightarrow> api_key" where
  "roll_day now k =
     (if ak_daily_requests_date k \<noteq> utc_date now
      then k\<lparr>ak_daily_requests_date := utc_date now, ak_daily_requests_used := 0\<rparr> else k)"

definition replace_key :: "api_key \<Rightarrow> db \<Rightarrow> db" where
  "replace_key k s = s\<lparr>api_keys := update_where (\<lambda>q. ak_id q = ak_id k) (\<lambda>_. k) (api_keys s)\<rparr>"

text \<open>
  \<open>t_active\<close>, \<open>now\<close> and \<open>t_rate\<close> are the readings in \<open>is_record_active\<close>, in the dependency
  and in \<open>allow_minute\<close>.
\<close>

definition require_api_key ::
  "'s app_state \<Rightarrow> instant \<Rightarrow> instant \<Rightarrow> instant \<Rightarrow> string option \<Rightarrow> db \<Rightarrow> 's \<Rightarrow>
     (api_key \<times> db) result \<times> 's" where
  "require_api_key app t_active now t_rate authorization s redis =
     (case bearer_token authorization of
        None \<Rightarrow> (Inl invalid_api_key, redis)
      | Some raw_key \<Rightarrow>
     (case parse_api_key raw_key of
        None \<Rightarrow> (Inl invalid_api_key, redis)
      | Some (environment, key_id, secret) \<Rightarrow>
     (case bind_result (select_key key_id s)
             (check_key (app_api_key_service app) t_active environment secret) of
        Inl e \<Rightarrow> (Inl e, redis)
      | Inr found \<Rightarrow>
          let k = roll_day now found
          in if ak_daily_requests_used k \<ge> ak_daily_req_limit k
             then (Inl (OrbiError ''daily_request_limit_exceeded''
                     ''Daily request limit exceeded.'' 429), redis)
             else
               let (ok, redis') = allow_minute (app_rate_limiter app) (ak_key_id k)
                     (ak_rpm_limit k) t_rate redis
               in if \<not> ok
                  then (Inl (OrbiError ''rate_limit_exceeded''
                          ''Per-minute request limit exceeded.'' 429), redis')
                  else
                    let k' = k\<lparr>ak_daily_requests_used := ak_daily_requests_used k + 1,
                               ak_last_used_at := Some now\<rparr>
                    in (Inr (k', replace_key k' s), redis'))))"

definition require_api_scope :: "string \<Rightarrow> api_key \<Rightarrow> api_key result" where
  "require_api_scope required_scope k =
     (if required_scope \<notin> set (ak_scopes k) \<and> ''*'' \<notin> set (ak_scopes k)
      then Inl (OrbiError ''insufficient_scope'' ''API key lacks the required scope.'' 403)
      else Inr k)"

text \<open>An endpoint behind a key: dependencies and handler in one session.\<close>

definition with_api_key ::
  "'s app_state \<Rightarrow> instant \<times> instant \<times> instant \<Rightarrow> string option \<Rightarrow> string \<Rightarrow>
     (api_key \<Rightarrow> db \<Rightarrow> ('a \<times> db) result) \<Rightarrow> db \<Rightarrow> 's \<Rightarrow> 'a result \<times> db \<times> 's" where
  "with_api_key app clock authorization scope handler s redis =
     (let (t_active, now, t_rate) = clock;
          (auth, redis') = require_api_key app t_active now t_rate authorization s redis;
          (answer, s') = session_scope (\<lambda>_.
            bind_result auth (\<lambda>(k, s1).
            bind_result (require_api_scope scope k) (\<lambda>k. handler k s1))) s
      in (answer, s', redis'))"

section \<open>The administrator\<close>

definition admin_auth_required :: exn where
  "admin_auth_required =
     OrbiError ''admin_auth_required'' ''Administrator authentication is required.'' 401"

definition require_admin :: "'s app_state \<Rightarrow> string option \<Rightarrow> unit result" where
  "require_admin app authorization =
     (case bearer_token authorization of
        None \<Rightarrow> Inl admin_auth_required
      | Some token \<Rightarrow> bind_result (app_admin_verifier app token) (\<lambda>ok.
          if \<not> ok then Inl admin_auth_required else Inr ()))"

definition with_admin ::
  "'s app_state \<Rightarrow> string option \<Rightarrow> (db \<Rightarrow> ('a \<times> db) result) \<Rightarrow> db \<Rightarrow> 'a result \<times> db" where
  "with_admin app authorization handler s =
     session_scope (\<lambda>s. bind_result (require_admin app authorization) (\<lambda>_. handler s)) s"

section \<open>Workers\<close>

definition check_worker :: "jwt_claims \<Rightarrow> worker option \<Rightarrow> (worker \<times> jwt_claims) result" where
  "check_worker claims found =
     (case found of
        None \<Rightarrow> Inl (OrbiError ''invalid_worker_token'' ''Worker token is invalid or revoked.'' 401)
      | Some worker \<Rightarrow>
          if wk_revoked_at worker \<noteq> None \<or> wk_token_jti worker \<noteq> Some (cl_jti claims)
          then Inl (OrbiError ''invalid_worker_token'' ''Worker token is invalid or revoked.'' 401)
          else Inr (worker, claims))"

definition require_worker ::
  "'s app_state \<Rightarrow> instant \<Rightarrow> string option \<Rightarrow> db \<Rightarrow> (worker \<times> jwt_claims) result" where
  "require_worker app now authorization s =
     (case bearer_token authorization of
        None \<Rightarrow> Inl (OrbiError ''worker_auth_required'' ''Worker authentication is required.'' 401)
      | Some token \<Rightarrow>
     (case verify_token (app_jwt_codec app) (app_jwt_service app) now token of
        None \<Rightarrow> Inl (OrbiError ''invalid_worker_token'' ''Worker token is invalid or expired.'' 401)
      | Some claims \<Rightarrow>
     (case parse_uuid (cl_sub claims) of
        Inl e \<Rightarrow> Inl (OrbiError ''invalid_worker_token'' ''Worker token is invalid or expired.'' 401)
      | Inr worker_id \<Rightarrow>
          bind_result (scalar_one_or_none (filter (\<lambda>w. wk_id w = worker_id) (workers s)))
            (check_worker claims))))"

definition require_worker_scope :: "string \<Rightarrow> jwt_claims \<Rightarrow> unit result" where
  "require_worker_scope required_scope claims =
     (if (case cl_scope claims of JArr scopes \<Rightarrow> JStr required_scope \<notin> set scopes | _ \<Rightarrow> True)
      then Inl (OrbiError ''insufficient_worker_scope'' ''Worker token lacks scope.'' 403)
      else Inr ())"

definition with_worker ::
  "'s app_state \<Rightarrow> instant \<Rightarrow> string option \<Rightarrow> string \<Rightarrow> (worker \<Rightarrow> db \<Rightarrow> ('a \<times> db) result) \<Rightarrow>
     db \<Rightarrow> 'a result \<times> db" where
  "with_worker app now authorization scope handler s =
     session_scope (\<lambda>s.
       bind_result (require_worker app now authorization s) (\<lambda>(worker, claims).
       bind_result (require_worker_scope scope claims) (\<lambda>_. handler worker s))) s"

section \<open>What authentication establishes\<close>

lemma select_key_Some:
  assumes "select_key key_id s = Inr (Some k)"
  shows "k \<in> set (api_keys s)" and "ak_key_id k = key_id"
    and "\<exists>p\<in>set (projects s). pj_id p = ak_project_id k \<and> pj_is_active p"
proof -
  let ?rows = "[k. k \<leftarrow> api_keys s, p \<leftarrow> projects s,
      pj_id p = ak_project_id k \<and> ak_key_id k = key_id \<and> pj_is_active p]"
  from assms have "?rows = [k]" by (simp only: select_key_def scalar_one_or_none_eq_Some)
  then have "k \<in> set ?rows" by simp
  then show "k \<in> set (api_keys s)" "ak_key_id k = key_id"
    "\<exists>p\<in>set (projects s). pj_id p = ak_project_id k \<and> pj_is_active p" by (auto split: if_splits)
qed

lemma check_key_Inr:
  "check_key svc now e secret found = Inr k \<longleftrightarrow>
     found = Some k \<and> ak_environment k = e \<and> verify_secret svc secret (ak_secret_hash k) = Inr True
     \<and> is_record_active now (ak_expires_at k) (ak_revoked_at k)"
  by (auto simp: check_key_def result_simps split: option.splits if_splits)

text \<open>A day's worth of a key's counter, before the call adds to it.\<close>

definition requests_today :: "instant \<Rightarrow> api_key \<Rightarrow> int" where
  "requests_today now k =
     (if ak_daily_requests_date k = utc_date now then ak_daily_requests_used k else 0)"

definition counted :: "instant \<Rightarrow> api_key \<Rightarrow> api_key" where
  "counted now k = k\<lparr>ak_daily_requests_date := utc_date now,
     ak_daily_requests_used := requests_today now k + 1, ak_last_used_at := Some now\<rparr>"

lemma roll_day_fields [simp]:
  "ak_id (roll_day now k) = ak_id k" "ak_key_id (roll_day now k) = ak_key_id k"
  "ak_daily_req_limit (roll_day now k) = ak_daily_req_limit k" "ak_rpm_limit (roll_day now k) = ak_rpm_limit k"
  "ak_daily_requests_used (roll_day now k) = requests_today now k"
  by (auto simp: roll_day_def requests_today_def)

lemma counted_roll:
  "(roll_day now k)\<lparr>ak_daily_requests_used := requests_today now k + 1, ak_last_used_at := Some now\<rparr> =
     counted now k"
  by (cases k) (simp add: roll_day_def counted_def requests_today_def)

lemma require_api_key_Inr:
  "fst (require_api_key app t_active now t_rate authorization s redis) = Inr (k', s') \<longleftrightarrow>
     (\<exists>raw e key_id secret k. bearer_token authorization = Some raw
       \<and> parse_api_key raw = Some (e, key_id, secret)
       \<and> select_key key_id s = Inr (Some k) \<and> ak_environment k = e
       \<and> verify_secret (app_api_key_service app) secret (ak_secret_hash k) = Inr True
       \<and> is_record_active t_active (ak_expires_at k) (ak_revoked_at k)
       \<and> requests_today now k < ak_daily_req_limit k
       \<and> fst (allow_minute (app_rate_limiter app) key_id (ak_rpm_limit k) t_rate redis)
       \<and> k' = counted now k \<and> s' = replace_key k' s)"
  (is "?lhs \<longleftrightarrow> ?rhs")
proof -
  have "?lhs \<longleftrightarrow> (\<exists>raw e key_id secret k. bearer_token authorization = Some raw
       \<and> parse_api_key raw = Some (e, key_id, secret)
       \<and> bind_result (select_key key_id s) (check_key (app_api_key_service app) t_active e secret) = Inr k
       \<and> requests_today now k < ak_daily_req_limit k
       \<and> fst (allow_minute (app_rate_limiter app) (ak_key_id k) (ak_rpm_limit k) t_rate redis)
       \<and> k' = counted now k \<and> s' = replace_key k' s)"
    by (auto simp: require_api_key_def Let_def counted_roll not_le
        split: option.splits sum.splits prod.splits if_splits)
  also have "\<dots> \<longleftrightarrow> ?rhs"
    by (auto simp: result_simps check_key_Inr dest: select_key_Some(2))
  finally show ?thesis .
qed

lemma with_api_key_Inr:
  "with_api_key app clock authorization scope handler s redis = (Inr v, s', redis') \<longleftrightarrow>
     (\<exists>k s1. require_api_key app (fst clock) (fst (snd clock)) (snd (snd clock)) authorization s redis =
          (Inr (k, s1), redis')
        \<and> require_api_scope scope k = Inr k \<and> handler k s1 = Inr (v, s'))"
  by (auto simp: with_api_key_def session_scope_def Let_def result_simps require_api_scope_def
      split: prod.splits sum.splits if_splits)

lemma with_api_key_Inl:
  "with_api_key app clock authorization scope handler s redis = (Inl e, s', redis') \<Longrightarrow> s' = s"
  by (auto simp: with_api_key_def session_scope_def Let_def split: prod.splits sum.splits)

lemma check_worker_Inr:
  "check_worker claims found = Inr (w, claims') \<longleftrightarrow>
     found = Some w \<and> claims' = claims \<and> wk_revoked_at w = None \<and> wk_token_jti w = Some (cl_jti claims)"
  by (auto simp: check_worker_def split: option.splits)

lemma require_worker_Inr:
  "require_worker app now authorization s = Inr (w, claims) \<longleftrightarrow>
     (\<exists>token. bearer_token authorization = Some token
       \<and> verify_token (app_jwt_codec app) (app_jwt_service app) now token = Some claims
       \<and> parse_uuid (cl_sub claims) = Inr (wk_id w)
       \<and> filter (\<lambda>q. wk_id q = wk_id w) (workers s) = [w]
       \<and> wk_revoked_at w = None \<and> wk_token_jti w = Some (cl_jti claims))"
proof -
  have "require_worker app now authorization s = Inr (w, claims) \<longleftrightarrow>
     (\<exists>token i. bearer_token authorization = Some token
       \<and> verify_token (app_jwt_codec app) (app_jwt_service app) now token = Some claims
       \<and> parse_uuid (cl_sub claims) = Inr i
       \<and> filter (\<lambda>q. wk_id q = i) (workers s) = [w]
       \<and> wk_revoked_at w = None \<and> wk_token_jti w = Some (cl_jti claims))"
    by (auto simp: require_worker_def bind_result_eq_Inr check_worker_Inr scalar_one_or_none_eq_Some
        split: option.splits sum.splits)
  then show ?thesis by (auto dest: filter_eq_singletonD)
qed

lemma with_worker_Inr:
  "with_worker app now authorization scope handler s = (Inr v, s') \<longleftrightarrow>
     (\<exists>w claims. require_worker app now authorization s = Inr (w, claims)
        \<and> require_worker_scope scope claims = Inr () \<and> handler w s = Inr (v, s'))"
  by (auto simp: with_worker_def session_scope_def result_simps split: sum.splits)

lemma with_worker_Inl: "with_worker app now authorization scope handler s = (Inl e, s') \<Longrightarrow> s' = s"
  by (auto simp: with_worker_def session_scope_def split: sum.splits prod.splits)

lemma with_admin_Inr:
  "with_admin app authorization handler s = (Inr v, s') \<longleftrightarrow>
     require_admin app authorization = Inr () \<and> handler s = Inr (v, s')"
  by (auto simp: with_admin_def session_scope_def result_simps split: sum.splits prod.splits)

lemma with_admin_Inl: "with_admin app authorization handler s = (Inl e, s') \<Longrightarrow> s' = s"
  by (auto simp: with_admin_def session_scope_def split: sum.splits prod.splits)

section \<open>Consistent tables\<close>

lemma counted_fields [simp]:
  "ak_id (counted now k) = ak_id k" "ak_key_id (counted now k) = ak_key_id k"
  "ak_project_id (counted now k) = ak_project_id k"
  by (simp_all add: counted_def)

lemma counted_mem: "k \<in> set (api_keys s) \<Longrightarrow> counted now k \<in> set (api_keys (replace_key (counted now k) s))"
  by (force simp: replace_key_def set_update_where)

lemma keys_ok_counted:
  assumes "keys_ok s" and "k \<in> set (api_keys s)"
  shows "keys_ok (replace_key (counted now k) s)"
proof -
  let ?keys = "update_where (\<lambda>q. ak_id q = ak_id k) (\<lambda>_. counted now k) (api_keys s)"
  have same: "ak_id q = ak_id k \<Longrightarrow> q = k" if "q \<in> set (api_keys s)" for q
    using assms that by (auto simp: keys_ok_def dest: distinct_key_eq)
  have eq: "?keys = map (\<lambda>q. if q = k then counted now k else q) (api_keys s)"
    unfolding update_where_def using same by auto
  then have "map ak_id ?keys = map ak_id (api_keys s)" "map ak_key_id ?keys = map ak_key_id (api_keys s)"
    "map ak_project_id ?keys = map ak_project_id (api_keys s)"
    by auto
  moreover have "\<forall>q\<in>set ?keys. ak_project_id q \<in> pj_id ` set (projects s)"
    using assms unfolding eq keys_ok_def by auto
  ultimately show ?thesis
    using assms(1) by (simp add: keys_ok_def replace_key_def)
qed

lemma select_key_total:
  assumes ok: "keys_ok s"
  shows "\<exists>v. select_key key_id s = Inr v"
proof -
  define joined where "joined k = [k. p \<leftarrow> projects s,
      pj_id p = ak_project_id k \<and> ak_key_id k = key_id \<and> pj_is_active p]" for k :: api_key
  have none: "joined k = []" if "ak_key_id k \<noteq> key_id" for k
    using that by (simp add: joined_def)
  have count: "length [k. p \<leftarrow> ps, pj_id p = ak_project_id k \<and> ak_key_id k = key_id \<and> pj_is_active p] =
      length (filter (\<lambda>p. pj_id p = ak_project_id k \<and> ak_key_id k = key_id \<and> pj_is_active p) ps)"
    for k :: api_key and ps :: "project list"
    by (induction ps) auto
  have one: "length (joined k) \<le> 1" for k
    unfolding joined_def count using ok by (intro length_filter_key) (simp add: keys_ok_def)
  have "length (concat (map joined ks)) \<le> 1" if "distinct (map ak_key_id ks)" for ks
    using that
  proof (induction ks)
    case Nil
    then show ?case by simp
  next
    case (Cons k ks)
    show ?case
    proof (cases "ak_key_id k = key_id")
      case True
      with Cons.prems have "\<forall>q\<in>set ks. ak_key_id q \<noteq> key_id"
        by (metis distinct.simps(2) imageI list.map(2) list.set_map)
      then have rest: "concat (map joined ks) = []" using none by simp
      show ?thesis unfolding list.map concat.simps rest append_Nil2 by (rule one)
    next
      case False
      with none [OF False] Cons show ?thesis by simp
    qed
  qed
  then have "length (concat (map joined (api_keys s))) \<le> 1" using ok by (simp add: keys_ok_def)
  then show ?thesis
    unfolding select_key_def joined_def by (rule scalar_one_or_none_total)
qed

definition auth_errors :: "(string \<times> nat) list" where
  "auth_errors =
     [(''invalid_api_key'', 401), (''daily_request_limit_exceeded'', 429), (''rate_limit_exceeded'', 429)]"

text \<open>The header names a stored key of its environment, and verifying the secret against the stored hash raises
  another error than the two that are caught: argon2 could not verify it.\<close>

definition hash_fails :: "'s app_state \<Rightarrow> string option \<Rightarrow> db \<Rightarrow> bool" where
  "hash_fails app authorization s \<longleftrightarrow>
     (case bearer_token authorization of None \<Rightarrow> False | Some raw \<Rightarrow>
      case parse_api_key raw of None \<Rightarrow> False | Some (environment, key_id, secret) \<Rightarrow>
      case select_key key_id s of Inr (Some k) \<Rightarrow>
          ak_environment k = environment
          \<and> ph_verify (aks_hasher (app_api_key_service app)) (ak_secret_hash k)
              (peppered (aks_pepper (app_api_key_service app)) secret) = OtherVerificationError
      | _ \<Rightarrow> False)"

lemma check_key_error:
  assumes "check_key svc t environment secret found = Inl x"
  shows "x = (if \<exists>k. found = Some k \<and> ak_environment k = environment
       \<and> ph_verify (aks_hasher svc) (ak_secret_hash k) (peppered (aks_pepper svc) secret) = OtherVerificationError
     then VerificationError else invalid_api_key)"
proof (cases found)
  case None
  with assms show ?thesis by (simp add: check_key_def)
next
  case (Some k)
  with assms show ?thesis
    by (cases "ph_verify (aks_hasher svc) (ak_secret_hash k) (peppered (aks_pepper svc) secret)")
      (auto simp: check_key_def verify_secret_def verify_guarded_def split: if_splits)
qed

lemma lookup_error:
  assumes "bind_result (select_key key_id s) (check_key (app_api_key_service app) t environment secret) = Inl x"
    and "keys_ok s" and "bearer_token authorization = Some raw" and "parse_api_key raw = Some (environment, key_id, secret)"
  shows "x = (if hash_fails app authorization s then VerificationError else invalid_api_key)"
proof -
  obtain found where found: "select_key key_id s = Inr found" using select_key_total [OF assms(2)] by blast
  with assms(1) have "check_key (app_api_key_service app) t environment secret found = Inl x" by simp
  from check_key_error [OF this] show ?thesis
    using found assms(3,4) by (cases found) (auto simp: hash_fails_def)
qed

lemma lookup_fails:
  assumes "hash_fails app authorization s" and "bearer_token authorization = Some raw"
    and "parse_api_key raw = Some (environment, key_id, secret)"
  shows "bind_result (select_key key_id s) (check_key (app_api_key_service app) t environment secret) = Inl VerificationError"
  using assms by (auto simp: hash_fails_def check_key_def verify_secret_def verify_guarded_def split: sum.splits option.splits)

lemma require_api_key_fails:
  assumes "hash_fails app authorization s"
  shows "require_api_key app t_active now t_rate authorization s redis = (Inl VerificationError, redis)"
proof -
  from assms obtain raw env key_id secret where parsed: "bearer_token authorization = Some raw"
    "parse_api_key raw = Some (env, key_id, secret)" by (auto simp: hash_fails_def split: option.splits)
  with lookup_fails [OF assms parsed] show ?thesis by (simp add: require_api_key_def)
qed

lemma require_api_key_errors:
  assumes "fst (require_api_key app t_active now t_rate authorization s redis) = Inl e"
    and ok: "keys_ok s" and readable: "\<not> hash_fails app authorization s"
  shows "\<exists>code m st. e = OrbiError code m st \<and> (code, st) \<in> set auth_errors"
proof (cases "\<exists>raw parts. bearer_token authorization = Some raw \<and> parse_api_key raw = Some parts")
  case False
  then have "e = invalid_api_key"
    using assms(1) by (auto simp: require_api_key_def split: option.splits)
  then show ?thesis by (simp add: invalid_api_key_def auth_errors_def)
next
  case True
  then obtain raw env key_id secret where parsed: "bearer_token authorization = Some raw"
    "parse_api_key raw = Some (env, key_id, secret)" by auto
  show ?thesis
  proof (cases "bind_result (select_key key_id s) (check_key (app_api_key_service app) t_active env secret)")
    case (Inl x)
    with assms(1) parsed lookup_error [OF Inl ok parsed] readable have "e = invalid_api_key"
      by (simp add: require_api_key_def)
    then show ?thesis by (simp add: invalid_api_key_def auth_errors_def)
  next
    case (Inr found)
    with assms(1) parsed show ?thesis
      by (cases "ak_daily_req_limit found \<le> requests_today now found";
          cases "allow_minute (app_rate_limiter app) (ak_key_id found) (ak_rpm_limit found) t_rate redis")
        (auto simp: require_api_key_def auth_errors_def Let_def split: if_splits)
  qed
qed

section \<open>A concrete application state\<close>

definition sample_jwt_service :: jwt_service where
  "sample_jwt_service = \<lparr>jw_private_key = ''k'', jw_public_key = ''p'', jw_issuer = ''orbi-core'',
     jw_audience = ''orbi-worker'', jw_ttl = 3600\<rparr>"

definition sample_codec :: jwt_codec where
  "sample_codec = one_token_codec (issued_claims sample_jwt_service 0 ''j'' (uuid_str 3))"

definition sample_app :: "jwt_codec \<Rightarrow> ((string \<Rightarrow> int) \<times> (string \<Rightarrow> bool)) app_state" where
  "sample_app codec =
     \<lparr>app_settings = default_settings [] [] [] [] ''admin-token:pepper'' ''pepper'' [] [],
      app_api_key_service = \<lparr>aks_pepper = ''pepper'', aks_hasher = plain_hasher\<rparr>,
      app_enrollment_service = \<lparr>ens_pepper = ''pepper'', ens_hasher = plain_hasher\<rparr>,
      app_jwt_service = sample_jwt_service, app_jwt_codec = codec,
      app_rate_limiter = map_counters, app_budget_service = budget_service_impl,
      app_admin_verifier = verify_admin plain_hasher
        (default_settings [] [] [] [] ''admin-token:pepper'' ''pepper'' [] [])\<rparr>"

definition sample_redis :: "(string \<Rightarrow> int) \<times> (string \<Rightarrow> bool)" where
  "sample_redis = (\<lambda>_. 0, \<lambda>_. False)"

text \<open>The bearer header of a token without white space.\<close>

lemma bearer_token_header:
  "\<forall>c\<in>set token. \<not> is_space c \<Longrightarrow> bearer_token (Some (''Bearer '' @ token)) = Some token"
  by (simp only: bearer_token_def option.case starts_with_append remove_prefix_append strip_no_space
      not_True_eq_False if_False)

end
