(* ===== verification/Errors.thy ===== *)
theory Errors
  imports Encoding Entities
begin

text \<open>
  \<open>errors.py\<close>: how exceptions become responses. A response is its status and its JSON content. An
  item of \<open>RequestValidationError.errors()\<close> is the dictionary that pydantic builds; the handler
  reads three of its entries, which may be missing, and must not show the others: the submitted
  \<open>input\<close> and the context. The form of the content is that of \<open>ErrorResponse\<close> in \<open>schemas/api.py\<close>.
  The handlers are those that the module registers; FastAPI's own answers to an unknown path, a wrong
  method or a body that is no JSON come from its handler of \<open>HTTPException\<close> and have another form.
\<close>

record http_response =
  hr_status :: nat
  hr_content :: json

definition error_body :: "string \<Rightarrow> string \<Rightarrow> (string \<times> json) list \<Rightarrow> json" where
  "error_body code message extra =
     JObj [(''error'', JObj ([(''code'', JStr code), (''message'', JStr message)] @ extra))]"

definition orbi_error_handler :: "string \<Rightarrow> string \<Rightarrow> nat \<Rightarrow> http_response" where
  "orbi_error_handler code message status_code =
     \<lparr>hr_status = status_code, hr_content = error_body code message []\<rparr>"

datatype location_part = LocName string | LocIndex int

fun location_str :: "location_part \<Rightarrow> string" where
  "location_str (LocName s) = s"
| "location_str (LocIndex i) = show_int i"

record validation_error =
  ve_loc :: "location_part list option"
  ve_msg :: "string option"
  ve_type :: "string option"
  ve_input :: json
  ve_ctx :: json

definition error_detail_of :: "validation_error \<Rightarrow> json" where
  "error_detail_of e = JObj
     [(''location'', JArr (map (\<lambda>p. JStr (location_str p)) (case ve_loc e of None \<Rightarrow> [] | Some l \<Rightarrow> l))),
      (''message'', JStr (case ve_msg e of None \<Rightarrow> ''Invalid request value.'' | Some m \<Rightarrow> m)),
      (''type'', JStr (case ve_type e of None \<Rightarrow> ''validation_error'' | Some t \<Rightarrow> t))]"

definition validation_error_handler :: "validation_error list \<Rightarrow> http_response" where
  "validation_error_handler errors =
     \<lparr>hr_status = 422,
      hr_content = error_body ''request_validation_failed'' ''Request validation failed.''
        [(''details'', JArr (map error_detail_of errors))]\<rparr>"

text \<open>\<open>type(exc).__name__\<close>.\<close>

fun exception_name :: "exn \<Rightarrow> string" where
  "exception_name (OrbiError code message status) = ''OrbiError''"
| "exception_name (ValueError message) = ''ValueError''"
| "exception_name (BudgetExceededError message) = ''BudgetExceededError''"
| "exception_name KeyError = ''KeyError''"
| "exception_name VerificationError = ''VerificationError''"
| "exception_name NoResultFound = ''NoResultFound''"
| "exception_name MultipleResultsFound = ''MultipleResultsFound''"
| "exception_name IntegrityError = ''IntegrityError''"
| "exception_name DataError = ''DBAPIError''"
| "exception_name RequestBodyTooLarge = ''RequestBodyTooLarge''"

text \<open>The handler logs one event, whose only field is the class name, and answers.\<close>

definition unexpected_error_handler :: "exn \<Rightarrow> (string \<times> string) \<times> http_response" where
  "unexpected_error_handler e =
     ((''unhandled_exception'', exception_name e),
      \<lparr>hr_status = 500,
       hr_content = error_body ''internal_error'' ''The request could not be completed.'' []\<rparr>)"

text \<open>
  \<open>ErrorBody\<close> and \<open>ErrorResponse\<close> of \<open>schemas/api.py\<close>: what a client may expect of the content of an error.
  Fields that a schema does not name are ignored.
\<close>

fun is_json_string :: "json \<Rightarrow> bool" where
  "is_json_string (JStr s) = True"
| "is_json_string (JText s) = True"
| "is_json_string j = False"

fun json_field :: "string \<Rightarrow> json \<Rightarrow> json option" where
  "json_field name (JObj members) = map_of members name"
| "json_field name j = None"

definition valid_error_body :: "json \<Rightarrow> bool" where
  "valid_error_body j \<longleftrightarrow>
     (case (json_field ''code'' j, json_field ''message'' j) of
        (Some code, Some message) \<Rightarrow> is_json_string code \<and> is_json_string message
      | _ \<Rightarrow> False)"

definition valid_error_response :: "json \<Rightarrow> bool" where
  "valid_error_response j \<longleftrightarrow> (case json_field ''error'' j of None \<Rightarrow> False | Some b \<Rightarrow> valid_error_body b)"

lemma valid_error_response_body [simp]: "valid_error_response (error_body code message extra)"
  by (simp add: valid_error_response_def valid_error_body_def error_body_def)

text \<open>The registration of the handlers in \<open>create_app\<close>: the most specific class decides.\<close>

definition handle_exception :: "exn \<Rightarrow> (string \<times> string) option \<times> http_response" where
  "handle_exception e =
     (case e of
        OrbiError code message status \<Rightarrow> (None, orbi_error_handler code message status)
      | _ \<Rightarrow> (Some (fst (unexpected_error_handler e)), snd (unexpected_error_handler e)))"

lemma handle_exception_other:
  assumes "\<And>c m st. e \<noteq> OrbiError c m st"
  shows "handle_exception e = (Some (''unhandled_exception'', exception_name e),
    \<lparr>hr_status = 500, hr_content = error_body ''internal_error'' ''The request could not be completed.'' []\<rparr>)"
  using assms by (cases e) (auto simp: handle_exception_def unexpected_error_handler_def simp del: exception_name.simps)

lemma handle_exception_valid: "valid_error_response (hr_content (snd (handle_exception e)))"
  by (cases e) (simp_all add: handle_exception_def orbi_error_handler_def unexpected_error_handler_def)

section \<open>Properties\<close>

text \<open>C38. The responses of the gateway's handlers reveal neither input nor internals. A validation response is determined by the
  locations, messages and types of the errors: two lists of errors that differ in the submitted
  input and context only get the same response. All exceptions but the application's own get one
  and the same answer, and what is logged of them is the name of their class. Every answer of these handlers has the
  form that the schema \<open>ErrorResponse\<close> publishes.\<close>

theorem error_responses_hide_input:
  assumes "map (\<lambda>e. (ve_loc e, ve_msg e, ve_type e)) errors = map (\<lambda>e. (ve_loc e, ve_msg e, ve_type e)) errors'"
    and "\<And>c m st. e \<noteq> OrbiError c m st" and "\<And>c m st. e' \<noteq> OrbiError c m st"
  shows "validation_error_handler errors = validation_error_handler errors'
    \<and> snd (handle_exception e) = snd (handle_exception e')
    \<and> fst (handle_exception e) = Some (''unhandled_exception'', exception_name e)
    \<and> hr_status (snd (handle_exception e)) = 500
    \<and> valid_error_response (hr_content (validation_error_handler errors))
    \<and> valid_error_response (hr_content (snd (handle_exception e0)))"
proof -
  have "map error_detail_of errors = map error_detail_of errors'"
    by (rule map_determined [OF assms(1)]) (simp add: error_detail_of_def)
  then show ?thesis
    using handle_exception_other [OF assms(2)] handle_exception_other [OF assms(3)]
    by (simp add: validation_error_handler_def handle_exception_valid)
qed

theorem error_responses_hide_input_witness:
  "validation_error_handler [\<lparr>ve_loc = Some [LocName ''body'', LocIndex 0], ve_msg = None, ve_type = None,
       ve_input = JStr ''secret'', ve_ctx = JNull\<rparr>] =
     validation_error_handler [\<lparr>ve_loc = Some [LocName ''body'', LocIndex 0], ve_msg = None, ve_type = None,
       ve_input = JNull, ve_ctx = JNull\<rparr>]
   \<and> snd (handle_exception (ValueError ''secret'')) = snd (handle_exception DataError)"
  using error_responses_hide_input [of
      "[\<lparr>ve_loc = Some [LocName ''body'', LocIndex 0], ve_msg = None, ve_type = None, ve_input = JStr ''secret'', ve_ctx = JNull\<rparr>]"
      "[\<lparr>ve_loc = Some [LocName ''body'', LocIndex 0], ve_msg = None, ve_type = None, ve_input = JNull, ve_ctx = JNull\<rparr>]"
      "ValueError ''secret''" DataError] by simp

end
