(* ===== verification/Middleware.thy ===== *)
theory Middleware
  imports Errors "HOL-Library.AList"
begin

text \<open>
  \<open>middleware.py\<close>. An ASGI application is the tree of its interactions: it awaits \<open>receive\<close>, which
  gives a message or raises, sends a message, returns or raises. The application behind the
  middleware is a parameter, and so are the bytes and the headers that Starlette's
  \<open>JSONResponse\<close> makes of a content.
\<close>

type_synonym header = "string \<times> string"

datatype message =
    HttpRequest "string option"
  | HttpDisconnect
  | ResponseStart nat "header list option"
  | ResponseBody string
  | OtherMessage string

datatype asgi =
    Receive "message result \<Rightarrow> asgi"
  | Send message asgi
  | Return
  | Raise exn

record scope =
  sc_type :: "string option"
  sc_headers :: "header list option"
  sc_state :: "(string \<times> string) list option"

record json_renderer =
  jr_body :: "json \<Rightarrow> string"
  jr_headers :: "string \<Rightarrow> header list"

definition security_middleware_init :: "int \<Rightarrow> int result" where
  "security_middleware_init max_body_bytes =
     (if max_body_bytes < 1024 then Inl (ValueError ''max_body_bytes must be at least 1024'')
      else Inr max_body_bytes)"

text \<open>\<open>int\<close> of a byte string skips ASCII white space around the number.\<close>

definition ascii_space :: "char \<Rightarrow> bool" where
  "ascii_space c \<longleftrightarrow> (let n = (of_char c :: nat) in (9 \<le> n \<and> n \<le> 13) \<or> n = 32)"

definition int_of_bytes :: "string \<Rightarrow> int option" where
  "int_of_bytes s = parse_int (rev (dropWhile ascii_space (rev (dropWhile ascii_space s))))"

text \<open>In \<open>dict(headers)\<close> the last of equal names wins.\<close>

definition header_value :: "scope \<Rightarrow> string \<Rightarrow> string option" where
  "header_value sc name = map_of (rev (case sc_headers sc of None \<Rightarrow> [] | Some hs \<Rightarrow> hs)) name"

definition reject :: "json_renderer \<Rightarrow> string \<Rightarrow> asgi" where
  "reject renderer code =
     (let body = jr_body renderer (error_body code ''Request body is invalid or exceeds the configured limit.'' [])
      in Send (ResponseStart (if code = ''request_body_too_large'' then 413 else 400)
             (Some ([(''cache-control'', ''no-store''), (''x-content-type-options'', ''nosniff'')]
                @ jr_headers renderer body)))
           (Send (ResponseBody body) Return))"

text \<open>\<open>limited_receive\<close>: the new count and what the application gets for a message.\<close>

fun limited_receive :: "int \<Rightarrow> int \<Rightarrow> message \<Rightarrow> int \<times> message result" where
  "limited_receive max_body_bytes consumed (HttpRequest body) =
     (let consumed' = consumed + int (length (case body of None \<Rightarrow> [] | Some b \<Rightarrow> b))
      in if consumed' > max_body_bytes then (consumed', Inl RequestBodyTooLarge)
         else (consumed', Inr (HttpRequest body)))"
| "limited_receive max_body_bytes consumed m = (consumed, Inr m)"

fun is_start :: "message \<Rightarrow> bool" where
  "is_start (ResponseStart status hs) = True"
| "is_start m = False"

definition security_headers :: "string \<Rightarrow> header list" where
  "security_headers request_id =
     [(''x-content-type-options'', ''nosniff''), (''cache-control'', ''no-store''),
      (''x-orbi-request-id'', request_id)]"

fun secure_send :: "string \<Rightarrow> message \<Rightarrow> message" where
  "secure_send request_id (ResponseStart status hs) =
     ResponseStart status (Some ((case hs of None \<Rightarrow> [] | Some l \<Rightarrow> l) @ security_headers request_id))"
| "secure_send request_id m = m"

text \<open>The \<open>try\<close> block around the application, with the two closures and what they share.\<close>

primrec guarded :: "json_renderer \<Rightarrow> int \<Rightarrow> string \<Rightarrow> asgi \<Rightarrow> int \<Rightarrow> bool \<Rightarrow> asgi" where
  "guarded renderer max_body_bytes request_id (Receive k) = (\<lambda>consumed started.
     Receive (\<lambda>r. case r of
         Inl e \<Rightarrow> guarded renderer max_body_bytes request_id (k (Inl e)) consumed started
       | Inr m \<Rightarrow>
           guarded renderer max_body_bytes request_id
             (k (snd (limited_receive max_body_bytes consumed m)))
             (fst (limited_receive max_body_bytes consumed m)) started))"
| "guarded renderer max_body_bytes request_id (Send m a) = (\<lambda>consumed started.
     Send (secure_send request_id m)
       (guarded renderer max_body_bytes request_id a consumed (started \<or> is_start m)))"
| "guarded renderer max_body_bytes request_id Return = (\<lambda>consumed started. Return)"
| "guarded renderer max_body_bytes request_id (Raise e) = (\<lambda>consumed started.
     if e = RequestBodyTooLarge \<and> \<not> started then reject renderer ''request_body_too_large'' else Raise e)"

definition with_request_id :: "string \<Rightarrow> scope \<Rightarrow> scope" where
  "with_request_id request_id sc =
     sc\<lparr>sc_state := Some (AList.update ''request_id'' request_id
          (case sc_state sc of None \<Rightarrow> [] | Some st \<Rightarrow> st))\<rparr>"

definition middleware :: "json_renderer \<Rightarrow> int \<Rightarrow> (scope \<Rightarrow> asgi) \<Rightarrow> string \<Rightarrow> scope \<Rightarrow> asgi" where
  "middleware renderer max_body_bytes app request_id sc =
     (if sc_type sc \<noteq> Some ''http'' then app sc
      else
        let admitted = guarded renderer max_body_bytes request_id (app (with_request_id request_id sc)) 0 False
        in case header_value sc ''content-length'' of
             None \<Rightarrow> admitted
           | Some content_length \<Rightarrow>
               (case int_of_bytes content_length of
                  None \<Rightarrow> reject renderer ''invalid_content_length''
                | Some n \<Rightarrow>
                    if n > max_body_bytes then reject renderer ''request_body_too_large'' else admitted))"

section \<open>Running an application\<close>

text \<open>
  The server delivers a list of messages, one for each \<open>receive\<close>; an application that waits for
  more than there are is left waiting. \<open>run\<close> gives what is sent and how it ends.
\<close>

datatype ending = Returned | Raised exn | Waits

primrec run :: "asgi \<Rightarrow> message list \<Rightarrow> message list \<times> ending" where
  "run (Receive k) = (\<lambda>inputs. case inputs of [] \<Rightarrow> ([], Waits) | m # ms \<Rightarrow> run (k (Inr m)) ms)"
| "run (Send m a) = (\<lambda>inputs. let (sent, e) = run a inputs in (m # sent, e))"
| "run Return = (\<lambda>inputs. ([], Returned))"
| "run (Raise e) = (\<lambda>inputs. ([], Raised e))"

text \<open>What the application behind the middleware is given.\<close>

primrec given :: "int \<Rightarrow> asgi \<Rightarrow> int \<Rightarrow> message list \<Rightarrow> message result list" where
  "given max_body_bytes (Receive k) = (\<lambda>consumed inputs. case inputs of [] \<Rightarrow> []
     | m # ms \<Rightarrow> snd (limited_receive max_body_bytes consumed m)
         # given max_body_bytes (k (snd (limited_receive max_body_bytes consumed m)))
             (fst (limited_receive max_body_bytes consumed m)) ms)"
| "given max_body_bytes (Send m a) = given max_body_bytes a"
| "given max_body_bytes Return = (\<lambda>consumed inputs. [])"
| "given max_body_bytes (Raise e) = (\<lambda>consumed inputs. [])"

fun body_size :: "message \<Rightarrow> int" where
  "body_size (HttpRequest (Some b)) = int (length b)"
| "body_size m = 0"

definition delivered :: "message result list \<Rightarrow> int" where
  "delivered rs = sum_list (map (\<lambda>r. case r of Inl e \<Rightarrow> 0 | Inr m \<Rightarrow> body_size m) rs)"

text \<open>An application run on the results of its receives.\<close>

primrec run_on :: "asgi \<Rightarrow> message result list \<Rightarrow> message list \<times> ending" where
  "run_on (Receive k) = (\<lambda>rs. case rs of [] \<Rightarrow> ([], Waits) | r # rs' \<Rightarrow> run_on (k r) rs')"
| "run_on (Send m a) = (\<lambda>rs. let (sent, e) = run_on a rs in (m # sent, e))"
| "run_on Return = (\<lambda>rs. ([], Returned))"
| "run_on (Raise e) = (\<lambda>rs. ([], Raised e))"

definition reject_messages :: "json_renderer \<Rightarrow> string \<Rightarrow> message list" where
  "reject_messages renderer code = fst (run (reject renderer code) [])"

lemma run_reject: "run (reject renderer code) inputs = (reject_messages renderer code, Returned)"
  by (simp add: reject_messages_def reject_def Let_def)

lemma limited_receive_Inr:
  "limited_receive mx c m = (c', Inr m') \<Longrightarrow> m' = m \<and> c' = c + body_size m \<and> (body_size m \<noteq> 0 \<longrightarrow> c' \<le> mx)"
  by (cases "(mx, c, m)" rule: limited_receive.cases) (auto simp: Let_def split: option.splits if_splits)

lemma limited_receive_Inl:
  "limited_receive mx c m = (c', Inl e) \<Longrightarrow> e = RequestBodyTooLarge \<and> mx < c' \<and> c' = c + body_size m"
  by (cases "(mx, c, m)" rule: limited_receive.cases) (auto simp: Let_def split: option.splits if_splits)

lemma body_size_nonneg: "0 \<le> body_size m"
  by (cases m rule: body_size.cases) simp_all

lemma limited_receive_small: "c + body_size m \<le> mx \<Longrightarrow> limited_receive mx c m = (c + body_size m, Inr m)"
  by (cases "(mx, c, m)" rule: limited_receive.cases) (auto simp: Let_def split: option.splits)

lemma delivered_simps [simp]:
  "delivered [] = 0" "delivered (Inl e # rs) = delivered rs" "delivered (Inr m # rs) = body_size m + delivered rs"
  by (simp_all add: delivered_def)

lemma delivered_bound: "delivered (given mx a c inputs) \<le> max 0 (mx - c)"
proof (induction a arbitrary: c inputs)
  case (Receive k)
  show ?case
  proof (cases inputs)
    case Nil
    then show ?thesis by simp
  next
    case (Cons m ms)
    obtain c' r where lr: "limited_receive mx c m = (c', r)" by fastforce
    have IH: "delivered (given mx (k r) c' ms) \<le> max 0 (mx - c')" by (rule Receive) simp
    show ?thesis
    proof (cases r)
      case (Inl e)
      with lr limited_receive_Inl [of mx c m c' e] IH Cons show ?thesis
        using body_size_nonneg [of m] by simp
    next
      case (Inr m')
      with lr limited_receive_Inr [of mx c m c' m'] IH Cons show ?thesis
        using body_size_nonneg [of m] by (cases "body_size m = 0") auto
    qed
  qed
qed auto

lemma given_small:
  assumes "c + sum_list (map body_size inputs) \<le> mx"
  shows "run_on a (given mx a c inputs) = run a inputs"
  using assms
proof (induction a arbitrary: c inputs)
  case (Receive k)
  show ?case
  proof (cases inputs)
    case Nil
    then show ?thesis by simp
  next
    case (Cons m ms)
    have "0 \<le> sum_list (map body_size ms)" by (rule sum_list_nonneg) (auto simp: body_size_nonneg)
    with Receive.prems Cons have "limited_receive mx c m = (c + body_size m, Inr m)"
      by (intro limited_receive_small) simp
    moreover have "run_on (k (Inr m)) (given mx (k (Inr m)) (c + body_size m) ms) = run (k (Inr m)) ms"
      using Receive.prems Cons by (intro Receive.IH) auto
    ultimately show ?thesis using Cons by simp
  qed
qed auto

text \<open>The middleware around a run.\<close>

definition secured ::
  "json_renderer \<Rightarrow> string \<Rightarrow> bool \<Rightarrow> message list \<times> ending \<Rightarrow> message list \<times> ending" where
  "secured renderer request_id started result =
     (case result of (sent, e) \<Rightarrow>
        if e = Raised RequestBodyTooLarge \<and> \<not> started \<and> list_all (\<lambda>m. \<not> is_start m) sent
        then (map (secure_send request_id) sent @ reject_messages renderer ''request_body_too_large'', Returned)
        else (map (secure_send request_id) sent, e))"

lemma run_guarded:
  "run (guarded renderer mx rid a c started) inputs =
     secured renderer rid started (run_on a (given mx a c inputs))"
proof (induction a arbitrary: c started inputs)
  case (Receive k)
  then show ?case by (cases inputs) (simp_all add: secured_def)
next
  case (Send m a)
  then show ?case by (auto simp: secured_def Let_def split: prod.splits)
next
  case Return
  then show ?case by (simp add: secured_def)
next
  case (Raise e)
  then show ?case by (simp add: secured_def run_reject)
qed

text \<open>The two headers that every response of the gateway carries.\<close>

definition hardened :: "message \<Rightarrow> bool" where
  "hardened m = (case m of
       ResponseStart status (Some hs) \<Rightarrow>
         (''x-content-type-options'', ''nosniff'') \<in> set hs \<and> (''cache-control'', ''no-store'') \<in> set hs
     | ResponseStart status None \<Rightarrow> False
     | _ \<Rightarrow> True)"

lemma hardened_secure_send: "hardened (secure_send rid m)"
  by (cases m) (simp_all add: hardened_def security_headers_def)

lemma hardened_reject: "list_all hardened (reject_messages renderer code)"
  by (simp add: reject_messages_def reject_def Let_def hardened_def)

lemma hardened_secured: "list_all hardened (fst (secured renderer rid started result))"
  using hardened_secure_send hardened_reject
  by (auto simp: secured_def list_all_iff split: prod.splits)

lemma middleware_admits:
  assumes "sc_type sc = Some ''http''"
    and "\<And>v. header_value sc ''content-length'' = Some v \<Longrightarrow> \<exists>n. int_of_bytes v = Some n \<and> n \<le> mx"
  shows "run (middleware renderer mx app rid sc) inputs =
    secured renderer rid False (run_on (app (with_request_id rid sc)) (given mx (app (with_request_id rid sc)) 0 inputs))"
proof -
  have "middleware renderer mx app rid sc = guarded renderer mx rid (app (with_request_id rid sc)) 0 False"
  proof (cases "header_value sc ''content-length''")
    case None
    with assms(1) show ?thesis by (simp add: middleware_def)
  next
    case (Some v)
    with assms(2) [OF Some] assms(1) show ?thesis by (auto simp: middleware_def)
  qed
  then show ?thesis by (simp add: run_guarded)
qed

section \<open>Properties\<close>


text \<open>An application that reads one message of the body and answers it.\<close>

definition reading_app :: "scope \<Rightarrow> asgi" where
  "reading_app sc = Receive (\<lambda>r. case r of
       Inl e \<Rightarrow> Raise e
     | Inr m \<Rightarrow> Send (ResponseStart 200 None) (Send (ResponseBody ''ok'') Return))"

definition http_scope :: "header list \<Rightarrow> scope" where
  "http_scope hs = \<lparr>sc_type = Some ''http'', sc_headers = Some hs, sc_state = None\<rparr>"

definition empty_renderer :: json_renderer where
  "empty_renderer = \<lparr>jr_body = (\<lambda>j. ''{}''), jr_headers = (\<lambda>b. [])\<rparr>"


text \<open>C33. What the declared length decides. An HTTP request whose \<open>Content-Length\<close> is not a decimal integer is answered 400, one
  that declares more than the limit 413, without running the application at all. Every other HTTP request, with no declared length or one
  within the limit, is run by the application, with a request id in its scope, and if its body is within the limit too, the client
  gets exactly what the application sends, with the security headers added to the start of the response. Whatever the application
  does, every response to an HTTP request carries the two security headers. Other scopes go to the application as they are.\<close>

theorem declared_length_checked:
  shows "(\<forall>v. sc_type sc = Some ''http'' \<and> header_value sc ''content-length'' = Some v \<and> int_of_bytes v = None \<longrightarrow>
        run (middleware renderer mx app rid sc) inputs = (reject_messages renderer ''invalid_content_length'', Returned))
    \<and> (\<forall>v n. sc_type sc = Some ''http'' \<and> header_value sc ''content-length'' = Some v \<and> int_of_bytes v = Some n \<and> mx < n \<longrightarrow>
        run (middleware renderer mx app rid sc) inputs = (reject_messages renderer ''request_body_too_large'', Returned))
    \<and> (sc_type sc = Some ''http'' \<and> (header_value sc ''content-length'' = None
          \<or> (\<exists>v n. header_value sc ''content-length'' = Some v \<and> int_of_bytes v = Some n \<and> n \<le> mx)) \<longrightarrow>
        run (middleware renderer mx app rid sc) inputs = secured renderer rid False
          (run_on (app (with_request_id rid sc)) (given mx (app (with_request_id rid sc)) 0 inputs))
        \<and> (\<forall>sent. sum_list (map body_size inputs) \<le> mx \<and> run (app (with_request_id rid sc)) inputs = (sent, Returned) \<longrightarrow>
            run (middleware renderer mx app rid sc) inputs = (map (secure_send rid) sent, Returned)))
    \<and> (sc_type sc = Some ''http'' \<longrightarrow> list_all hardened (fst (run (middleware renderer mx app rid sc) inputs)))
    \<and> (sc_type sc \<noteq> Some ''http'' \<longrightarrow> run (middleware renderer mx app rid sc) inputs = run (app sc) inputs)
    \<and> (\<exists>hs body. reject_messages renderer ''invalid_content_length'' = [ResponseStart 400 hs, ResponseBody body])
    \<and> (\<exists>hs body. reject_messages renderer ''request_body_too_large'' = [ResponseStart 413 hs, ResponseBody body])"
proof -
  have "list_all hardened (fst (run (middleware renderer mx app rid sc) inputs))" if "sc_type sc = Some ''http''"
    using that hardened_secured hardened_reject
    by (auto simp: middleware_def Let_def run_reject run_guarded split: option.splits)
  moreover have admitted: "run (middleware renderer mx app rid sc) inputs = secured renderer rid False
      (run_on (app (with_request_id rid sc)) (given mx (app (with_request_id rid sc)) 0 inputs))"
    if "sc_type sc = Some ''http''" and "header_value sc ''content-length'' = None
          \<or> (\<exists>v n. header_value sc ''content-length'' = Some v \<and> int_of_bytes v = Some n \<and> n \<le> mx)"
    using that by (intro middleware_admits) auto
  moreover have "run (middleware renderer mx app rid sc) inputs = (map (secure_send rid) sent, Returned)"
    if "sc_type sc = Some ''http''" and "header_value sc ''content-length'' = None
          \<or> (\<exists>v n. header_value sc ''content-length'' = Some v \<and> int_of_bytes v = Some n \<and> n \<le> mx)"
      and "sum_list (map body_size inputs) \<le> mx" and "run (app (with_request_id rid sc)) inputs = (sent, Returned)" for sent
    using admitted [OF that(1,2)] given_small [of 0 inputs mx "app (with_request_id rid sc)"] that(3,4) by (simp add: secured_def)
  moreover have "\<exists>hs body. reject_messages renderer ''invalid_content_length'' = [ResponseStart 400 hs, ResponseBody body]"
    "\<exists>hs body. reject_messages renderer ''request_body_too_large'' = [ResponseStart 413 hs, ResponseBody body]"
    by (simp_all add: reject_messages_def reject_def Let_def)
  moreover have "run (middleware renderer mx app rid sc) inputs = run (app sc) inputs" if "sc_type sc \<noteq> Some ''http''"
    using that by (simp add: middleware_def)
  ultimately show ?thesis by (auto simp: middleware_def run_reject)
qed

theorem declared_length_checked_witness:
  "run (middleware empty_renderer 1024 reading_app ''r'' (http_scope [(''content-length'', ''9_x'')])) []
     = (reject_messages empty_renderer ''invalid_content_length'', Returned)
   \<and> run (middleware empty_renderer 1024 reading_app ''r'' (http_scope [(''content-length'', ''2048'')])) []
     = (reject_messages empty_renderer ''request_body_too_large'', Returned)
   \<and> run (middleware empty_renderer 1024 reading_app ''r'' (http_scope [(''content-length'', ''1'')])) [HttpRequest (Some ''s'')]
     = ([ResponseStart 200 (Some (security_headers ''r'')), ResponseBody ''ok''], Returned)"
proof -
  have lengths: "int_of_bytes ''9_x'' = None" "int_of_bytes ''2048'' = Some 2048" "int_of_bytes ''1'' = Some 1" by code_simp+
  have header: "header_value (http_scope [(''content-length'', v)]) ''content-length'' = Some v" for v
    by (simp add: http_scope_def header_value_def)
  have http: "sc_type (http_scope [(''content-length'', v)]) = Some ''http''" for v by (simp add: http_scope_def)
  note spec = declared_length_checked [where renderer = empty_renderer and mx = 1024 and app = reading_app and rid = "''r''"]
  have "run (middleware empty_renderer 1024 reading_app ''r'' (http_scope [(''content-length'', ''1'')])) [HttpRequest (Some ''s'')]
     = ([ResponseStart 200 (Some (security_headers ''r'')), ResponseBody ''ok''], Returned)"
    using spec [of "http_scope [(''content-length'', ''1'')]" "[HttpRequest (Some ''s'')]"]
    by (simp add: header http lengths reading_app_def secured_def)
  with spec [of "http_scope [(''content-length'', ''9_x'')]" "[]"] spec [of "http_scope [(''content-length'', ''2048'')]" "[]"]
  show ?thesis by (simp add: header http lengths)
qed

end
