(* ===== verification/CircuitBreaker.thy ===== *)
theory CircuitBreaker
  imports Prelude "HOL-Library.AList"
begin

text \<open>
  \<open>services/circuit_breaker.py\<close>. The service talks to any client of the protocol
  \<open>RedisHashClient\<close>, a record of four operations here. Redis is not part of the repository: the locale
  \<open>redis_hashes\<close> is what its documentation says of the four commands, time to live included, and a server with
  the documented behaviour is its interpretation. A command takes the time at which the server executes it; the commands of one
  call have one each, \<open>clock 0\<close>, \<open>clock 1\<close> and so on. A hash is an association list.
  The value of a field is the Python value whose \<open>str\<close> is stored: reading a field back with
  \<open>int\<close>, \<open>float\<close> or \<open>.decode()\<close> is the conversion below. The gateway's own \<open>time()\<close> is a rational number of
  seconds: the difference of two epoch times is exact in floating point.
\<close>

datatype circuit_state = CLOSED | OPEN | HALF_OPEN

datatype field_value = FStr string | FInt int | FFloat rat

type_synonym redis_hash = "(string \<times> field_value) list"

record 's redis_hash_client =
  rh_hgetall :: "rat \<Rightarrow> string \<Rightarrow> 's \<Rightarrow> redis_hash"
  rh_hset :: "rat \<Rightarrow> string \<Rightarrow> redis_hash \<Rightarrow> 's \<Rightarrow> 's"
  rh_expire :: "rat \<Rightarrow> string \<Rightarrow> int \<Rightarrow> 's \<Rightarrow> 's"
  rh_delete :: "rat \<Rightarrow> string \<Rightarrow> 's \<Rightarrow> 's"

record circuit_snapshot =
  cs_state :: circuit_state
  cs_failures :: int
  cs_opened_at :: "rat option"

record circuit_breaker =
  cb_threshold :: int
  cb_cooldown :: int

fun state_value :: "circuit_state \<Rightarrow> string" where
  "state_value CLOSED = ''CLOSED''"
| "state_value OPEN = ''OPEN''"
| "state_value HALF_OPEN = ''HALF_OPEN''"

text \<open>\<open>CircuitState(raw.decode())\<close>, \<open>int(raw)\<close> and \<open>float(raw)\<close>.\<close>

fun read_state :: "field_value \<Rightarrow> circuit_state result" where
  "read_state (FStr s) =
     (if s = ''CLOSED'' then Inr CLOSED else if s = ''OPEN'' then Inr OPEN
      else if s = ''HALF_OPEN'' then Inr HALF_OPEN else Inl (ValueError s))"
| "read_state v = Inl (ValueError [])"

fun read_int :: "field_value \<Rightarrow> int result" where
  "read_int (FInt n) = Inr n"
| "read_int v = Inl (ValueError [])"

fun read_float :: "field_value \<Rightarrow> rat result" where
  "read_float (FFloat x) = Inr x"
| "read_float (FInt n) = Inr (of_int n)"
| "read_float (FStr s) = Inl (ValueError s)"

definition circuit_key :: "string \<Rightarrow> string" where
  "circuit_key worker_id = ''orbi:circuit:'' @ worker_id"

definition closed_snapshot :: circuit_snapshot where
  "closed_snapshot = \<lparr>cs_state = CLOSED, cs_failures = 0, cs_opened_at = None\<rparr>"

definition circuit_get ::
  "'s redis_hash_client \<Rightarrow> circuit_breaker \<Rightarrow> (nat \<Rightarrow> rat) \<Rightarrow> rat \<Rightarrow> string \<Rightarrow> 's \<Rightarrow> (circuit_snapshot \<times> 's) result" where
  "circuit_get rh cb clock time worker_id s =
     (let key = circuit_key worker_id; raw = rh_hgetall rh (clock 0) key s
      in if raw = [] then Inr (closed_snapshot, s)
         else
           bind_result (case map_of raw ''state'' of None \<Rightarrow> Inl KeyError | Some v \<Rightarrow> read_state v) (\<lambda>state.
           bind_result (case map_of raw ''failures'' of None \<Rightarrow> Inr 0 | Some v \<Rightarrow> read_int v) (\<lambda>failures.
           bind_result (case map_of raw ''opened_at'' of None \<Rightarrow> Inr None
                        | Some v \<Rightarrow> bind_result (read_float v) (\<lambda>x. Inr (Some x))) (\<lambda>opened_at.
             if state = OPEN \<and> (case opened_at of None \<Rightarrow> False
                                  | Some x \<Rightarrow> time - x \<ge> of_int (cb_cooldown cb))
             then Inr (\<lparr>cs_state = HALF_OPEN, cs_failures = failures, cs_opened_at = opened_at\<rparr>,
                       rh_expire rh (clock 2) key (cb_cooldown cb * 3)
                         (rh_hset rh (clock 1) key [(''state'', FStr (state_value HALF_OPEN))] s))
             else Inr (\<lparr>cs_state = state, cs_failures = failures, cs_opened_at = opened_at\<rparr>, s)))))"

text \<open>\<open>record_failure\<close> reads the gateway's clock in \<open>get\<close> and, when the circuit opens, once more.\<close>

definition record_failure ::
  "'s redis_hash_client \<Rightarrow> circuit_breaker \<Rightarrow> (nat \<Rightarrow> rat) \<Rightarrow> rat \<Rightarrow> rat \<Rightarrow> string \<Rightarrow> 's \<Rightarrow>
     (circuit_snapshot \<times> 's) result" where
  "record_failure rh cb clock time time' worker_id s =
     bind_result (circuit_get rh cb clock time worker_id s) (\<lambda>(current, s1).
       let failures = cs_failures current + 1;
           state = (if failures \<ge> cb_threshold cb then OPEN else cs_state current);
           opened_at = (if state = OPEN then Some time' else cs_opened_at current);
           key = circuit_key worker_id;
           mapping = [(''state'', FStr (state_value state)), (''failures'', FInt failures)]
             @ (case opened_at of None \<Rightarrow> [] | Some x \<Rightarrow> [(''opened_at'', FFloat x)]);
           s2 = rh_expire rh (clock 4) key (cb_cooldown cb * 3) (rh_hset rh (clock 3) key mapping s1)
       in Inr (\<lparr>cs_state = state, cs_failures = failures, cs_opened_at = opened_at\<rparr>, s2))"

definition record_success ::
  "'s redis_hash_client \<Rightarrow> (nat \<Rightarrow> rat) \<Rightarrow> string \<Rightarrow> 's \<Rightarrow> circuit_snapshot \<times> 's" where
  "record_success rh clock worker_id s = (closed_snapshot, rh_delete rh (clock 0) (circuit_key worker_id) s)"

lemma read_state_value [simp]: "read_state (FStr (state_value c)) = Inr c"
  by (cases c) simp_all

declare read_state.simps [simp del]

section \<open>The interface\<close>

text \<open>A key is there until its time to live is over.\<close>

definition alive :: "rat \<Rightarrow> (redis_hash \<times> rat option) option \<Rightarrow> (redis_hash \<times> rat option) option" where
  "alive now stored = (case stored of
       Some (h, deadline) \<Rightarrow> if pred_option (\<lambda>d. now \<le> d) deadline then Some (h, deadline) else None
     | None \<Rightarrow> None)"

definition hash_of :: "(redis_hash \<times> rat option) option \<Rightarrow> redis_hash" where
  "hash_of stored = (case stored of None \<Rightarrow> [] | Some (h, deadline) \<Rightarrow> h)"

text \<open>
  \<open>entry k s\<close> is what the server has stored under a key, with its deadline. \<open>HSET\<close> on a key that is there adds to its hash and
  keeps its deadline, and creates a hash without one otherwise; \<open>EXPIRE\<close> gives a key that is there a deadline, and deletes
  it if the seconds are not positive; no command touches another key.
\<close>

locale redis_hashes =
  fixes rh :: "'s redis_hash_client" and entry :: "string \<Rightarrow> 's \<Rightarrow> (redis_hash \<times> rat option) option"
  assumes hgetall: "rh_hgetall rh now k s = hash_of (alive now (entry k s))"
    and hset: "m \<noteq> [] \<Longrightarrow> \<exists>h. entry k (rh_hset rh now k m s) = Some (h, Option.bind (alive now (entry k s)) snd)
       \<and> map_of h = map_of (hash_of (alive now (entry k s))) ++ map_of (rev m)"
    and expire: "entry k (rh_expire rh now k n s) = (case alive now (entry k s) of None \<Rightarrow> None
       | Some (h, _) \<Rightarrow> if n \<le> 0 then None else Some (h, Some (now + of_int n)))"
    and delete: "entry k (rh_delete rh now k s) = None"
    and others: "k' \<noteq> k \<Longrightarrow> entry k' (rh_hset rh now k m s) = entry k' s"
      "k' \<noteq> k \<Longrightarrow> entry k' (rh_expire rh now k n s) = entry k' s" "k' \<noteq> k \<Longrightarrow> entry k' (rh_delete rh now k s) = entry k' s"

text \<open>The commands of a call come in order, and a call takes less than the time to live.\<close>

definition prompt :: "circuit_breaker \<Rightarrow> (nat \<Rightarrow> rat) \<Rightarrow> bool" where
  "prompt cb clock \<longleftrightarrow> clock 0 \<le> clock 1 \<and> clock 1 \<le> clock 2 \<and> clock 2 \<le> clock 3 \<and> clock 3 \<le> clock 4
     \<and> clock 4 \<le> clock 0 + of_int (cb_cooldown cb * 3)"

definition cooled :: "circuit_breaker \<Rightarrow> rat \<Rightarrow> circuit_snapshot \<Rightarrow> bool" where
  "cooled cb t c \<longleftrightarrow> cs_state c = OPEN \<and>
     (case cs_opened_at c of None \<Rightarrow> False | Some x \<Rightarrow> t - x \<ge> of_int (cb_cooldown cb))"

definition seen :: "circuit_breaker \<Rightarrow> rat \<Rightarrow> circuit_snapshot \<Rightarrow> circuit_snapshot" where
  "seen cb t c = (if cooled cb t c then c\<lparr>cs_state := HALF_OPEN\<rparr> else c)"

definition after_failure :: "circuit_breaker \<Rightarrow> rat \<Rightarrow> circuit_snapshot \<Rightarrow> circuit_snapshot" where
  "after_failure cb t c =
     (let state = (if cs_failures c + 1 \<ge> cb_threshold cb then OPEN else cs_state c)
      in \<lparr>cs_state = state, cs_failures = cs_failures c + 1,
          cs_opened_at = (if state = OPEN then Some t else cs_opened_at c)\<rparr>)"

text \<open>A run of failures, each with the server's and the gateway's clock readings of its call.\<close>

type_synonym failure_call = "(nat \<Rightarrow> rat) \<times> rat \<times> rat"

fun record_failures ::
  "'s redis_hash_client \<Rightarrow> circuit_breaker \<Rightarrow> string \<Rightarrow> failure_call list \<Rightarrow> 's \<Rightarrow> (circuit_snapshot list \<times> 's) result" where
  "record_failures rh cb w [] s = Inr ([], s)"
| "record_failures rh cb w ((clock, t, t') # calls) s =
     bind_result (record_failure rh cb clock t t' w s) (\<lambda>(c, s1).
     bind_result (record_failures rh cb w calls s1) (\<lambda>(cs, s2). Inr (c # cs, s2)))"

text \<open>Every call ends before the deadline that the one before it has set.\<close>

fun timely :: "circuit_breaker \<Rightarrow> rat option \<Rightarrow> failure_call list \<Rightarrow> bool" where
  "timely cb deadline [] = True"
| "timely cb deadline ((clock, t, t') # calls) \<longleftrightarrow> prompt cb clock \<and> pred_option (\<lambda>d. clock 4 \<le> d) deadline
     \<and> timely cb (Some (clock 4 + of_int (cb_cooldown cb * 3))) calls"

lemma record_failures_length:
  "record_failures rh cb w calls s = Inr (cs, s') \<Longrightarrow> length cs = length calls"
  by (induction rh cb w calls s arbitrary: cs s' rule: record_failures.induct)
    (auto simp: bind_result_def split: sum.splits prod.splits)

lemma record_failures_snoc:
  "record_failures rh cb w (calls @ [(clock, t, t')]) s =
     bind_result (record_failures rh cb w calls s) (\<lambda>(cs, s1).
       bind_result (record_failure rh cb clock t t' w s1) (\<lambda>(c, s2). Inr (cs @ [c], s2)))"
  by (induction rh cb w calls s rule: record_failures.induct)
    (auto simp: bind_result_def split: sum.splits)

context redis_hashes
begin

text \<open>What the server has stored for a worker, as a snapshot, and until when.\<close>

definition stored :: "rat \<Rightarrow> string \<Rightarrow> circuit_snapshot \<Rightarrow> 's \<Rightarrow> bool" where
  "stored deadline w c s \<longleftrightarrow>
     (\<exists>h. entry (circuit_key w) s = Some (h, Some deadline)
        \<and> map_of h ''state'' = Some (FStr (state_value (cs_state c)))
        \<and> map_of h ''failures'' = Some (FInt (cs_failures c))
        \<and> map_of h ''opened_at'' = map_option FFloat (cs_opened_at c))"

text \<open>The two commands with which every change ends.\<close>

lemma written:
  assumes "m \<noteq> []" and "0 < n" and "pred_option (\<lambda>d. now' \<le> d) (Option.bind (alive now (entry k s)) snd)"
  shows "\<exists>h. entry k (rh_expire rh now' k n (rh_hset rh now k m s)) = Some (h, Some (now' + of_int n))
    \<and> map_of h = map_of (hash_of (alive now (entry k s))) ++ map_of (rev m)"
proof -
  from hset [OF assms(1)] obtain h where h: "entry k (rh_hset rh now k m s) = Some (h, Option.bind (alive now (entry k s)) snd)"
    "map_of h = map_of (hash_of (alive now (entry k s))) ++ map_of (rev m)" by blast
  with assms(2,3) show ?thesis by (simp add: expire alive_def [of now'])
qed

lemma alive_stored:
  assumes "stored deadline w c s" and "now \<le> deadline"
  shows "alive now (entry (circuit_key w) s) = entry (circuit_key w) s"
  using assms by (auto simp: stored_def alive_def)

lemma get_untracked:
  "alive (clock 0) (entry (circuit_key w) s) = None \<Longrightarrow> circuit_get rh cb clock t w s = Inr (closed_snapshot, s)"
  by (simp add: circuit_get_def hgetall hash_of_def)

lemma get_stored:
  assumes "stored deadline w c s" and "clock 0 \<le> deadline"
  shows "circuit_get rh cb clock t w s =
    (if cooled cb t c
     then Inr (seen cb t c, rh_expire rh (clock 2) (circuit_key w) (cb_cooldown cb * 3)
            (rh_hset rh (clock 1) (circuit_key w) [(''state'', FStr ''HALF_OPEN'')] s))
     else Inr (seen cb t c, s))"
proof -
  from assms(1) obtain h where h: "entry (circuit_key w) s = Some (h, Some deadline)"
    "map_of h ''state'' = Some (FStr (state_value (cs_state c)))" "map_of h ''failures'' = Some (FInt (cs_failures c))"
    "map_of h ''opened_at'' = map_option FFloat (cs_opened_at c)" by (auto simp: stored_def)
  then have "rh_hgetall rh (clock 0) (circuit_key w) s = h"
    using alive_stored [OF assms] by (simp add: hgetall hash_of_def)
  moreover have "h \<noteq> []" using h(2) by auto
  ultimately show ?thesis using h
    by (cases c; cases "cs_opened_at c") (auto simp: circuit_get_def cooled_def seen_def Let_def)
qed

lemma get_keeps_stored:
  assumes "stored deadline w c s" and "clock 0 \<le> clock 1" and "clock 1 \<le> clock 2" and "clock 2 \<le> deadline"
    and "0 < cb_cooldown cb"
  shows "\<exists>s' d. circuit_get rh cb clock t w s = Inr (seen cb t c, s') \<and> stored d w (seen cb t c) s'
    \<and> d = (if cooled cb t c then clock 2 + of_int (cb_cooldown cb * 3) else deadline)"
proof (cases "cooled cb t c")
  case True
  let ?k = "circuit_key w"
  let ?s = "rh_expire rh (clock 2) ?k (cb_cooldown cb * 3) (rh_hset rh (clock 1) ?k [(''state'', FStr ''HALF_OPEN'')] s)"
  have alive: "alive (clock 1) (entry ?k s) = entry ?k s" using alive_stored [OF assms(1)] assms(3,4) by simp
  from assms(1) obtain h where h: "entry ?k s = Some (h, Some deadline)" by (auto simp: stored_def)
  then have "pred_option (\<lambda>d. clock 2 \<le> d) (Option.bind (alive (clock 1) (entry ?k s)) snd)"
    using alive assms(4) by simp
  from written [OF _ _ this, of "[(''state'', FStr ''HALF_OPEN'')]" "cb_cooldown cb * 3"] assms(5)
  have "stored (clock 2 + of_int (cb_cooldown cb * 3)) w (seen cb t c) ?s"
    using assms(1) True h by (auto simp: stored_def seen_def alive [unfolded h One_nat_def] hash_of_def map_add_def)
  moreover have "clock 0 \<le> deadline" using assms(2-4) by simp
  ultimately show ?thesis using get_stored [OF assms(1), of clock cb t] True by simp
next
  case False
  have "clock 0 \<le> deadline" using assms(2-4) by simp
  then show ?thesis using get_stored [OF assms(1), of clock cb t] False assms(1) by (simp add: seen_def)
qed

text \<open>The record of a worker at a call: absent, or a snapshot that lasts until the call is over.\<close>

definition tracked :: "(nat \<Rightarrow> rat) \<Rightarrow> string \<Rightarrow> circuit_snapshot \<Rightarrow> 's \<Rightarrow> bool" where
  "tracked clock w c s \<longleftrightarrow>
     (c = closed_snapshot \<and> (\<forall>now\<ge>clock 0. alive now (entry (circuit_key w) s) = None))
     \<or> (\<exists>deadline. stored deadline w c s \<and> clock 4 \<le> deadline)"

lemma tracked_get:
  assumes "tracked clock w c s" and "prompt cb clock" and "0 < cb_cooldown cb"
  shows "\<exists>s1. circuit_get rh cb clock t w s = Inr (seen cb t c, s1)
    \<and> pred_option (\<lambda>d. clock 4 \<le> d) (Option.bind (alive (clock 3) (entry (circuit_key w) s1)) snd)
    \<and> map_of (hash_of (alive (clock 3) (entry (circuit_key w) s1))) ''opened_at'' = map_option FFloat (cs_opened_at (seen cb t c))"
  using assms(1) unfolding tracked_def
proof (elim disjE conjE exE)
  assume "c = closed_snapshot" and "\<forall>now\<ge>clock 0. alive now (entry (circuit_key w) s) = None"
  moreover have "clock 0 \<le> clock 3" using assms(2) by (auto simp: prompt_def)
  moreover have "seen cb t closed_snapshot = closed_snapshot" by (simp add: seen_def cooled_def closed_snapshot_def)
  ultimately show ?thesis by (simp add: get_untracked hash_of_def) (simp add: closed_snapshot_def)
next
  fix deadline assume st: "stored deadline w c s" and late: "clock 4 \<le> deadline"
  have order: "clock 0 \<le> clock 1" "clock 1 \<le> clock 2" "clock 2 \<le> deadline" using assms(2) late by (auto simp: prompt_def)
  from get_keeps_stored [OF st order assms(3)] obtain s1 d where get: "circuit_get rh cb clock t w s = Inr (seen cb t c, s1)"
    and st1: "stored d w (seen cb t c) s1" and d: "d = (if cooled cb t c then clock 2 + of_int (cb_cooldown cb * 3) else deadline)"
    by blast
  have "clock 4 \<le> d" "clock 3 \<le> d" using d late assms(2,3) by (auto simp: prompt_def split: if_splits)
  moreover from alive_stored [OF st1 \<open>clock 3 \<le> d\<close>] have "alive (clock 3) (entry (circuit_key w) s1) = entry (circuit_key w) s1" .
  ultimately show ?thesis using get st1 by (auto simp: stored_def hash_of_def)
qed

lemma failure_step:
  assumes "tracked clock w c s" and "prompt cb clock" and "0 < cb_cooldown cb"
  shows "\<exists>s'. record_failure rh cb clock t t' w s = Inr (after_failure cb t' (seen cb t c), s')
    \<and> stored (clock 4 + of_int (cb_cooldown cb * 3)) w (after_failure cb t' (seen cb t c)) s'"
proof -
  from tracked_get [OF assms] obtain s1 where get: "circuit_get rh cb clock t w s = Inr (seen cb t c, s1)"
    and lasts: "pred_option (\<lambda>d. clock 4 \<le> d) (Option.bind (alive (clock 3) (entry (circuit_key w) s1)) snd)"
    and opened: "map_of (hash_of (alive (clock 3) (entry (circuit_key w) s1))) ''opened_at'' =
      map_option FFloat (cs_opened_at (seen cb t c))" by blast
  let ?f = "after_failure cb t' (seen cb t c)"
  let ?m = "[(''state'', FStr (state_value (cs_state ?f))), (''failures'', FInt (cs_failures ?f))]
    @ (case cs_opened_at ?f of None \<Rightarrow> [] | Some x \<Rightarrow> [(''opened_at'', FFloat x)])"
  let ?s2 = "rh_expire rh (clock 4) (circuit_key w) (cb_cooldown cb * 3) (rh_hset rh (clock 3) (circuit_key w) ?m s1)"
  have rec: "record_failure rh cb clock t t' w s = Inr (?f, ?s2)"
    by (simp add: record_failure_def get after_failure_def Let_def)
  have "cs_opened_at ?f = None \<Longrightarrow> cs_opened_at (seen cb t c) = None"
    by (auto simp: after_failure_def Let_def split: if_splits)
  with written [OF _ _ lasts, of ?m "cb_cooldown cb * 3"] assms(3) opened
  have "stored (clock 4 + of_int (cb_cooldown cb * 3)) w ?f ?s2"
    by (auto simp: stored_def map_add_def split: option.split)
  with rec show ?thesis by blast
qed

lemma tracked_stored:
  "stored (clock 4 + of_int (cb_cooldown cb * 3)) w c s \<Longrightarrow>
   timely cb (Some (clock 4 + of_int (cb_cooldown cb * 3))) ((clock', t, t') # calls) \<Longrightarrow> tracked clock' w c s"
  by (auto simp: tracked_def)

lemma seen_closed: "cs_state c = CLOSED \<Longrightarrow> seen cb t c = c"
  by (simp add: seen_def cooled_def)

text \<open>Below the threshold; the next call, if it comes in time, finds the record.\<close>

lemma closed_failures:
  assumes "timely cb deadline (calls @ [next_call])"
    and "deadline = None \<longrightarrow> c = closed_snapshot \<and> entry (circuit_key w) s = None"
    and "deadline \<noteq> None \<longrightarrow> stored (the deadline) w c s"
    and "cs_state c = CLOSED" and "cs_failures c + int (length calls) < cb_threshold cb" and "0 < cb_cooldown cb"
  shows "\<exists>cs s' d. record_failures rh cb w calls s = Inr (cs, s') \<and> (\<forall>x\<in>set cs. cs_state x = CLOSED)
    \<and> tracked (fst next_call) w d s' \<and> prompt cb (fst next_call) \<and> cs_state d = CLOSED
    \<and> cs_failures d = cs_failures c + int (length calls)"
  using assms
proof (induction calls arbitrary: s c deadline)
  case Nil
  then have "tracked (fst next_call) w c s"
    by (cases next_call; cases deadline) (auto simp: tracked_def alive_def)
  with Nil show ?case by (cases next_call) auto
next
  case (Cons call calls)
  obtain clock t t' where call: "call = (clock, t, t')" by (cases call)
  have "tracked clock w c s"
    using Cons.prems(1-3) by (cases deadline) (auto simp: call tracked_def alive_def)
  moreover have "prompt cb clock" using Cons.prems(1) by (simp add: call)
  ultimately obtain s1 where rec: "record_failure rh cb clock t t' w s = Inr (after_failure cb t' c, s1)"
    and st: "stored (clock 4 + of_int (cb_cooldown cb * 3)) w (after_failure cb t' c) s1"
    using failure_step [of clock w c s cb t t'] Cons.prems(4,6) by (auto simp: seen_closed)
  have nxt: "cs_state (after_failure cb t' c) = CLOSED" "cs_failures (after_failure cb t' c) = cs_failures c + 1"
    using Cons.prems(4,5) by (auto simp: after_failure_def Let_def)
  have "timely cb (Some (clock 4 + of_int (cb_cooldown cb * 3))) (calls @ [next_call])"
    using Cons.prems(1) by (simp add: call)
  from Cons.IH [OF this, of "after_failure cb t' c" s1] st nxt Cons.prems(5,6) obtain cs s' d where
    "record_failures rh cb w calls s1 = Inr (cs, s')" "\<forall>x\<in>set cs. cs_state x = CLOSED"
    "tracked (fst next_call) w d s'" "prompt cb (fst next_call)" "cs_state d = CLOSED"
    "cs_failures d = cs_failures c + 1 + int (length calls)" by auto
  then show ?case using rec nxt call
    by (intro exI [of _ "after_failure cb t' c # cs"] exI [of _ s'] exI [of _ d]) auto
qed

lemma opens_at_threshold:
  assumes "entry (circuit_key w) s = None" and "1 \<le> cb_threshold cb" and "0 < cb_cooldown cb"
    and "length calls = nat (cb_threshold cb) - 1" and "timely cb None (calls @ [(clock, t, t')])"
  shows "\<exists>cs c s'. record_failures rh cb w (calls @ [(clock, t, t')]) s = Inr (cs @ [c], s')
    \<and> (\<forall>x\<in>set cs. cs_state x = CLOSED) \<and> stored (clock 4 + of_int (cb_cooldown cb * 3)) w c s'
    \<and> c = \<lparr>cs_state = OPEN, cs_failures = cb_threshold cb, cs_opened_at = Some t'\<rparr>"
proof -
  have "cs_failures closed_snapshot + int (length calls) < cb_threshold cb"
    using assms(2,4) by (simp add: closed_snapshot_def)
  moreover have "cs_state closed_snapshot = CLOSED" by (simp add: closed_snapshot_def)
  ultimately obtain cs s1 d where run: "record_failures rh cb w calls s = Inr (cs, s1)"
    and cs: "\<forall>x\<in>set cs. cs_state x = CLOSED" and d: "tracked clock w d s1" "prompt cb clock" "cs_state d = CLOSED"
      "cs_failures d = cb_threshold cb - 1"
    using closed_failures [OF assms(5), of closed_snapshot w s] assms by (auto simp: closed_snapshot_def)
  obtain s2 where "record_failure rh cb clock t t' w s1 = Inr (after_failure cb t' d, s2)"
    "stored (clock 4 + of_int (cb_cooldown cb * 3)) w (after_failure cb t' d) s2"
    using failure_step [OF d(1,2) assms(3), of t t'] by (auto simp: seen_closed d(3))
  moreover have "after_failure cb t' d = \<lparr>cs_state = OPEN, cs_failures = cb_threshold cb, cs_opened_at = Some t'\<rparr>"
    using d by (simp add: after_failure_def)
  ultimately show ?thesis using run cs by (auto simp: record_failures_snoc)
qed

text \<open>After a failure that is longer ago than the time to live there is nothing left of it.\<close>

lemma failure_deadline:
  assumes "record_failure rh cb clock t t' w s = Inr (c, s')" and "0 < cb_cooldown cb"
    and "clock 4 + of_int (cb_cooldown cb * 3) < now"
  shows "alive now (entry (circuit_key w) s') = None"
  using assms
  by (auto simp: record_failure_def bind_result_eq_Inr Let_def expire alive_def [of now] split: option.splits)

lemma late_failure:
  assumes "record_failure rh cb clock t t' w s = Inr (c, s1)" and "0 < cb_cooldown cb"
    and "clock 4 + of_int (cb_cooldown cb * 3) < clock' 0" and "prompt cb clock'"
  shows "\<exists>s2. record_failure rh cb clock' u u' w s1 = Inr (after_failure cb u' closed_snapshot, s2)"
proof -
  have "tracked clock' w closed_snapshot s1"
    using failure_deadline [OF assms(1,2)] assms(3) by (fastforce simp: tracked_def)
  from failure_step [OF this assms(4,2), of u u'] show ?thesis
    by (auto simp: seen_closed closed_snapshot_def)
qed

lemma success_untracks: "entry (circuit_key w) (snd (record_success rh clock w s)) = None"
  by (simp add: record_success_def delete)

end

section \<open>A Redis server\<close>

type_synonym redis_keys = "string \<Rightarrow> (redis_hash \<times> rat option) option"

definition redis_server :: "redis_keys redis_hash_client" where
  "redis_server =
     \<lparr>rh_hgetall = (\<lambda>now k s. hash_of (alive now (s k))),
      rh_hset = (\<lambda>now k m s. s(k \<mapsto> (fold (\<lambda>(f, v). AList.update f v) m (hash_of (alive now (s k))),
          Option.bind (alive now (s k)) snd))),
      rh_expire = (\<lambda>now k n s. s(k := case alive now (s k) of None \<Rightarrow> None
          | Some (h, _) \<Rightarrow> if n \<le> 0 then None else Some (h, Some (now + of_int n)))),
      rh_delete = (\<lambda>now k s. s(k := None))\<rparr>"

lemma map_of_fold_update:
  "map_of (fold (\<lambda>(f, v). AList.update f v) m bucket) = map_of bucket ++ map_of (rev m)"
proof (induction m arbitrary: bucket)
  case Nil
  then show ?case by simp
next
  case (Cons fv m)
  then show ?case
    by (cases fv) (simp add: update_conv' map_add_upd_left fun_eq_iff map_add_def split: option.split)
qed

interpretation server: redis_hashes redis_server "\<lambda>k s. s k"
  by unfold_locales (simp_all add: redis_server_def map_of_fold_update)

section \<open>Properties\<close>



end
