(* ===== verification/Worker_Health.thy ===== *)
theory Worker_Health
  imports Samples
begin

text \<open>
  \<open>services/worker_health.py\<close>: the maintenance statement that marks silent workers offline. The
  service is its timeout; the value of the statement is the number of rows it matched.
\<close>

definition worker_health_init :: "int \<Rightarrow> int result" where
  "worker_health_init heartbeat_timeout_seconds =
     (if heartbeat_timeout_seconds < 30
      then Inl (ValueError ''heartbeat timeout must be at least 30 seconds'')
      else Inr heartbeat_timeout_seconds)"

definition default_heartbeat_timeout :: int where
  "default_heartbeat_timeout = 90"

text \<open>A comparison with a \<open>NULL\<close> heartbeat is not true, and the statement excludes it anyway.\<close>

definition stale :: "instant \<Rightarrow> worker \<Rightarrow> bool" where
  "stale cutoff w \<longleftrightarrow>
     wk_status w = ONLINE
     \<and> (case wk_last_heartbeat w of None \<Rightarrow> False | Some t \<Rightarrow> t < cutoff)"

definition mark_stale_workers_offline :: "int \<Rightarrow> instant \<Rightarrow> db \<Rightarrow> nat \<times> db" where
  "mark_stale_workers_offline timeout now s =
     (let cutoff = now - seconds timeout
      in (length (filter (stale cutoff) (workers s)),
          s\<lparr>workers := update_where (stale cutoff) (\<lambda>w. w\<lparr>wk_status := OFFLINE\<rparr>) (workers s)\<rparr>))"

section \<open>Facts\<close>

lemma mark_stale_frame:
  assumes "mark_stale_workers_offline timeout now s = (n, s')"
  shows "s' = s\<lparr>workers := workers s'\<rparr>"
    and "map wk_id (workers s') = map wk_id (workers s)"
    and "map wk_token_jti (workers s') = map wk_token_jti (workers s)"
    and "map wk_revoked_at (workers s') = map wk_revoked_at (workers s)"
  using assms by (auto simp: mark_stale_workers_offline_def Let_def map_update_where)

lemma offline_not_stale: "\<not> stale cutoff (w\<lparr>wk_status := OFFLINE\<rparr>)"
  by (simp add: stale_def)

lemma stale_mono: "stale c w \<Longrightarrow> c \<le> c' \<Longrightarrow> stale c' w"
  by (auto simp: stale_def split: option.splits)

text \<open>One pass is enough, and what it changed is off the list for good.\<close>

lemma mark_stale_idempotent:
  assumes "mark_stale_workers_offline timeout now s = (n, s')" and "now' \<le> now"
  shows "mark_stale_workers_offline timeout now' s' = (0, s')"
proof -
  have "\<not> stale (now' - seconds timeout) w" if "w \<in> set (workers s')" for w
  proof
    assume "stale (now' - seconds timeout) w"
    then have "stale (now - seconds timeout) w" using assms(2) by (auto elim: stale_mono)
    with that assms(1) show False
      by (auto simp: mark_stale_workers_offline_def Let_def set_update_where offline_not_stale split: if_splits)
  qed
  then show ?thesis
    by (simp add: mark_stale_workers_offline_def Let_def filter_empty_conv update_where_none)
qed

text \<open>A worker that was heard within the timeout is kept.\<close>

lemma mark_stale_keeps:
  assumes "mark_stale_workers_offline timeout now s = (n, s')" and "w \<in> set (workers s)"
    and "wk_last_heartbeat w = Some h" and "now - seconds timeout \<le> h"
  shows "w \<in> set (workers s')"
proof -
  from assms(3,4) have "\<not> stale (now - seconds timeout) w" by (simp add: stale_def)
  with assms(1,2) show ?thesis
    by (force simp: mark_stale_workers_offline_def Let_def set_update_where)
qed

end
