(* ===== verification/App.thy ===== *)
theory App
  imports Auth Middleware CircuitBreaker Worker_Health
begin

text \<open>
  \<open>main.py\<close> and the level check of \<open>logging.py\<close>: building the application from its settings, the
  services that \<open>lifespan\<close> puts on the application state, the maintenance loop, and the shutdown. Reading a key
  file is a parameter; Argon2 and the JWT codec are parameters of the services.
\<close>

section \<open>Starting up\<close>

definition upper :: "string \<Rightarrow> string" where
  "upper s = map (\<lambda>c. if is_lower c then char_of ((of_char c :: nat) - 32) else c) s"

definition level_names :: "string list" where
  "level_names = [''CRITICAL'', ''FATAL'', ''ERROR'', ''WARN'', ''WARNING'', ''INFO'', ''DEBUG'', ''NOTSET'']"

text \<open>\<open>logging.basicConfig(level=level.upper())\<close> refuses a name that \<open>logging\<close> does not know.\<close>

definition configure_logging :: "string \<Rightarrow> string result" where
  "configure_logging level =
     (if upper level \<in> set level_names then Inr (upper level)
      else Inl (ValueError (''Unknown level: '' @ quoted (upper level))))"

definition create_app :: "settings \<Rightarrow> settings result" where
  "create_app environment =
     bind_result (validate_settings environment) (\<lambda>st.
     bind_result (configure_logging (st_log_level st)) (\<lambda>_.
     bind_result (security_middleware_init (st_max_request_body_bytes st)) (\<lambda>_. Inr st)))"

definition jwt_service_init ::
  "(string \<Rightarrow> string result) \<Rightarrow> string \<Rightarrow> string \<Rightarrow> string \<Rightarrow> string \<Rightarrow> int \<Rightarrow> jwt_service result" where
  "jwt_service_init read_text private_key_path public_key_path issuer audience ttl_seconds =
     bind_result (read_text private_key_path) (\<lambda>private_key.
     bind_result (read_text public_key_path) (\<lambda>public_key.
       Inr \<lparr>jw_private_key = private_key, jw_public_key = public_key, jw_issuer = issuer,
            jw_audience = audience, jw_ttl = ttl_seconds\<rparr>))"

record 's services = "'s app_state" +
  app_worker_health :: int
  app_circuit_breaker :: circuit_breaker

abbreviation base :: "'s services \<Rightarrow> 's app_state" where
  "base \<equiv> app_state.truncate"

definition lifespan_start ::
  "(string \<Rightarrow> string result) \<Rightarrow> password_hasher \<Rightarrow> jwt_codec \<Rightarrow> 's redis_counters \<Rightarrow> settings \<Rightarrow>
     's services result" where
  "lifespan_start read_text hasher codec redis st =
     bind_result (api_key_service_init (st_api_key_pepper st) hasher) (\<lambda>api_keys.
     bind_result (enrollment_service_init (st_worker_enrollment_pepper st) hasher) (\<lambda>enrollment.
     bind_result (jwt_service_init read_text (st_jwt_private_key_path st) (st_jwt_public_key_path st)
         (st_jwt_issuer st) (st_jwt_audience st) (st_worker_token_ttl_seconds st)) (\<lambda>jwt.
     bind_result (worker_health_init default_heartbeat_timeout) (\<lambda>health.
       Inr \<lparr>app_settings = st, app_api_key_service = api_keys, app_enrollment_service = enrollment,
            app_jwt_service = jwt, app_jwt_codec = codec, app_rate_limiter = redis,
            app_budget_service = budget_service_impl,
            app_admin_verifier = verify_admin hasher st,
            app_worker_health = health,
            app_circuit_breaker = \<lparr>cb_threshold = st_circuit_failure_threshold st,
              cb_cooldown = st_circuit_cooldown_seconds st\<rparr>\<rparr>))))"

section \<open>The maintenance loop\<close>

text \<open>One cycle, in one session: the clock is read once by each service.\<close>

definition maintenance_cycle :: "'s services \<Rightarrow> instant \<Rightarrow> instant \<Rightarrow> db \<Rightarrow> unit result \<times> db" where
  "maintenance_cycle app t_recover t_health s =
     session_scope (\<lambda>s.
       bind_result (recover_expired_leases (app_budget_service app) t_recover s) (\<lambda>(recovered, s1).
         let (offline, s2) = mark_stale_workers_offline (app_worker_health app) t_health s1
         in Inr ((), s2))) s"

text \<open>
  The loop over the cycles until shutdown; an exception is logged by the name of its class, and the
  loop goes on.
\<close>

fun lease_recovery_loop ::
  "'s services \<Rightarrow> (instant \<times> instant) list \<Rightarrow> db \<Rightarrow> (string \<times> string) list \<times> db" where
  "lease_recovery_loop app [] s = ([], s)"
| "lease_recovery_loop app ((t_recover, t_health) # cycles) s =
     (let (r, s1) = maintenance_cycle app t_recover t_health s;
          (logged, s2) = lease_recovery_loop app cycles s1
      in ((case r of Inl e \<Rightarrow> [(''maintenance_cycle_failed'', exception_name e)] | Inr _ \<Rightarrow> []) @ logged, s2))"

section \<open>Shutting down\<close>

text \<open>
  The \<open>finally\<close> of \<open>lifespan\<close>, as its calls in order and how it ends. Awaiting the cancelled task raises
  \<open>CancelledError\<close>, which is suppressed, unless the task had ended with an exception of its own before: that is
  raised again here. The last two calls are those of Redis and of the engine, which may raise.
\<close>

datatype stop_call = CancelRecovery | AwaitRecovery | CloseRedis | DisposeDatabase

definition lifespan_stop :: "exn option \<Rightarrow> unit result \<Rightarrow> unit result \<Rightarrow> stop_call list \<times> unit result" where
  "lifespan_stop recovery_failed aclose dispose =
     (case recovery_failed of
        Some e \<Rightarrow> ([CancelRecovery, AwaitRecovery], Inl e)
      | None \<Rightarrow>
          (case aclose of
             Inl e \<Rightarrow> ([CancelRecovery, AwaitRecovery, CloseRedis], Inl e)
           | Inr _ \<Rightarrow> ([CancelRecovery, AwaitRecovery, CloseRedis, DisposeDatabase], dispose)))"

section \<open>Facts\<close>

lemma lifespan_stop_cases:
  "DisposeDatabase \<in> set (fst (lifespan_stop failed aclose dispose)) \<longleftrightarrow> failed = None \<and> aclose = Inr ()"
  "snd (lifespan_stop failed aclose dispose) = Inr () \<longleftrightarrow> failed = None \<and> aclose = Inr () \<and> dispose = Inr ()"
  by (auto simp: lifespan_stop_def split: option.splits sum.splits)

lemma security_middleware_init_Inr: "security_middleware_init n = Inr m \<longleftrightarrow> m = n \<and> 1024 \<le> n"
  by (auto simp: security_middleware_init_def)

lemma create_app_Inr:
  "create_app env = Inr st \<longleftrightarrow> validate_settings env = Inr st \<and> upper (st_log_level st) \<in> set level_names"
  by (auto simp: create_app_def result_simps configure_logging_def security_middleware_init_Inr
      validate_settings_Inr settings_in_range_def in_range_def)

lemma maintenance_cycle_Inr:
  "maintenance_cycle app t1 t2 s = (Inr u, s') \<longleftrightarrow>
     (\<exists>k s1. recover_expired_leases (app_budget_service app) t1 s = Inr (k, s1)
        \<and> s' = snd (mark_stale_workers_offline (app_worker_health app) t2 s1))"
  by (auto simp: maintenance_cycle_def session_scope_def bind_result_def split: sum.splits prod.splits)

lemma maintenance_cycle_Inl: "maintenance_cycle app t1 t2 s = (Inl e, s') \<Longrightarrow> s' = s"
  by (auto simp: maintenance_cycle_def session_scope_def split: sum.splits prod.splits)

section \<open>Properties\<close>


definition sample_settings :: settings where
  "sample_settings = default_settings ''db'' ''redis'' (replicate 32 (CHR ''a'')) (replicate 32 (CHR ''b''))
     ''h'' (replicate 32 (CHR ''c'')) ''k'' ''p''"


end
