(* ===== verification/Auth_Properties.thy ===== *)
theory Auth_Properties
  imports Auth
begin

text \<open>
  The properties of the authentication boundaries of \<open>dependencies.py\<close>: the complete behaviour of
  the key check, the daily request limit over a sequence of calls, and the scopes.
\<close>

text \<open>The header presents the credential of this stored key, at this time.\<close>

definition presents :: "'s app_state \<Rightarrow> instant \<Rightarrow> string option \<Rightarrow> db \<Rightarrow> api_key \<Rightarrow> bool" where
  "presents app t authorization s k \<longleftrightarrow>
     (\<exists>raw secret. bearer_token authorization = Some raw
       \<and> parse_api_key raw = Some (ak_environment k, ak_key_id k, secret)
       \<and> select_key (ak_key_id k) s = Inr (Some k)
       \<and> verify_secret (app_api_key_service app) secret (ak_secret_hash k) = Inr True
       \<and> is_record_active t (ak_expires_at k) (ak_revoked_at k))"

lemma presents_found:
  assumes "bearer_token authorization = Some raw" and "parse_api_key raw = Some (e, key_id, secret)"
    and "bind_result (select_key key_id s) (check_key (app_api_key_service app) t e secret) = Inr k"
  shows "presents app t authorization s k"
  using assms by (auto simp: presents_def bind_result_eq_Inr check_key_Inr dest: select_key_Some(2))

text \<open>C19. A header that presents a stored, active credential of an active project is accepted
  unless the key's daily limit is used up, which is checked before Redis is touched, or the
  minute's limit is; acceptance counts the request on the key's row and nothing else. When argon2 cannot verify
  the stored hash of the key that the header names, for a reason other than a mismatch or an invalid hash, its exception is not caught and
  ends the call with no effect. Every other header, whether missing, malformed, unknown, of the other environment, wrong, revoked or
  expired, gets the same answer 401 and has no effect at all.\<close>

theorem api_key_authentication:
  assumes "keys_ok s"
  shows "(presents app t_active authorization s k \<longrightarrow>
      require_api_key app t_active now t_rate authorization s redis =
       (if ak_daily_req_limit k \<le> requests_today now k
        then (Inl (OrbiError ''daily_request_limit_exceeded'' ''Daily request limit exceeded.'' 429), redis)
        else let (ok, redis') = allow_minute (app_rate_limiter app) (ak_key_id k) (ak_rpm_limit k) t_rate redis
          in (if ok then Inr (counted now k, replace_key (counted now k) s)
              else Inl (OrbiError ''rate_limit_exceeded'' ''Per-minute request limit exceeded.'' 429), redis')))
    \<and> (hash_fails app authorization s \<longrightarrow>
      require_api_key app t_active now t_rate authorization s redis = (Inl VerificationError, redis))
    \<and> ((\<forall>k. \<not> presents app t_active authorization s k) \<and> \<not> hash_fails app authorization s \<longrightarrow>
      require_api_key app t_active now t_rate authorization s redis = (Inl invalid_api_key, redis))"
proof (intro conjI impI)
  assume "presents app t_active authorization s k"
  then obtain raw secret where "bearer_token authorization = Some raw"
    "parse_api_key raw = Some (ak_environment k, ak_key_id k, secret)"
    "bind_result (select_key (ak_key_id k) s)
       (check_key (app_api_key_service app) t_active (ak_environment k) secret) = Inr k"
    by (auto simp: presents_def bind_result_eq_Inr check_key_Inr)
  then show "require_api_key app t_active now t_rate authorization s redis =
       (if ak_daily_req_limit k \<le> requests_today now k
        then (Inl (OrbiError ''daily_request_limit_exceeded'' ''Daily request limit exceeded.'' 429), redis)
        else let (ok, redis') = allow_minute (app_rate_limiter app) (ak_key_id k) (ak_rpm_limit k) t_rate redis
          in (if ok then Inr (counted now k, replace_key (counted now k) s)
              else Inl (OrbiError ''rate_limit_exceeded'' ''Per-minute request limit exceeded.'' 429), redis'))"
    by (cases "allow_minute (app_rate_limiter app) (ak_key_id k) (ak_rpm_limit k) t_rate redis")
      (simp add: require_api_key_def Let_def counted_roll)
next
  assume "hash_fails app authorization s"
  then show "require_api_key app t_active now t_rate authorization s redis = (Inl VerificationError, redis)"
    by (rule require_api_key_fails)
next
  assume "(\<forall>k. \<not> presents app t_active authorization s k) \<and> \<not> hash_fails app authorization s"
  then have none: "\<forall>k. \<not> presents app t_active authorization s k" and readable: "\<not> hash_fails app authorization s" by simp_all
  show "require_api_key app t_active now t_rate authorization s redis = (Inl invalid_api_key, redis)"
  proof (cases "\<exists>raw parts. bearer_token authorization = Some raw \<and> parse_api_key raw = Some parts")
    case False
    then show ?thesis by (auto simp: require_api_key_def split: option.splits)
  next
    case True
    then obtain raw e key_id secret where parsed: "bearer_token authorization = Some raw"
      "parse_api_key raw = Some (e, key_id, secret)" by auto
    obtain x where x: "bind_result (select_key key_id s)
        (check_key (app_api_key_service app) t_active e secret) = Inl x"
      using none presents_found [OF parsed] by (metis obj_sumE)
    then have "x = invalid_api_key" using lookup_error [OF x assms parsed] readable by simp
    with x parsed show ?thesis by (simp add: require_api_key_def)
  qed
qed

definition sample_secret :: string where
  "sample_secret = replicate 43 (CHR ''s'')"

definition sample_header :: "string option" where
  "sample_header = Some (''Bearer '' @ render_api_key ''test'' ''AAAAAAAAAAAA'' sample_secret)"

text \<open>The sample database with the plain hash of this secret.\<close>

definition keyed_db :: db where
  "keyed_db = (sample_db [])\<lparr>api_keys := [sample_key\<lparr>ak_secret_hash := peppered ''pepper'' sample_secret\<rparr>]\<rparr>"

lemma sample_bearer:
  "bearer_token sample_header = Some (render_api_key ''test'' ''AAAAAAAAAAAA'' sample_secret)"
  unfolding sample_header_def
  by (rule bearer_token_header) (auto simp: render_api_key_def sample_secret_def is_space_def)

lemma sample_parse:
  "parse_api_key (render_api_key ''test'' ''AAAAAAAAAAAA'' sample_secret) =
     Some (''test'', ''AAAAAAAAAAAA'', sample_secret)"
  unfolding parse_api_key_iff
  by (simp add: is_key_id_def is_key_secret_def sample_secret_def url_char_def is_alnum_def is_upper_def
      is_lower_def list_all_iff)

lemma keyed_db_ok: "keys_ok keyed_db"
  by (simp add: keys_ok_def keyed_db_def sample_defs wf_project_def fits_int8_def idempotency_unique_def)

lemma sample_presents:
  "presents (sample_app codec) 0 sample_header keyed_db
     (sample_key\<lparr>ak_secret_hash := peppered ''pepper'' sample_secret\<rparr>)"
  unfolding presents_def sample_bearer option.inject
  by (intro exI [of _ "render_api_key ''test'' ''AAAAAAAAAAAA'' sample_secret"] exI [of _ sample_secret])
    (simp add: sample_parse, simp add: sample_key_def keyed_db_def sample_app_def select_key_def
      sample_db_def empty_db_def sample_project_def verify_secret_def verify_guarded_def plain_hasher_def
      is_record_active_def)

text \<open>The sample application with a hasher that cannot verify anything.\<close>

definition failing_app :: "((string \<Rightarrow> int) \<times> (string \<Rightarrow> bool)) app_state" where
  "failing_app = (sample_app sample_codec)\<lparr>app_api_key_service :=
     \<lparr>aks_pepper = ''pepper'', aks_hasher = plain_hasher\<lparr>ph_verify := \<lambda>_ _. OtherVerificationError\<rparr>\<rparr>\<rparr>"

lemma failing_app_fails: "hash_fails failing_app sample_header keyed_db"
  by (simp add: hash_fails_def sample_bearer sample_parse failing_app_def select_key_def keyed_db_def
      sample_db_def empty_db_def sample_project_def sample_key_def)

lemma sample_app_verifies: "\<not> hash_fails (sample_app codec) authorization s"
  by (auto simp: hash_fails_def sample_app_def plain_hasher_def split: option.splits sum.splits)

theorem api_key_authentication_witness:
  "fst (require_api_key (sample_app sample_codec) 0 0 0 None keyed_db sample_redis) = Inl invalid_api_key
   \<and> (\<exists>k' s'. fst (require_api_key (sample_app sample_codec) 0 0 0 sample_header keyed_db sample_redis) = Inr (k', s'))
   \<and> require_api_key failing_app 0 0 0 sample_header keyed_db sample_redis = (Inl VerificationError, sample_redis)"
proof -
  note spec = api_key_authentication [OF keyed_db_ok]
  have "\<forall>k. \<not> presents (sample_app sample_codec) 0 None keyed_db k" by (simp add: presents_def bearer_token_def)
  moreover have "fst (allow_minute (app_rate_limiter (sample_app sample_codec)) ''AAAAAAAAAAAA'' 60 0 sample_redis)"
    by (simp add: sample_app_def allow_minute_def map_counters_def sample_redis_def Let_def)
  ultimately show ?thesis
    using spec [of "sample_app sample_codec" 0 None] spec [of "sample_app sample_codec" 0 sample_header]
      spec [of failing_app 0 sample_header] sample_presents [of sample_codec] failing_app_fails
    by (auto simp: sample_key_def requests_today_def sample_app_verifies split: prod.splits)
qed

section \<open>The daily limit\<close>

text \<open>A sequence of authentication attempts; the value is the key identifiers of those accepted.\<close>

fun authenticate_all ::
  "'s app_state \<Rightarrow> (instant \<times> instant \<times> instant \<times> string option) list \<Rightarrow> db \<Rightarrow> 's \<Rightarrow> string list" where
  "authenticate_all app [] s redis = []"
| "authenticate_all app ((t_active, now, t_rate, authorization) # calls) s redis =
     (case require_api_key app t_active now t_rate authorization s redis of
        (Inl e, redis') \<Rightarrow> authenticate_all app calls s redis'
      | (Inr (k, s'), redis') \<Rightarrow> ak_key_id k # authenticate_all app calls s' redis')"

lemma authenticate_all_limit:
  assumes "keys_ok s" and "k \<in> set (api_keys s)" and "ak_key_id k = key_id"
    and "\<forall>(ta, now, tr, a)\<in>set calls. utc_date now = d"
    and "used = (if ak_daily_requests_date k = d then ak_daily_requests_used k else 0)"
    and "used \<le> ak_daily_req_limit k"
  shows "used + int (count_list (authenticate_all app calls s redis) key_id) \<le> ak_daily_req_limit k"
  using assms
proof (induction calls arbitrary: s k used redis)
  case Nil
  then show ?case by simp
next
  case (Cons call calls)
  obtain ta now tr a where call: "call = (ta, now, tr, a)" by (cases call) auto
  obtain res redis' where req: "require_api_key app ta now tr a s redis = (res, redis')" by fastforce
  show ?case
  proof (cases res)
    case (Inl e)
    with Cons req show ?thesis by (simp add: call)
  next
    case (Inr ks)
    obtain k' s' where ks: "ks = (k', s')" by (cases ks)
    have "fst (require_api_key app ta now tr a s redis) = Inr (k', s')" using req Inr ks by simp
    then obtain kid k0 where sel: "select_key kid s = Inr (Some k0)"
      and free: "requests_today now k0 < ak_daily_req_limit k0" and k': "k' = counted now k0"
      and s': "s' = replace_key k' s"
      unfolding require_api_key_Inr by blast
    from select_key_Some [OF sel] have k0: "k0 \<in> set (api_keys s)" by blast
    have ok': "keys_ok s'" using keys_ok_counted [OF Cons.prems(1) k0] by (simp add: s' k')
    have now: "utc_date now = d" using Cons.prems(4) by (simp add: call)
    have step: "authenticate_all app (call # calls) s redis = ak_key_id k0 # authenticate_all app calls s' redis'"
      using req Inr ks by (simp add: call k')
    show ?thesis
    proof (cases "ak_key_id k0 = key_id")
      case True
      with Cons.prems(1-3) k0 have "k0 = k" by (auto simp: keys_ok_def dest: distinct_key_eq)
      have mem: "k' \<in> set (api_keys s')" unfolding s' k' using k0 by (rule counted_mem)
      have today: "requests_today now k = used" using Cons.prems(5) now by (simp add: requests_today_def)
      have "(used + 1) + int (count_list (authenticate_all app calls s' redis') key_id) \<le> ak_daily_req_limit k'"
        using free Cons.prems(3,4) today now \<open>k0 = k\<close>
        by (intro Cons.IH [OF ok' mem]) (auto simp: k' counted_def)
      then show ?thesis unfolding step using True \<open>k0 = k\<close> by (simp add: k' counted_def)
    next
      case False
      then have "ak_id k \<noteq> ak_id k0"
        using Cons.prems(1-3) k0 by (auto simp: keys_ok_def dest: distinct_key_eq)
      then have "k \<in> set (api_keys s')"
        using Cons.prems(2) by (force simp: s' k' replace_key_def set_update_where)
      with Cons.IH [OF ok' this] Cons.prems(3-6) False show ?thesis
        unfolding step by auto
    qed
  qed
qed

text \<open>C25. However often a key is presented on one UTC day, and whatever is presented beside it, the
  accepted requests of the key together with those already counted stay within its daily limit.\<close>

theorem daily_request_limit:
  assumes "keys_ok s" and "k \<in> set (api_keys s)"
    and "\<forall>(ta, now, tr, a)\<in>set calls. utc_date now = d"
    and "0 \<le> ak_daily_req_limit k"
    and "ak_daily_requests_date k = d \<longrightarrow> ak_daily_requests_used k \<le> ak_daily_req_limit k"
  shows "(if ak_daily_requests_date k = d then ak_daily_requests_used k else 0)
    + int (count_list (authenticate_all app calls s redis) (ak_key_id k)) \<le> ak_daily_req_limit k"
  using assms by (intro authenticate_all_limit) auto

theorem daily_request_limit_witness:
  "int (count_list (authenticate_all (sample_app sample_codec)
     [(0, 0, 0, sample_header), (1, 1, 1, sample_header), (2, 2, 2, sample_header)]
     keyed_db sample_redis) ''AAAAAAAAAAAA'') \<le> 2"
proof -
  let ?k = "sample_key\<lparr>ak_secret_hash := peppered ''pepper'' sample_secret\<rparr>"
  have mem: "?k \<in> set (api_keys keyed_db)" by (simp add: keyed_db_def)
  have "\<forall>(ta, now, tr, a)\<in>set [(0, 0, 0, sample_header), (1, 1, 1, sample_header), (2, 2, 2 :: instant, sample_header)].
      utc_date now = utc_date 0"
    using utc_date_first_day [of 1] utc_date_first_day [of 2] by simp
  from daily_request_limit [OF keyed_db_ok mem this] show ?thesis
    by (simp add: sample_key_def del: authenticate_all.simps)
qed

end
