(* ===== verification/Responses.thy ===== *)
theory Responses
  imports RateLimit Entities
begin

text \<open>
  Rendering of values in response bodies: \<open>date.isoformat()\<close>, \<open>datetime.isoformat()\<close> of a UTC
  time (microseconds only when there are any), and the status strings.
\<close>

definition iso_date :: "date \<Rightarrow> string" where
  "iso_date d = zero_pad 4 (year_of d) @ ''-'' @ zero_pad 2 (month_of d) @ ''-'' @ zero_pad 2 (day_of d)"

definition iso_datetime :: "instant \<Rightarrow> string" where
  "iso_datetime t =
     iso_date (utc_date t) @ ''T'' @ zero_pad 2 (nat (t div 3600000000 mod 24)) @ '':''
     @ zero_pad 2 (nat (t div 60000000 mod 60)) @ '':'' @ zero_pad 2 (nat (t div 1000000 mod 60))
     @ (if t mod 1000000 = 0 then [] else ''.'' @ zero_pad 6 (nat (t mod 1000000)))
     @ ''+00:00''"

fun status_value :: "request_status \<Rightarrow> string" where
  "status_value QUEUED = ''QUEUED''"
| "status_value ASSIGNED = ''ASSIGNED''"
| "status_value STARTING = ''STARTING''"
| "status_value RUNNING = ''RUNNING''"
| "status_value STREAMING = ''STREAMING''"
| "status_value COMPLETED = ''COMPLETED''"
| "status_value FAILED_FINAL = ''FAILED_FINAL''"
| "status_value CANCELLED = ''CANCELLED''"
| "status_value EXPIRED = ''EXPIRED''"

end
