(* ===== verification/Schemas.thy ===== *)
theory Schemas
  imports Config Entities
begin

text \<open>
  \<open>schemas/api.py\<close>: the request bodies as records and their field constraints as predicates.
  Pydantic's parsing of JSON is not part of the repository: a record is a body whose fields have
  the right types, and \<open>valid_...\<close> is what \<open>Field\<close>, \<open>Literal\<close> and \<open>pattern\<close> demand of it.
  Message contents are Unicode text; names and codes are strings.
\<close>

definition len_between :: "nat \<Rightarrow> nat \<Rightarrow> 'a list \<Rightarrow> bool" where
  "len_between lo hi s \<longleftrightarrow> lo \<le> length s \<and> length s \<le> hi"

datatype chat_role = SystemRole | UserRole | AssistantRole

fun role_value :: "chat_role \<Rightarrow> string" where
  "role_value SystemRole = ''system''"
| "role_value UserRole = ''user''"
| "role_value AssistantRole = ''assistant''"

record chat_message =
  cm_role :: chat_role
  cm_content :: unicode

record chat_completion_request =
  cc_model :: string
  cc_messages :: "chat_message list"
  cc_stream :: bool
  cc_max_tokens :: int
  cc_temperature :: rat

definition valid_chat_message :: "chat_message \<Rightarrow> bool" where
  "valid_chat_message m \<longleftrightarrow> len_between 1 100000 (cm_content m) \<and> is_text (cm_content m)"

definition valid_chat_completion_request :: "chat_completion_request \<Rightarrow> bool" where
  "valid_chat_completion_request p \<longleftrightarrow>
     len_between 1 64 (cc_model p)
     \<and> len_between 1 256 (cc_messages p) \<and> list_all valid_chat_message (cc_messages p)
     \<and> in_range 1 4096 (cc_max_tokens p)
     \<and> 0 \<le> cc_temperature p \<and> cc_temperature p \<le> 2"

text \<open>\<open>payload.model_dump(mode="json")\<close>.\<close>

definition dump_chat_completion_request :: "chat_completion_request \<Rightarrow> json" where
  "dump_chat_completion_request p = JObj
     [(''model'', JStr (cc_model p)),
      (''messages'', JArr (map (\<lambda>m. JObj [(''role'', JStr (role_value (cm_role m))),
                                        (''content'', JText (cm_content m))]) (cc_messages p))),
      (''stream'', JBool (cc_stream p)),
      (''max_tokens'', JNum (of_int (cc_max_tokens p))),
      (''temperature'', JNum (cc_temperature p))]"

record api_key_create_request =
  kc_project_id :: uuid
  kc_environment :: string
  kc_name :: "string option"
  kc_scopes :: "string list"
  kc_expires_at :: "instant option"
  kc_rpm_limit :: int
  kc_daily_req_limit :: int

definition valid_api_key_create_request :: "api_key_create_request \<Rightarrow> bool" where
  "valid_api_key_create_request p \<longleftrightarrow>
     kc_environment p \<in> {''live'', ''test''}
     \<and> pred_option (len_between 0 128) (kc_name p)
     \<and> len_between 0 32 (kc_scopes p)
     \<and> in_range 1 100000 (kc_rpm_limit p)
     \<and> in_range 1 10000000 (kc_daily_req_limit p)"

record worker_enrollment_create_request =
  wc_expires_in_seconds :: int

definition valid_worker_enrollment_create_request :: "worker_enrollment_create_request \<Rightarrow> bool" where
  "valid_worker_enrollment_create_request p \<longleftrightarrow> in_range 60 86400 (wc_expires_in_seconds p)"

text \<open>\<open>dict[str, object]\<close>.\<close>

fun is_json_object :: "json \<Rightarrow> bool" where
  "is_json_object (JObj kvs) = True"
| "is_json_object _ = False"

record worker_register_request =
  wr_enrollment_token :: string
  wr_provider_type :: string
  wr_name :: string
  wr_supported_models :: "string list"
  wr_capabilities :: json

definition valid_worker_register_request :: "worker_register_request \<Rightarrow> bool" where
  "valid_worker_register_request p \<longleftrightarrow>
     len_between 32 512 (wr_enrollment_token p)
     \<and> wr_provider_type p \<in> {''colab'', ''kaggle'', ''local'', ''docker'', ''dedicated''}
     \<and> len_between 1 128 (wr_name p)
     \<and> len_between 0 128 (wr_supported_models p)
     \<and> is_json_object (wr_capabilities p)"

record worker_heartbeat_request =
  wh_status :: worker_status
  wh_current_queue_depth :: int
  wh_capabilities :: json

definition valid_worker_heartbeat_request :: "worker_heartbeat_request \<Rightarrow> bool" where
  "valid_worker_heartbeat_request p \<longleftrightarrow>
     wh_status p \<in> {ONLINE, DRAINING} \<and> in_range 0 100000 (wh_current_queue_depth p)
     \<and> is_json_object (wh_capabilities p)"

record worker_result_request =
  ws_request_id :: uuid
  ws_result :: json
  ws_input_tokens :: int
  ws_output_tokens :: int
  ws_latency_ms :: int

definition valid_worker_result_request :: "worker_result_request \<Rightarrow> bool" where
  "valid_worker_result_request p \<longleftrightarrow>
     is_json_object (ws_result p) \<and> 0 \<le> ws_input_tokens p \<and> 0 \<le> ws_output_tokens p \<and> 0 \<le> ws_latency_ms p"

record worker_error_request =
  we_request_id :: uuid
  we_retryable :: bool
  we_error_code :: string
  we_message :: string

text \<open>\<open>^[a-z0-9_]+$\<close> and \<open>^[a-z0-9]+(?:-[a-z0-9]+)*$\<close>.\<close>

definition error_code_re :: regex where
  "error_code_re = Plus (Chars (\<lambda>c. is_lower c \<or> is_digit c \<or> c = CHR ''_''))"

definition slug_char :: "char \<Rightarrow> bool" where
  "slug_char c \<longleftrightarrow> is_lower c \<or> is_digit c"

definition slug_re :: regex where
  "slug_re = Seq (Plus (Chars slug_char)) (Star (Seq (Chars ((=) (CHR ''-''))) (Plus (Chars slug_char))))"

definition valid_worker_error_request :: "worker_error_request \<Rightarrow> bool" where
  "valid_worker_error_request p \<longleftrightarrow>
     len_between 1 64 (we_error_code p) \<and> fullmatch error_code_re (we_error_code p)
     \<and> len_between 1 512 (we_message p)"

record project_create_request =
  pc_name :: string
  pc_slug :: string
  pc_owner_id :: uuid
  pc_daily_token_limit :: int
  pc_monthly_token_limit :: int

definition valid_project_create_request :: "project_create_request \<Rightarrow> bool" where
  "valid_project_create_request p \<longleftrightarrow>
     len_between 1 128 (pc_name p)
     \<and> len_between 3 64 (pc_slug p) \<and> fullmatch slug_re (pc_slug p)
     \<and> 1 \<le> pc_daily_token_limit p \<and> 1 \<le> pc_monthly_token_limit p"

record model_alias_create_request =
  mc_alias :: string
  mc_display_name :: "string option"
  mc_model_id :: string
  mc_min_vram_gb :: "rat option"
  mc_required_capabilities :: json
  mc_supports_streaming :: bool
  mc_supports_tools :: bool
  mc_max_context_tokens :: int

definition valid_model_alias_create_request :: "model_alias_create_request \<Rightarrow> bool" where
  "valid_model_alias_create_request p \<longleftrightarrow>
     len_between 1 64 (mc_alias p) \<and> fullmatch slug_re (mc_alias p)
     \<and> pred_option (len_between 0 128) (mc_display_name p)
     \<and> len_between 1 256 (mc_model_id p)
     \<and> pred_option (\<lambda>x. 0 \<le> x) (mc_min_vram_gb p)
     \<and> is_json_object (mc_required_capabilities p)
     \<and> in_range 128 2000000 (mc_max_context_tokens p)"

section \<open>Slugs\<close>

text \<open>
  A left-to-right scanner of slugs, the reference for the pattern: the flag says that a letter
  or digit must come next.
\<close>

fun slug_scan :: "bool \<Rightarrow> string \<Rightarrow> bool" where
  "slug_scan need [] = (\<not> need)"
| "slug_scan need (c # cs) =
     (if slug_char c then slug_scan False cs else c = CHR ''-'' \<and> \<not> need \<and> slug_scan True cs)"

abbreviation slug_group :: regex where
  "slug_group \<equiv> Seq (Chars ((=) (CHR ''-''))) (Plus (Chars slug_char))"

lemma hyphen_not_slug_char: "\<not> slug_char (CHR ''-'')"
  by (simp add: slug_char_def is_lower_def is_digit_def)

lemma slug_tail:
  "(s \<in> lang (Seq (Star (Chars slug_char)) (Star slug_group)) \<longleftrightarrow> slug_scan False s)
   \<and> (s \<in> lang slug_re \<longleftrightarrow> slug_scan True s)"
proof (induction s)
  case Nil
  have "[] \<in> lang (Star r)" for r by (simp add: flip: nullable_iff)
  then have "[] \<in> lang (Seq (Star (Chars slug_char)) (Star slug_group))"
    by (auto simp: lang_Seq_iff)
  moreover have "[] \<notin> lang slug_re"
    by (simp add: slug_re_def Plus_def flip: nullable_iff)
  ultimately show ?case by simp
next
  case (Cons c s)
  let ?tail = "Seq (Star (Chars slug_char)) (Star slug_group)"
  have empty: "lang (Seq Never r) = {}" "lang (Seq Epsilon r) = lang r" for r
    by (auto simp: lang_Seq_iff)
  have assoc: "u \<in> lang (Seq (Seq r t) v) \<longleftrightarrow> u \<in> lang (Seq r (Seq t v))" for u r t v
    unfolding lang_Seq_iff by (metis append.assoc)
  have "c # s \<in> lang slug_re \<longleftrightarrow> slug_char c \<and> s \<in> lang ?tail"
    unfolding slug_re_def Plus_def assoc lang_Seq_Chars by simp
  moreover have "c # s \<in> lang ?tail \<longleftrightarrow>
      (slug_char c \<and> s \<in> lang ?tail) \<or> (c = CHR ''-'' \<and> s \<in> lang slug_re)"
  proof -
    have "c # s \<in> lang ?tail \<longleftrightarrow> s \<in> lang (deriv c ?tail)" by (simp only: deriv_lang)
    also have "\<dots> \<longleftrightarrow> s \<in> lang (Seq (Seq (deriv c (Chars slug_char)) (Star (Chars slug_char))) (Star slug_group))
        \<or> s \<in> lang (Seq (deriv c slug_group) (Star slug_group))"
      by (simp only: deriv.simps nullable.simps if_True lang.simps Un_iff)
    also have "s \<in> lang (Seq (Seq (deriv c (Chars slug_char)) (Star (Chars slug_char))) (Star slug_group))
        \<longleftrightarrow> slug_char c \<and> s \<in> lang ?tail"
      unfolding assoc by (cases "slug_char c") (simp_all add: empty)
    also have "s \<in> lang (Seq (deriv c slug_group) (Star slug_group)) \<longleftrightarrow> c = CHR ''-'' \<and> s \<in> lang slug_re"
      by (cases "c = CHR ''-''") (simp_all add: assoc empty slug_re_def)
    finally show ?thesis .
  qed
  ultimately show ?case using Cons hyphen_not_slug_char by auto
qed

section \<open>Properties\<close>

text \<open>The slug pattern of projects and model aliases accepts exactly what a simple scanner
  does: lower-case letters, digits and hyphens, where a hyphen never starts, never ends and never
  follows another.\<close>

theorem slug_pattern_equivalence:
  "fullmatch slug_re s = slug_scan True s"
  using slug_tail [of s] by (simp add: fullmatch_iff)

end
