(* ===== verification/Idempotency.thy ===== *)
theory Idempotency
  imports Regex
begin

text \<open>
  \<open>services/idempotency.py\<close>: the validation of the \<open>Idempotency-Key\<close> header, which reaches the
  function decoded as Latin-1.
\<close>

definition idempotency_char :: "char \<Rightarrow> bool" where
  "idempotency_char c \<longleftrightarrow> is_alnum c \<or> c \<in> set ''._:-''"

text \<open>\<open>_IDEMPOTENCY_RE\<close>: \<open>^[A-Za-z0-9._:-]{8,128}$\<close>.\<close>

definition idempotency_re :: regex where
  "idempotency_re = Between 8 128 (Chars idempotency_char)"

definition validate_idempotency_key :: "string option \<Rightarrow> string option result" where
  "validate_idempotency_key value =
     (case value of
        None \<Rightarrow> Inr None
      | Some v \<Rightarrow>
          if \<not> fullmatch idempotency_re v
          then Inl (ValueError ''Idempotency-Key must be 8-128 URL-safe visible characters'')
          else Inr (Some v))"

lemma validate_idempotency_key_Some:
  "validate_idempotency_key (Some v) =
     (if 8 \<le> length v \<and> length v \<le> 128 \<and> list_all idempotency_char v then Inr (Some v)
      else Inl (ValueError ''Idempotency-Key must be 8-128 URL-safe visible characters''))"
  by (simp add: validate_idempotency_key_def idempotency_re_def fullmatch_iff lang_Between_Chars)

lemma validate_idempotency_key_None: "validate_idempotency_key None = Inr None"
  by (simp add: validate_idempotency_key_def)

lemma validate_idempotency_key_Inr:
  "validate_idempotency_key given = Inr key \<longleftrightarrow>
     key = given \<and> (\<forall>v. given = Some v \<longrightarrow>
       8 \<le> length v \<and> length v \<le> 128 \<and> list_all idempotency_char v)"
  by (cases given) (auto simp: validate_idempotency_key_None validate_idempotency_key_Some)

section \<open>Properties\<close>

text \<open>A key passes exactly when it has 8 to 128 characters of \<open>[A-Za-z0-9._:-]\<close>, and it is
  returned as it was sent; no key passes as no key. The class contains the colon, which is not
  among the unreserved URL characters the message speaks of, and leaves out the tilde, which is.\<close>

theorem idempotency_key_spec:
  "validate_idempotency_key None = Inr None
   \<and> validate_idempotency_key (Some v) =
      (if 8 \<le> length v \<and> length v \<le> 128 \<and> list_all (\<lambda>c. is_alnum c \<or> c \<in> set ''._:-'') v
       then Inr (Some v)
       else Inl (ValueError ''Idempotency-Key must be 8-128 URL-safe visible characters''))
   \<and> validate_idempotency_key (Some ''::::::::'') = Inr (Some ''::::::::'')
   \<and> validate_idempotency_key (Some ''abcdefg~'') =
       Inl (ValueError ''Idempotency-Key must be 8-128 URL-safe visible characters'')"
  unfolding validate_idempotency_key_None validate_idempotency_key_Some
  by (simp add: idempotency_char_def [abs_def] is_alnum_def is_upper_def is_lower_def is_digit_def)

end
