(* ===== verification/Queue_Facts.thy ===== *)
theory Queue_Facts
  imports Queue
begin

text \<open>
  What each operation of \<open>services/queue.py\<close> does to the database: which row a claim takes,
  the exact effect on the request table, the tables it leaves alone, and the refinement of
  the request state machine of \<open>Lifecycle\<close>. The lemmas about operations that settle a budget
  are proved for any budget service that meets \<open>budget_contract\<close>.
\<close>

section \<open>Claims\<close>

lemma set_claim_candidates:
  "set (claim_candidates jsonb_contained locked now worker s) =
     {r \<in> set (requests s). claimable jsonb_contained now worker r \<and> rq_id r \<notin> locked}"
  by (auto simp: claim_candidates_def)

lemma claim_candidates_hd:
  assumes "claim_candidates jsonb_contained locked now worker s = r # rs"
  shows "r \<in> set (requests s)" and "claimable jsonb_contained now worker r" and "rq_id r \<notin> locked"
    and "\<And>q. q \<in> set (requests s) \<Longrightarrow> claimable jsonb_contained now worker q \<Longrightarrow>
           rq_id q \<notin> locked \<Longrightarrow> claim_order r \<le> claim_order q"
proof -
  have "r \<in> set (claim_candidates jsonb_contained locked now worker s)" by (simp add: assms)
  then show "r \<in> set (requests s)" and "claimable jsonb_contained now worker r" and "rq_id r \<notin> locked"
    by (simp_all add: set_claim_candidates)
  have "sorted (map claim_order (claim_candidates jsonb_contained locked now worker s))"
    by (simp add: claim_candidates_def)
  then have least: "claim_order r \<le> claim_order q" if "q \<in> set (r # rs)" for q
    using that by (auto simp: assms)
  fix q
  assume "q \<in> set (requests s)" "claimable jsonb_contained now worker q" "rq_id q \<notin> locked"
  then have "q \<in> set (claim_candidates jsonb_contained locked now worker s)"
    by (simp add: set_claim_candidates)
  with least assms show "claim_order r \<le> claim_order q" by simp
qed

definition assign_row :: "instant \<Rightarrow> worker \<Rightarrow> int \<Rightarrow> orbi_request \<Rightarrow> orbi_request" where
  "assign_row now worker lease_seconds r =
     r\<lparr>rq_status := ASSIGNED, rq_assigned_to := Some (wk_id worker),
       rq_lease_expires := Some (now + seconds lease_seconds)\<rparr>"

lemma claim_next_Some:
  "claim_next jsonb_contained locked now worker lease s = (Some r', s') \<longleftrightarrow>
     (\<exists>r rs. claim_candidates jsonb_contained locked now worker s = r # rs \<and>
        r' = assign_row now worker lease r \<and> s' = set_request r' s)"
  by (auto simp: claim_next_def assign_row_def Let_def split: list.splits)

lemma claim_next_None:
  "claim_next jsonb_contained locked now worker lease s = (None, s') \<longleftrightarrow>
     s' = s \<and> (\<forall>r\<in>set (requests s). claimable jsonb_contained now worker r \<longrightarrow> rq_id r \<in> locked)"
proof -
  have "claim_candidates jsonb_contained locked now worker s = [] \<longleftrightarrow>
      (\<forall>r\<in>set (requests s). claimable jsonb_contained now worker r \<longrightarrow> rq_id r \<in> locked)"
    using set_claim_candidates [of jsonb_contained locked now worker s] by (auto simp flip: set_empty)
  then show ?thesis
    by (auto simp: claim_next_def Let_def split: list.splits)
qed

lemma set_request_frame [simp]:
  "projects (set_request r s) = projects s" "api_keys (set_request r s) = api_keys s"
  "workers (set_request r s) = workers s" "usage_records (set_request r s) = usage_records s"
  "model_aliases (set_request r s) = model_aliases s" "incidents (set_request r s) = incidents s"
  "enrollment_tokens (set_request r s) = enrollment_tokens s"
  by (simp_all add: set_request_def)

lemma requests_set_request:
  "requests (set_request r s) = update_where (\<lambda>q. rq_id q = rq_id r) (\<lambda>_. r) (requests s)"
  by (simp add: set_request_def)

definition claim_rows :: "orbi_request list \<Rightarrow> orbi_request list \<Rightarrow> bool" where
  "claim_rows rows rows' \<longleftrightarrow>
     (\<exists>jsonb_contained locked now worker lease s result s'.
        claim_next jsonb_contained locked now worker lease s = (result, s') \<and>
        requests s = rows \<and> requests s' = rows')"

interpretation claims: lifecycle_operation claim_rows
proof
  fix rows rows' assume "claim_rows rows rows'" and wf: "wf_requests rows"
  then obtain jsonb_contained locked now worker lease s result s' where
    claim: "claim_next jsonb_contained locked now worker lease s = (result, s')"
    and rows: "requests s = rows" "requests s' = rows'"
    by (auto simp: claim_rows_def)
  show "list_all2 request_steps rows rows'"
  proof (cases result)
    case None
    with claim rows show ?thesis by (simp add: claim_next_None list_all2_same)
  next
    case (Some r')
    then obtain r rs where cand: "claim_candidates jsonb_contained locked now worker s = r # rs"
      and r': "r' = assign_row now worker lease r" "s' = set_request r' s"
      using claim by (auto simp: claim_next_Some)
    from claim_candidates_hd [OF cand] have "r \<in> set rows" and "rq_status r = QUEUED"
      using rows by (auto simp: claimable_def)
    then show ?thesis
      using rewrite_row_steps [OF wf, of r r'] rows r' request_step.claim
      by (simp add: requests_set_request assign_row_def)
  qed
qed

section \<open>Operations that settle a budget\<close>

lemma count_completion_frame:
  "count_completion k n s = Inr s' \<Longrightarrow> s' = s\<lparr>api_keys := api_keys s'\<rparr>"
  by (auto simp: count_completion_def Let_def split: if_splits)

lemma count_completion_tables:
  assumes "count_completion k n s = Inr s'"
  shows "requests s' = requests s" and "projects s' = projects s"
    and "usage_records s' = usage_records s" and "workers s' = workers s"
    and "map ak_id (api_keys s') = map ak_id (api_keys s)"
  using assms by (auto simp: count_completion_def Let_def split: if_splits intro!: map_update_where)

lemma insert_usage_Inr:
  "insert_usage u s = Inr s' \<longleftrightarrow>
     fits_int4 (ur_input_tokens u) \<and> fits_int4 (ur_output_tokens u) \<and>
     pred_option fits_int4 (ur_latency_ms u) \<and>
     ur_id u \<notin> ur_id ` set (usage_records s) \<and>
     ur_request_id u \<notin> ur_request_id ` set (usage_records s) \<and>
     s' = s\<lparr>usage_records := usage_records s @ [u]\<rparr>"
  by (auto simp: insert_usage_def)

lemma commit_result_DataError:
  "\<not> (fits_int4 input_tokens \<and> fits_int4 output_tokens) \<Longrightarrow>
   commit_result svc now uid rec req worker result input_tokens output_tokens lat s = Inl DataError"
  by (simp add: commit_result_def)

lemma commit_result_False:
  "commit_result svc now uid rec req worker result i n lat s = Inr (False, s') \<longleftrightarrow>
     fits_int4 i \<and> fits_int4 n \<and> s' = s \<and> filter (held_by req worker) (requests s) = []"
proof -
  have none: "update_where P f rows = rows" if "filter P rows = []" for P f and rows :: "orbi_request list"
    using that by (intro update_where_none) (auto simp: filter_empty_conv)
  show ?thesis
    unfolding commit_result_def Let_def
    by (auto simp: result_simps none split: option.splits)
qed

lemma commit_result_True:
  "commit_result svc now uid rec req worker result i n lat s = Inr (True, s') \<longleftrightarrow>
     fits_int4 i \<and> fits_int4 n \<and>
     (\<exists>row s2 s3. filter (held_by req worker) (requests s) = [row] \<and>
        bs_reconcile svc (rq_project_id row) (rq_reserved_tokens row) (i + n)
          (rq_budget_day row) (rq_budget_month row)
          (s\<lparr>requests := update_where (held_by req worker) (complete_request now result i n)
               (requests s)\<rparr>) = Inr s2 \<and>
        count_completion (rq_api_key_id row) (i + n) s2 = Inr s3 \<and>
        insert_usage (usage_row uid rec req worker row i n lat) s3 = Inr s')"
  unfolding commit_result_def Let_def
  by (auto simp: result_simps split: option.splits)

lemma record_error_False:
  "record_error svc req worker retryable c m s = Inr (False, s') \<longleftrightarrow>
     s' = s \<and> filter (held_by req worker) (requests s) = []"
  by (auto simp: record_error_def result_simps Let_def split: option.splits if_splits)

definition errored_row :: "string \<Rightarrow> string \<Rightarrow> orbi_request \<Rightarrow> orbi_request" where
  "errored_row c m r = r\<lparr>rq_error_detail := Some (error_detail c m),
     rq_assigned_to := None, rq_lease_expires := None\<rparr>"

lemma record_error_True:
  "record_error svc req worker retryable c m s = Inr (True, s') \<longleftrightarrow>
     (\<exists>row. filter (held_by req worker) (requests s) = [row] \<and>
        (if retryable \<and> retry_left row
         then s' = set_request ((errored_row c m row)
                \<lparr>rq_retry_count := rq_retry_count row + 1, rq_status := QUEUED\<rparr>) s
         else bs_release svc (rq_project_id row) (rq_reserved_tokens row)
                (rq_budget_day row) (rq_budget_month row)
                (set_request ((errored_row c m row)\<lparr>rq_status := FAILED_FINAL\<rparr>) s) = Inr s'))"
  by (auto simp: record_error_def result_simps Let_def errored_row_def retry_left_def
      split: option.splits if_splits)

definition recovered_rows :: "instant \<Rightarrow> orbi_request list \<Rightarrow> orbi_request list" where
  "recovered_rows now rows =
     update_where (queue_expired now) expire_row
       (update_where (\<lambda>r. lease_expired now r \<and> \<not> retry_left r) exhaust_row
         (update_where (\<lambda>r. lease_expired now r \<and> retry_left r) requeue_row rows))"

definition released_rows :: "instant \<Rightarrow> orbi_request list \<Rightarrow> orbi_request list" where
  "released_rows now rows =
     (let rows1 = update_where (\<lambda>r. lease_expired now r \<and> retry_left r) requeue_row rows;
          rows2 = update_where (\<lambda>r. lease_expired now r \<and> \<not> retry_left r) exhaust_row rows1
      in filter (\<lambda>r. lease_expired now r \<and> \<not> retry_left r) rows1 @ filter (queue_expired now) rows2)"

lemma recover_Inr:
  "recover_expired_leases svc now s = Inr (n, s') \<longleftrightarrow>
     n = length (filter (\<lambda>r. lease_expired now r \<and> retry_left r) (requests s)) \<and>
     fold_result (release_row svc) (released_rows now (requests s))
       (s\<lparr>requests := recovered_rows now (requests s)\<rparr>) = Inr s'"
  by (auto simp: recover_expired_leases_def recovered_rows_def released_rows_def Let_def result_simps)

context budget_contract
begin

lemma reconcile_same_tables:
  assumes "bs_reconcile svc pid r a d m s = Inr s'"
  shows "requests s' = requests s" and "api_keys s' = api_keys s"
    and "usage_records s' = usage_records s" and "workers s' = workers s"
    and "model_aliases s' = model_aliases s" and "enrollment_tokens s' = enrollment_tokens s"
  by (subst reconcile_frame [OF assms], simp)+

lemma release_same_tables:
  assumes "bs_release svc pid r d m s = Inr s'"
  shows "requests s' = requests s" and "api_keys s' = api_keys s"
    and "usage_records s' = usage_records s" and "workers s' = workers s"
    and "model_aliases s' = model_aliases s" and "enrollment_tokens s' = enrollment_tokens s"
    and "map pj_id (projects s') = map pj_id (projects s)"
  using assms unfolding release_eq by (auto dest: reconcile_same_tables reconcile_keys)

lemma commit_requests:
  assumes "commit_result svc now uid rec req worker result i n lat s = Inr (b, s')"
  shows "requests s' = update_where (held_by req worker) (complete_request now result i n) (requests s)"
proof (cases b)
  case True
  let ?s1 = "s\<lparr>requests :=
    update_where (held_by req worker) (complete_request now result i n) (requests s)\<rparr>"
  from assms True obtain row s2 s3 where
    rec: "bs_reconcile svc (rq_project_id row) (rq_reserved_tokens row) (i + n)
       (rq_budget_day row) (rq_budget_month row) ?s1 = Inr s2"
    and cnt: "count_completion (rq_api_key_id row) (i + n) s2 = Inr s3"
    and ins: "insert_usage (usage_row uid rec req worker row i n lat) s3 = Inr s'"
    by (auto simp: commit_result_True)
  from ins have "requests s' = requests s3" by (auto simp: insert_usage_Inr)
  with reconcile_same_tables(1) [OF rec] count_completion_tables(1) [OF cnt] show ?thesis by simp
next
  case False
  with assms have none: "filter (held_by req worker) (requests s) = []" and "s' = s"
    by (simp_all add: commit_result_False)
  then show ?thesis by (simp add: update_where_none filter_empty_conv)
qed

lemma release_row_tables:
  assumes "release_row svc r s = Inr s'"
  shows "requests s' = requests s" and "api_keys s' = api_keys s"
    and "usage_records s' = usage_records s" and "workers s' = workers s"
    and "model_aliases s' = model_aliases s" and "enrollment_tokens s' = enrollment_tokens s"
    and "map pj_id (projects s') = map pj_id (projects s)"
  using assms unfolding release_row_def by (auto dest: release_same_tables)

lemma release_rows_tables:
  assumes "fold_result (release_row svc) rs s = Inr s'"
  shows "requests s' = requests s \<and> api_keys s' = api_keys s \<and> usage_records s' = usage_records s
    \<and> workers s' = workers s \<and> map pj_id (projects s') = map pj_id (projects s)"
  by (rule fold_result_invariant [OF assms]) (auto dest: release_row_tables)

lemma recover_requests:
  assumes "recover_expired_leases svc now s = Inr (k, s')"
  shows "requests s' = recovered_rows now (requests s)"
  using assms release_rows_tables by (fastforce simp: recover_Inr)

lemma commit_steps:
  assumes commit: "commit_result svc now uid rec req worker result i n lat s = Inr (b, s')"
    and "0 \<le> i" and "0 \<le> n"
  shows "list_all2 request_steps (requests s) (requests s')"
  unfolding commit_requests [OF commit] using assms(2,3)
  by (intro update_where_steps) (auto simp: held_by_def complete_request_def intro: request_step.complete)

lemma error_steps:
  assumes err: "record_error svc req worker retryable c m s = Inr (b, s')"
    and wf: "wf_requests (requests s)"
  shows "list_all2 request_steps (requests s) (requests s')"
proof (cases b)
  case True
  then obtain row where row: "filter (held_by req worker) (requests s) = [row]"
    and eff: "if retryable \<and> retry_left row
         then s' = set_request ((errored_row c m row)
                \<lparr>rq_retry_count := rq_retry_count row + 1, rq_status := QUEUED\<rparr>) s
         else bs_release svc (rq_project_id row) (rq_reserved_tokens row)
                (rq_budget_day row) (rq_budget_month row)
                (set_request ((errored_row c m row)\<lparr>rq_status := FAILED_FINAL\<rparr>) s) = Inr s'"
    using err by (auto simp: record_error_True)
  from filter_eq_singletonD [OF row] have mem: "row \<in> set (requests s)"
    and held: "in_flight (rq_status row)" "rq_result row = None"
    by (auto simp: held_by_def)
  show ?thesis
  proof (cases "retryable \<and> retry_left row")
    case True
    let ?q = "(errored_row c m row)\<lparr>rq_retry_count := rq_retry_count row + 1, rq_status := QUEUED\<rparr>"
    have "?q = row\<lparr>rq_status := QUEUED, rq_assigned_to := None, rq_lease_expires := None,
        rq_retry_count := rq_retry_count row + 1, rq_error_detail := Some (error_detail c m)\<rparr>"
      by (simp add: errored_row_def)
    with held True have "request_step row ?q"
      by (auto simp: retry_left_def intro: request_step.requeue)
    with rewrite_row_steps [OF wf mem, of ?q] eff True show ?thesis
      by (simp add: requests_set_request errored_row_def)
  next
    case False
    let ?q = "(errored_row c m row)\<lparr>rq_status := FAILED_FINAL\<rparr>"
    have "?q = row\<lparr>rq_status := FAILED_FINAL, rq_assigned_to := None, rq_lease_expires := None,
        rq_error_detail := Some (error_detail c m)\<rparr>"
      by (simp add: errored_row_def)
    with held have "request_step row ?q" by (auto intro: request_step.fail)
    moreover from eff False have "requests s' = requests (set_request ?q s)"
      by (auto dest: release_same_tables)
    ultimately show ?thesis
      using rewrite_row_steps [OF wf mem, of ?q] by (simp add: requests_set_request errored_row_def)
  qed
next
  case False
  with err show ?thesis by (simp add: record_error_False list_all2_same)
qed

end

section \<open>Lease recovery on the request table\<close>

lemma requeue_row_not_expired [simp]: "\<not> lease_expired now (requeue_row r)"
  by (simp add: lease_expired_def requeue_row_def)

lemma recovered_rows_steps: "list_all2 request_steps rows (recovered_rows now rows)"
proof -
  let ?rows1 = "update_where (\<lambda>r. lease_expired now r \<and> retry_left r) requeue_row rows"
  let ?rows2 = "update_where (\<lambda>r. lease_expired now r \<and> \<not> retry_left r) exhaust_row ?rows1"
  have requeue: "request_step r (requeue_row r)" if "lease_expired now r" "retry_left r" for r
    using request_step.requeue [of r "rq_error_detail r"] that
    by (simp add: lease_expired_def requeue_row_def retry_left_def)
  have "list_all2 request_steps rows ?rows1"
    by (rule update_where_steps) (auto intro: requeue)
  moreover have "list_all2 request_steps ?rows1 ?rows2"
    by (rule update_where_steps)
      (auto simp: lease_expired_def exhaust_row_def intro: request_step.fail)
  moreover have "list_all2 request_steps ?rows2 (recovered_rows now rows)"
    unfolding recovered_rows_def
    by (rule update_where_steps)
      (auto simp: queue_expired_def expire_row_def intro: request_step.expire)
  ultimately show ?thesis by (blast intro: request_steps_rows_trans)
qed

definition commit_rows :: "orbi_request list \<Rightarrow> orbi_request list \<Rightarrow> bool" where
  "commit_rows rows rows' \<longleftrightarrow>
     (\<exists>now uid rec req worker result i n lat s b s'.
        commit_result budget_service_impl now uid rec req worker result i n lat s = Inr (b, s') \<and>
        0 \<le> i \<and> 0 \<le> n \<and> requests s = rows \<and> requests s' = rows')"

definition error_rows :: "orbi_request list \<Rightarrow> orbi_request list \<Rightarrow> bool" where
  "error_rows rows rows' \<longleftrightarrow>
     (\<exists>req worker retryable c m s b s'.
        record_error budget_service_impl req worker retryable c m s = Inr (b, s') \<and>
        requests s = rows \<and> requests s' = rows')"

definition recover_rows :: "orbi_request list \<Rightarrow> orbi_request list \<Rightarrow> bool" where
  "recover_rows rows rows' \<longleftrightarrow>
     (\<exists>now s k s'. recover_expired_leases budget_service_impl now s = Inr (k, s') \<and>
        requests s = rows \<and> requests s' = rows')"

interpretation commits: lifecycle_operation commit_rows
  by standard (auto simp: commit_rows_def dest: budget.commit_steps)

interpretation worker_errors: lifecycle_operation error_rows
  by standard (auto simp: error_rows_def dest: budget.error_steps)

interpretation recovery: lifecycle_operation recover_rows
  by standard (auto simp: recover_rows_def recovered_rows_steps dest!: budget.recover_requests)

end
