(* ===== verification/Ledger.thy ===== *)
theory Ledger
  imports Queue_Facts
begin

text \<open>
  The accounting invariant that ties \<open>services/budget.py\<close> to \<open>services/queue.py\<close>: the usage
  counters of a project are the sum of what its requests cost in the current period, where an
  open request costs its reservation, a completed one its reported tokens, and a failed or
  expired one nothing. Each lemma is proved once in the \<open>accounting_period\<close> interface of
  \<open>Budget\<close> and holds for the daily and the monthly counter by interpretation.
\<close>

definition charge :: "orbi_request \<Rightarrow> int" where
  "charge r =
     (case rq_status r of
        COMPLETED \<Rightarrow> (case rq_input_tokens r of None \<Rightarrow> 0 | Some n \<Rightarrow> n)
          + (case rq_output_tokens r of None \<Rightarrow> 0 | Some n \<Rightarrow> n)
      | FAILED_FINAL \<Rightarrow> 0
      | CANCELLED \<Rightarrow> 0
      | EXPIRED \<Rightarrow> 0
      | _ \<Rightarrow> rq_reserved_tokens r)"

definition posting_of :: "orbi_request \<Rightarrow> posting" where
  "posting_of r = (rq_project_id r, (rq_budget_day r, rq_budget_month r), charge r)"

definition postings :: "orbi_request list \<Rightarrow> posting list" where
  "postings rows = map posting_of rows"

text \<open>What \<open>release\<close> gives back for a row: its reservation.\<close>

definition refund_of :: "orbi_request \<Rightarrow> posting" where
  "refund_of r = (rq_project_id r, (rq_budget_day r, rq_budget_month r), rq_reserved_tokens r)"

lemma charge_open: "rq_status r = QUEUED \<or> in_flight (rq_status r) \<Longrightarrow> charge r = rq_reserved_tokens r"
  by (cases "rq_status r") (simp_all add: charge_def)

lemma charge_nonneg: "wf_request r \<Longrightarrow> 0 \<le> charge r"
  by (auto simp: wf_request_def charge_def split: request_status.splits)

lemma postings_nonneg: "wf_requests rows \<Longrightarrow> \<forall>(i, dm, a)\<in>set (postings rows). 0 \<le> a"
  by (auto simp: postings_def posting_of_def charge_nonneg dest: wf_requestsD)

lemma posted_postings:
  "posted pick pid d (postings rows) =
     (\<Sum>r\<leftarrow>rows. if rq_project_id r = pid \<and> pick (rq_budget_day r, rq_budget_month r) = d
                then charge r else 0)"
  by (induction rows) (auto simp: postings_def posting_of_def)

text \<open>
  Rewriting rows without touching the project and the period moves the difference of the
  charges into separate postings.
\<close>

lemma posted_update_where:
  assumes "\<And>r. r \<in> set rows \<Longrightarrow> P r \<Longrightarrow>
    posting_of r = (rq_project_id (f r), (rq_budget_day (f r), rq_budget_month (f r)), charge r)"
  shows "posted pick pid d (postings rows) =
    posted pick pid d (postings (update_where P f rows)
      @ map (\<lambda>r. (rq_project_id r, (rq_budget_day r, rq_budget_month r), charge r - charge (f r)))
          (filter P rows))"
  using assms
  by (induction rows) (auto simp: postings_def posting_of_def update_where_def)

context accounting_period
begin

lemma balanced_cong:
  assumes "\<And>pid d. posted pick pid d xs = posted pick pid d ys"
  shows "balanced ps xs \<longleftrightarrow> balanced ps ys"
  using assms by (simp add: balanced_def)

lemma balanced_update_where:
  assumes bal: "balanced ps (postings rows)"
    and keep: "\<And>r. r \<in> set rows \<Longrightarrow> P r \<Longrightarrow>
      posting_of r = (rq_project_id (f r), (rq_budget_day (f r), rq_budget_month (f r)), charge r)"
    and diff: "\<And>r. r \<in> set rows \<Longrightarrow> P r \<Longrightarrow> charge r - charge (f r) = g r"
  shows "balanced ps (postings (update_where P f rows)
    @ map (\<lambda>r. (rq_project_id r, (rq_budget_day r, rq_budget_month r), g r)) (filter P rows))"
proof -
  have eq: "map (\<lambda>r. (rq_project_id r, (rq_budget_day r, rq_budget_month r), charge r - charge (f r)))
      (filter P rows) =
    map (\<lambda>r. (rq_project_id r, (rq_budget_day r, rq_budget_month r), g r)) (filter P rows)"
    using diff by simp
  have "posted pick pid d (postings rows) = posted pick pid d (postings (update_where P f rows)
      @ map (\<lambda>r. (rq_project_id r, (rq_budget_day r, rq_budget_month r), g r)) (filter P rows))" for pid d
    using posted_update_where [of rows P f pick pid d, OF keep] unfolding eq by blast
  from balanced_cong [OF this] bal show ?thesis by blast
qed

lemma balanced_same_charge:
  assumes bal: "balanced ps (postings rows)"
    and keep: "\<And>r. r \<in> set rows \<Longrightarrow> P r \<Longrightarrow> posting_of (f r) = posting_of r"
  shows "balanced ps (postings (update_where P f rows))"
proof -
  have "postings (update_where P f rows) = postings rows"
    using keep by (simp add: postings_def map_update_where)
  with bal show ?thesis by simp
qed

lemma release_rows_balanced:
  assumes "fold_result (release_row budget_service_impl) rs s = Inr s'"
    and "balanced (projects s) (xs @ map refund_of rs)"
    and "\<forall>(i, dm, a)\<in>set xs. 0 \<le> a" and "\<forall>r\<in>set rs. 0 \<le> rq_reserved_tokens r"
  shows "balanced (projects s') xs"
  using assms
proof (induction rs arbitrary: s)
  case Nil
  then show ?case by simp
next
  case (Cons r rs)
  then obtain u where first: "release_row budget_service_impl r s = Inr u"
    and rest: "fold_result (release_row budget_service_impl) rs u = Inr s'"
    by (auto simp: result_simps)
  from first have rec: "reconcile (rq_project_id r) (rq_reserved_tokens r) 0
      (rq_budget_day r) (rq_budget_month r) s = Inr u"
    by (simp add: release_row_def budget_service_impl_def release_def)
  have "balanced (projects s) ((xs @ map refund_of rs) @
      [(rq_project_id r, (rq_budget_day r, rq_budget_month r), rq_reserved_tokens r - 0)])"
    using Cons.prems(2) by (simp add: balanced_def refund_of_def [of r] add.commute add.left_commute)
  moreover have "\<forall>(i, dm, a)\<in>set (xs @ map refund_of rs). 0 \<le> a"
    using Cons.prems(3,4) by (auto simp: refund_of_def)
  ultimately have "balanced (projects u) (xs @ map refund_of rs)"
    by (rule reconcile_balanced [OF rec])
  with rest Cons show ?case by simp
qed

lemma claim_balanced:
  assumes claim: "claim_next jsonb_contained locked now worker lease s = (result, s')"
    and bal: "balanced (projects s) (postings (requests s))" and wf: "wf_requests (requests s)"
  shows "balanced (projects s') (postings (requests s'))"
proof (cases result)
  case None
  with claim bal show ?thesis by (simp add: claim_next_None)
next
  case (Some r')
  then obtain r rs where cand: "claim_candidates jsonb_contained locked now worker s = r # rs"
    and r': "r' = assign_row now worker lease r" "s' = set_request r' s"
    using claim by (auto simp: claim_next_Some)
  from claim_candidates_hd [OF cand] have r: "r \<in> set (requests s)" "rq_status r = QUEUED"
    by (auto simp: claimable_def)
  have "posting_of r' = posting_of q" if "q \<in> set (requests s)" "rq_id q = rq_id r'" for q
  proof -
    have "q = r" using that r wf by (auto simp: wf_requests_def r' assign_row_def dest: distinct_key_eq)
    with r show ?thesis by (simp add: posting_of_def r' assign_row_def charge_def)
  qed
  then show ?thesis
    unfolding r' requests_set_request set_request_frame
    by (intro balanced_same_charge [OF bal]) (auto simp: r')
qed

lemma commit_balanced:
  assumes commit: "commit_result budget_service_impl now uid rec req worker result i n lat s = Inr (b, s')"
    and bal: "balanced (projects s) (postings (requests s))" and wf: "wf_requests (requests s)"
    and tokens: "0 \<le> i" "0 \<le> n"
  shows "balanced (projects s') (postings (requests s'))"
proof (cases b)
  case False
  with commit bal show ?thesis by (simp add: commit_result_False)
next
  case True
  let ?rows1 = "update_where (held_by req worker) (complete_request now result i n) (requests s)"
  let ?s1 = "s\<lparr>requests := ?rows1\<rparr>"
  from True commit obtain row s2 s3 where
    row: "filter (held_by req worker) (requests s) = [row]"
    and rec: "reconcile (rq_project_id row) (rq_reserved_tokens row) (i + n)
       (rq_budget_day row) (rq_budget_month row) ?s1 = Inr s2"
    and cnt: "count_completion (rq_api_key_id row) (i + n) s2 = Inr s3"
    and ins: "insert_usage (usage_row uid rec req worker row i n lat) s3 = Inr s'"
    by (auto simp: commit_result_True budget_service_impl_def)
  have rows: "requests s' = ?rows1" by (rule budget.commit_requests [OF commit])
  have "balanced (projects s) (postings ?rows1 @ map (\<lambda>r. (rq_project_id r,
      (rq_budget_day r, rq_budget_month r), rq_reserved_tokens r - (i + n)))
      (filter (held_by req worker) (requests s)))"
    by (rule balanced_update_where [OF bal])
      (auto simp: posting_of_def complete_request_def held_by_def charge_open,
       auto simp: charge_def)
  then have "balanced (projects ?s1) (postings ?rows1 @
      [(rq_project_id row, (rq_budget_day row, rq_budget_month row), rq_reserved_tokens row - (i + n))])"
    by (simp add: row)
  moreover have "\<forall>(i, dm, a)\<in>set (postings ?rows1). 0 \<le> a"
    using postings_nonneg commits.keeps_wf [OF _ wf] commit tokens rows
    unfolding commit_rows_def by metis
  ultimately have "balanced (projects s2) (postings ?rows1)"
    by (rule reconcile_balanced [OF rec])
  moreover have "projects s' = projects s2"
    using ins count_completion_tables(2) [OF cnt] by (simp add: insert_usage_Inr)
  ultimately show ?thesis by (simp add: rows)
qed

lemma error_balanced:
  assumes err: "record_error budget_service_impl req worker retryable c m s = Inr (b, s')"
    and bal: "balanced (projects s) (postings (requests s))" and wf: "wf_requests (requests s)"
  shows "balanced (projects s') (postings (requests s'))"
proof (cases b)
  case False
  with err bal show ?thesis by (simp add: record_error_False)
next
  case True
  then obtain row where row: "filter (held_by req worker) (requests s) = [row]"
    and eff: "if retryable \<and> retry_left row
         then s' = set_request ((errored_row c m row)
                \<lparr>rq_retry_count := rq_retry_count row + 1, rq_status := QUEUED\<rparr>) s
         else bs_release budget_service_impl (rq_project_id row) (rq_reserved_tokens row)
                (rq_budget_day row) (rq_budget_month row)
                (set_request ((errored_row c m row)\<lparr>rq_status := FAILED_FINAL\<rparr>) s) = Inr s'"
    using err by (auto simp: record_error_True)
  from filter_eq_singletonD [OF row] have mem: "row \<in> set (requests s)"
    and held: "in_flight (rq_status row)" by (auto simp: held_by_def)
  have only: "q = row" if "q \<in> set (requests s)" "rq_id q = rq_id row" for q
    using that mem wf by (auto simp: wf_requests_def dest: distinct_key_eq)
  show ?thesis
  proof (cases "retryable \<and> retry_left row")
    case True
    with eff show ?thesis
      by (auto simp: requests_set_request errored_row_def posting_of_def charge_open held
          dest!: only intro!: balanced_same_charge [OF bal])
  next
    case False
    let ?q = "(errored_row c m row)\<lparr>rq_status := FAILED_FINAL\<rparr>"
    let ?u = "set_request ?q s"
    from eff have rec: "reconcile (rq_project_id row) (rq_reserved_tokens row) 0
        (rq_budget_day row) (rq_budget_month row) ?u = Inr s'"
      unfolding if_not_P [OF False] by (simp add: budget_service_impl_def release_def)
    have key: "filter (\<lambda>q. rq_id q = rq_id ?q) (requests s) = [row]"
      using filter_key_unique [of rq_id, OF _ mem] wf by (simp add: wf_requests_def errored_row_def)
    have "balanced (projects s) (postings (requests ?u) @ map (\<lambda>r. (rq_project_id r,
        (rq_budget_day r, rq_budget_month r), rq_reserved_tokens r - 0))
        (filter (\<lambda>q. rq_id q = rq_id ?q) (requests s)))"
      unfolding requests_set_request
      by (rule balanced_update_where [OF bal])
        (auto simp: errored_row_def posting_of_def charge_open held dest!: only,
         auto simp: charge_def)
    then have "balanced (projects ?u) (postings (requests ?u) @
        [(rq_project_id row, (rq_budget_day row, rq_budget_month row), rq_reserved_tokens row - 0)])"
      unfolding key by simp
    moreover have "requests s' = requests ?u"
      using reconcile_frame(1) [OF rec] by (metis db.select_convs(6) db.surjective db.update_convs(1))
    moreover have "wf_requests (requests s')"
      using worker_errors.keeps_wf [OF _ wf] err unfolding error_rows_def by blast
    ultimately show ?thesis
      using reconcile_balanced [OF rec] postings_nonneg by metis
  qed
qed

lemma recover_balanced:
  assumes rec: "recover_expired_leases budget_service_impl now s = Inr (k, s')"
    and bal: "balanced (projects s) (postings (requests s))" and wf: "wf_requests (requests s)"
  shows "balanced (projects s') (postings (requests s'))"
proof -
  let ?exhausted = "\<lambda>r. lease_expired now r \<and> \<not> retry_left r"
  define rows1 where
    "rows1 = update_where (\<lambda>r. lease_expired now r \<and> retry_left r) requeue_row (requests s)"
  define rows2 where "rows2 = update_where ?exhausted exhaust_row rows1"
  define rows3 where "rows3 = update_where (queue_expired now) expire_row rows2"
  have rows: "requests s' = rows3"
    using budget.recover_requests [OF rec] by (simp add: recovered_rows_def rows1_def rows2_def rows3_def)
  have released: "released_rows now (requests s) = filter ?exhausted rows1 @ filter (queue_expired now) rows2"
    by (simp add: released_rows_def rows1_def rows2_def Let_def)
  have bal1: "balanced (projects s) (postings rows1)"
    unfolding rows1_def
    by (rule balanced_same_charge [OF bal])
      (auto simp: posting_of_def requeue_row_def lease_expired_def charge_open)
  have bal2: "balanced (projects s) (postings rows2 @ map (\<lambda>r. (rq_project_id r,
      (rq_budget_day r, rq_budget_month r), rq_reserved_tokens r)) (filter ?exhausted rows1))"
    unfolding rows2_def
    by (rule balanced_update_where [OF bal1])
      (auto simp: posting_of_def exhaust_row_def lease_expired_def charge_open, auto simp: charge_def)
  have split3: "posted pick pid d (postings rows2) = posted pick pid d (postings rows3
      @ map refund_of (filter (queue_expired now) rows2))" for pid d
  proof -
    have refunds: "map (\<lambda>r. (rq_project_id r, (rq_budget_day r, rq_budget_month r), charge r - charge (expire_row r)))
        (filter (queue_expired now) rows2) = map refund_of (filter (queue_expired now) rows2)"
      by (auto simp: refund_of_def queue_expired_def expire_row_def charge_open) (simp add: charge_def)
    have keep: "posting_of r = (rq_project_id (expire_row r),
        (rq_budget_day (expire_row r), rq_budget_month (expire_row r)), charge r)" for r
      by (simp add: posting_of_def expire_row_def)
    from posted_update_where [of rows2 "queue_expired now" expire_row pick pid d, OF keep]
    show ?thesis unfolding refunds rows3_def .
  qed
  have refunds: "map (\<lambda>r. (rq_project_id r, (rq_budget_day r, rq_budget_month r), rq_reserved_tokens r))
      (filter ?exhausted rows1) = map refund_of (filter ?exhausted rows1)"
    by (simp add: refund_of_def)
  have bal3: "balanced (projects s)
      (postings rows3 @ map refund_of (released_rows now (requests s)))"
    using bal2 split3 unfolding refunds
    by (simp add: balanced_def released add.commute add.left_commute)
  have wf3: "wf_requests rows3"
    using recovery.keeps_wf [OF _ wf] rec rows unfolding recover_rows_def by metis
  have "\<forall>r\<in>set (requests s). 0 \<le> rq_reserved_tokens r"
    using wf by (auto simp: wf_request_def dest!: wf_requestsD)
  then have r1: "\<forall>r\<in>set rows1. 0 \<le> rq_reserved_tokens r"
    by (auto simp: rows1_def set_update_where requeue_row_def)
  then have "\<forall>r\<in>set rows2. 0 \<le> rq_reserved_tokens r"
    by (auto simp: rows2_def set_update_where exhaust_row_def)
  with r1 have reserved: "\<forall>r\<in>set (released_rows now (requests s)). 0 \<le> rq_reserved_tokens r"
    by (auto simp: released)
  have "balanced (projects s') (postings rows3)"
  proof (rule release_rows_balanced)
    show "fold_result (release_row budget_service_impl) (released_rows now (requests s))
        (s\<lparr>requests := rows3\<rparr>) = Inr s'"
      using rec by (simp add: recover_Inr recovered_rows_def rows1_def rows2_def rows3_def)
    show "balanced (projects (s\<lparr>requests := rows3\<rparr>))
        (postings rows3 @ map refund_of (released_rows now (requests s)))"
      using bal3 by simp
  qed (use wf3 reserved postings_nonneg in auto)
  then show ?thesis by (simp add: rows)
qed

text \<open>The periods: no operation on the queue creates a posting or moves a project's period.\<close>

lemma current_up_to_keys:
  assumes "(\<lambda>(i, dm, a). (i, dm)) ` set ys \<subseteq> (\<lambda>(i, dm, a). (i, dm)) ` set xs"
    and "current_up_to t ps xs"
  shows "current_up_to t ps ys"
  unfolding current_up_to_def
proof (intro ballI, clarify)
  fix p i d m a
  assume p: "p \<in> set ps" and y: "(pj_id p, (d, m), a) \<in> set ys"
  then have "(pj_id p, (d, m)) \<in> (\<lambda>(i, dm, a). (i, dm)) ` set xs" using assms(1) by force
  then obtain b where "(pj_id p, (d, m), b) \<in> set xs" by auto
  with assms(2) p show "pick (d, m) \<le> period p \<and> period p \<le> current t"
    unfolding current_up_to_def by fastforce
qed

lemma current_up_to_rows:
  assumes "map request_identity rows' = map request_identity rows"
    and "current_up_to t ps (postings rows)"
  shows "current_up_to t ps (postings rows')"
proof (rule current_up_to_keys [OF _ assms(2)])
  have "(\<lambda>(i, dm, a). (i, dm)) ` set (postings qs) =
      (\<lambda>(_, _, p, _, _, _, _, _, _, _, _, _, _, d, m). (p, (d, m))) ` set (map request_identity qs)" for qs
    by (force simp: postings_def posting_of_def request_identity_def image_iff)
  moreover have "set (map request_identity rows') = set (map request_identity rows)"
    using assms(1) by (rule arg_cong)
  ultimately show "(\<lambda>(i, dm, a). (i, dm)) ` set (postings rows') \<subseteq>
      (\<lambda>(i, dm, a). (i, dm)) ` set (postings rows)" by (simp only: subset_refl)
qed

lemma commit_current_up_to:
  assumes commit: "commit_result budget_service_impl now uid rec req worker result i n lat s = Inr (b, s')"
    and wf: "wf_requests (requests s)" and tokens: "0 \<le> i" "0 \<le> n"
    and upto: "current_up_to t (projects s) (postings (requests s))"
  shows "current_up_to t (projects s') (postings (requests s'))"
proof -
  have "map request_identity (requests s') = map request_identity (requests s)"
    using commits.keeps_identity [OF _ wf] commit tokens unfolding commit_rows_def by blast
  then have rows: "current_up_to t (projects s) (postings (requests s'))"
    using upto by (rule current_up_to_rows)
  show ?thesis
  proof (cases b)
    case False
    with commit upto show ?thesis by (simp add: commit_result_False)
  next
    case True
    with commit obtain row s2 s3 where
      rec: "reconcile (rq_project_id row) (rq_reserved_tokens row) (i + n)
        (rq_budget_day row) (rq_budget_month row)
        (s\<lparr>requests := update_where (held_by req worker) (complete_request now result i n)
             (requests s)\<rparr>) = Inr s2"
      and cnt: "count_completion (rq_api_key_id row) (i + n) s2 = Inr s3"
      and ins: "insert_usage (usage_row uid rec req worker row i n lat) s3 = Inr s'"
      by (auto simp: commit_result_True budget_service_impl_def)
    moreover have "projects s' = projects s2"
      using ins count_completion_tables(2) [OF cnt] by (simp add: insert_usage_Inr)
    ultimately show ?thesis
      using reconcile_current_up_to [OF rec] rows by simp
  qed
qed

lemma release_current_up_to:
  assumes "bs_release budget_service_impl pid r d m s = Inr s'" and "current_up_to t (projects s) xs"
  shows "current_up_to t (projects s') xs"
  using assms reconcile_current_up_to by (simp add: budget_service_impl_def release_def)

lemma error_current_up_to:
  assumes err: "record_error budget_service_impl req worker retryable c m s = Inr (b, s')"
    and wf: "wf_requests (requests s)"
    and upto: "current_up_to t (projects s) (postings (requests s))"
  shows "current_up_to t (projects s') (postings (requests s'))"
proof -
  have "map request_identity (requests s') = map request_identity (requests s)"
    using worker_errors.keeps_identity [OF _ wf] err unfolding error_rows_def by blast
  then have rows: "current_up_to t (projects s) (postings (requests s'))"
    using upto by (rule current_up_to_rows)
  have "projects s' = projects s \<or>
      (\<exists>pid r d m u. projects u = projects s \<and> bs_release budget_service_impl pid r d m u = Inr s')"
  proof (cases b)
    case False
    with err show ?thesis by (simp add: record_error_False)
  next
    case True
    with err obtain row where "if retryable \<and> retry_left row
         then s' = set_request ((errored_row c m row)
                \<lparr>rq_retry_count := rq_retry_count row + 1, rq_status := QUEUED\<rparr>) s
         else bs_release budget_service_impl (rq_project_id row) (rq_reserved_tokens row)
                (rq_budget_day row) (rq_budget_month row)
                (set_request ((errored_row c m row)\<lparr>rq_status := FAILED_FINAL\<rparr>) s) = Inr s'"
      by (auto simp: record_error_True)
    then show ?thesis using set_request_frame(1) by (metis (full_types))
  qed
  then show ?thesis
  proof (elim disjE exE conjE)
    assume "projects s' = projects s"
    with rows show ?thesis by simp
  next
    fix pid r d m u
    assume "projects u = projects s" and rel: "bs_release budget_service_impl pid r d m u = Inr s'"
    with rows show ?thesis using release_current_up_to [OF rel] by simp
  qed
qed

lemma recover_current_up_to:
  assumes rec: "recover_expired_leases budget_service_impl now s = Inr (k, s')"
    and wf: "wf_requests (requests s)"
    and upto: "current_up_to t (projects s) (postings (requests s))"
  shows "current_up_to t (projects s') (postings (requests s'))"
proof -
  have "map request_identity (requests s') = map request_identity (requests s)"
    using recovery.keeps_identity [OF _ wf] rec unfolding recover_rows_def by blast
  then have "current_up_to t (projects (s\<lparr>requests := recovered_rows now (requests s)\<rparr>))
      (postings (requests s'))"
    using upto by (simp add: current_up_to_rows)
  moreover from rec have "fold_result (release_row budget_service_impl) (released_rows now (requests s))
      (s\<lparr>requests := recovered_rows now (requests s)\<rparr>) = Inr s'"
    by (simp add: recover_Inr)
  ultimately show ?thesis
    by (auto simp: release_row_def intro: release_current_up_to
        elim!: fold_result_invariant [where P = "\<lambda>u. current_up_to t (projects u) (postings (requests s'))"])
qed

lemma claim_current_up_to:
  assumes claim: "claim_next jsonb_contained locked now worker lease s = (result, s')"
    and wf: "wf_requests (requests s)"
    and upto: "current_up_to t (projects s) (postings (requests s))"
  shows "current_up_to t (projects s') (postings (requests s'))"
proof -
  have "map request_identity (requests s') = map request_identity (requests s)"
    using claims.keeps_identity [OF _ wf] claim unfolding claim_rows_def by blast
  moreover have "projects s' = projects s"
    using claim by (cases result) (auto simp: claim_next_None claim_next_Some)
  ultimately show ?thesis using upto by (simp add: current_up_to_rows)
qed

end

end
