(* ===== verification/Queue_Properties.thy ===== *)
theory Queue_Properties
  imports Queue_Facts Samples
begin

text \<open>
  The properties of \<open>services/queue.py\<close>, one operation at a time: what a claim takes, that no
  request is claimed twice, the complete effect of a committed result and of a worker error,
  and what lease recovery leaves behind.
\<close>

section \<open>Claiming\<close>

lemma update_where_id:
  assumes "wf_requests rows" and "r \<in> set rows"
  shows "update_where (\<lambda>q. rq_id q = rq_id r) f rows = map (\<lambda>q. if q = r then f r else q) rows"
proof -
  have "rq_id q = rq_id r \<longleftrightarrow> q = r" if "q \<in> set rows" for q
    using assms that by (auto simp: wf_requests_def dest: distinct_key_eq)
  then show ?thesis by (auto simp: update_where_def)
qed

text \<open>C22. A claim takes an unlocked request that is queued, unexpired and compatible with the
  worker, and among those one with the least priority number and then the earliest creation;
  it assigns that row to the worker with a fresh lease, changes nothing else, and comes back
  empty exactly when there is no such request.\<close>

theorem claim_takes_least:
  assumes "claim_next contained_in locked now worker lease s = (claimed, s')"
    and "wf_requests (requests s)"
  shows "case claimed of
      None \<Rightarrow> s' = s \<and> (\<forall>q\<in>set (requests s). \<not> (claimable contained_in now worker q \<and> rq_id q \<notin> locked))
    | Some r' \<Rightarrow> \<exists>r\<in>set (requests s). claimable contained_in now worker r \<and> rq_id r \<notin> locked
        \<and> (\<forall>q\<in>set (requests s). claimable contained_in now worker q \<and> rq_id q \<notin> locked
             \<longrightarrow> rq_priority r < rq_priority q
               \<or> rq_priority r = rq_priority q \<and> rq_created_at r \<le> rq_created_at q)
        \<and> r' = r\<lparr>rq_status := ASSIGNED, rq_assigned_to := Some (wk_id worker),
                rq_lease_expires := Some (now + seconds lease)\<rparr>
        \<and> s' = s\<lparr>requests := map (\<lambda>q. if q = r then r' else q) (requests s)\<rparr>"
proof (cases claimed)
  case None
  with assms(1) show ?thesis by (auto simp: claim_next_None)
next
  case (Some r')
  then obtain r rs where cand: "claim_candidates contained_in locked now worker s = r # rs"
    and r': "r' = assign_row now worker lease r" "s' = set_request r' s"
    using assms(1) by (auto simp: claim_next_Some)
  note hd = claim_candidates_hd [OF cand]
  have least: "rq_priority r < rq_priority q
      \<or> rq_priority r = rq_priority q \<and> rq_created_at r \<le> rq_created_at q"
    if "q \<in> set (requests s)" "claimable contained_in now worker q \<and> rq_id q \<notin> locked" for q
    using hd(4) [of q] that by (auto simp: claim_order_def)
  have "rq_id r' = rq_id r" by (simp add: r' assign_row_def)
  then have "s' = s\<lparr>requests := map (\<lambda>q. if q = r then r' else q) (requests s)\<rparr>"
    using update_where_id [OF assms(2) hd(1), of "\<lambda>_. r'"] by (simp add: r'(2) set_request_def)
  moreover have "r' = r\<lparr>rq_status := ASSIGNED, rq_assigned_to := Some (wk_id worker),
      rq_lease_expires := Some (now + seconds lease)\<rparr>" by (simp add: r'(1) assign_row_def)
  ultimately show ?thesis
    unfolding Some option.case using hd least by (intro bexI [of _ r]) blast+
qed

theorem claim_takes_least_witness:
  "\<exists>r. claim_next (\<lambda>_ _. True) {8} 0 (sample_worker 3) 120
      (sample_db [sample_request 6 5, sample_request 7 4, sample_request 8 1]) =
      (Some r, (sample_db [sample_request 6 5, r, sample_request 8 1])) \<and> rq_id r = 7"
proof -
  let ?s = "sample_db [sample_request 6 5, sample_request 7 4, sample_request 8 1]"
  obtain c s' where c: "claim_next (\<lambda>_ _. True) {8} 0 (sample_worker 3) 120 ?s = (c, s')" by fastforce
  have wf: "wf_requests (requests ?s)"
    by (simp add: sample_db_def wf_requests_def wf_request_def sample_request_def)
  show ?thesis
    using claim_takes_least [OF c wf] c
    by (auto simp: sample_defs claimable_def split: option.splits)
qed

text \<open>Workers that claim one after the other, under any row locks of third parties.\<close>

fun claim_all ::
  "(json \<Rightarrow> json \<Rightarrow> bool) \<Rightarrow> (uuid set \<times> instant \<times> worker \<times> int) list \<Rightarrow> db \<Rightarrow> uuid list" where
  "claim_all contained_in [] s = []"
| "claim_all contained_in ((locked, now, worker, lease) # calls) s =
     (case claim_next contained_in locked now worker lease s of
        (None, s1) \<Rightarrow> claim_all contained_in calls s1
      | (Some r, s1) \<Rightarrow> rq_id r # claim_all contained_in calls s1)"

lemma claim_all_queued:
  "wf_requests (requests s) \<Longrightarrow>
   set (claim_all contained_in calls s) \<subseteq> rq_id ` {q \<in> set (requests s). rq_status q = QUEUED}
   \<and> distinct (claim_all contained_in calls s)"
proof (induction calls arbitrary: s)
  case Nil
  then show ?case by simp
next
  case (Cons call calls)
  obtain locked now worker lease where call: "call = (locked, now, worker, lease)" by (cases call) auto
  obtain c s1 where claim: "claim_next contained_in locked now worker lease s = (c, s1)" by fastforce
  have wf1: "wf_requests (requests s1)"
    using claims.keeps_wf [OF _ Cons.prems] claim unfolding claim_rows_def by blast
  show ?case
  proof (cases c)
    case None
    with claim have "s1 = s" by (simp add: claim_next_None)
    with None claim call Cons show ?thesis by simp
  next
    case (Some r')
    then obtain r rs where cand: "claim_candidates contained_in locked now worker s = r # rs"
      and r': "r' = assign_row now worker lease r" "s1 = set_request r' s"
      using claim by (auto simp: claim_next_Some)
    from claim_candidates_hd [OF cand] have r: "r \<in> set (requests s)" "rq_status r = QUEUED"
      by (auto simp: claimable_def)
    have "rq_id r' = rq_id r" "rq_status r' = ASSIGNED" by (simp_all add: r' assign_row_def)
    then have rows: "requests s1 = map (\<lambda>q. if q = r then r' else q) (requests s)"
      using update_where_id [OF Cons.prems r(1), of "\<lambda>_. r'"] by (simp add: r'(2) set_request_def)
    have other: "rq_id q \<noteq> rq_id r" if "q \<in> set (requests s)" "q \<noteq> r" for q
      using that r(1) Cons.prems by (auto simp: wf_requests_def dest: distinct_key_eq)
    have fresh: "rq_id q \<noteq> rq_id r" if q: "q \<in> set (requests s1)" "rq_status q = QUEUED" for q
    proof -
      from q(1) obtain p where p: "p \<in> set (requests s)" "q = (if p = r then r' else p)"
        unfolding rows by auto
      with q(2) \<open>rq_status r' = ASSIGNED\<close> have "p \<noteq> r" by auto
      with p other show ?thesis by simp
    qed
    have sub: "rq_id ` {q \<in> set (requests s1). rq_status q = QUEUED} \<subseteq>
        rq_id ` {q \<in> set (requests s). rq_status q = QUEUED}"
      using \<open>rq_status r' = ASSIGNED\<close> by (fastforce simp: rows split: if_splits)
    have all: "claim_all contained_in (call # calls) s = rq_id r # claim_all contained_in calls s1"
      unfolding call claim_all.simps claim Some by (simp add: \<open>rq_id r' = rq_id r\<close>)
    have rest: "set (claim_all contained_in calls s1) \<subseteq> rq_id ` {q \<in> set (requests s1). rq_status q = QUEUED}"
      "distinct (claim_all contained_in calls s1)" using Cons.IH [OF wf1] by simp_all
    have "rq_id r \<notin> set (claim_all contained_in calls s1)"
    proof
      assume "rq_id r \<in> set (claim_all contained_in calls s1)"
      with rest(1) obtain q where "q \<in> set (requests s1)" "rq_status q = QUEUED" "rq_id q = rq_id r"
        by auto
      with fresh [of q] show False by simp
    qed
    moreover have "rq_id r \<in> rq_id ` {q \<in> set (requests s). rq_status q = QUEUED}" using r by simp
    ultimately show ?thesis
      unfolding all list.set distinct.simps using rest subset_trans [OF rest(1) sub] by simp
  qed
qed

text \<open>C9. Exclusive claims: workers that claim in any order never get the same request, and a
  worker whose claim runs while another transaction still holds the row it has just claimed
  (the \<open>SKIP LOCKED\<close> case) does not get that row either.\<close>

theorem claims_are_exclusive:
  assumes "wf_requests (requests s)"
  shows "distinct (claim_all contained_in calls s)
    \<and> (claim_next contained_in locked now worker lease s = (Some r, s1) \<and> rq_id r \<in> locked'
        \<longrightarrow> fst (claim_next contained_in locked' now' worker' lease' s) = Some r'
        \<longrightarrow> rq_id r' \<noteq> rq_id r)"
proof (intro conjI impI)
  show "distinct (claim_all contained_in calls s)" using claim_all_queued [OF assms] by blast
next
  assume "claim_next contained_in locked now worker lease s = (Some r, s1) \<and> rq_id r \<in> locked'"
    and "fst (claim_next contained_in locked' now' worker' lease' s) = Some r'"
  then obtain q qs where "claim_candidates contained_in locked' now' worker' s = q # qs"
    and "rq_id r' = rq_id q" and "rq_id r \<in> locked'"
    by (cases "claim_next contained_in locked' now' worker' lease' s")
      (auto simp: claim_next_Some assign_row_def)
  then show "rq_id r' \<noteq> rq_id r" using claim_candidates_hd(3) by metis
qed

theorem claims_are_exclusive_witness:
  "distinct (claim_all (\<lambda>_ _. True) [({}, 0, sample_worker 3, 120), ({}, 1, sample_worker 4, 120)]
     (sample_db [sample_request 6 5, sample_request 7 4]))"
proof -
  have "wf_requests (requests (sample_db [sample_request 6 5, sample_request 7 4]))"
    by (simp add: sample_db_def wf_requests_def wf_request_def sample_request_def)
  from claims_are_exclusive [OF this] show ?thesis by blast
qed

section \<open>Committing a result\<close>

text \<open>The projects after a settlement: the one row of the project, adjusted in its periods.\<close>

definition settled_projects :: "orbi_request \<Rightarrow> int \<Rightarrow> db \<Rightarrow> project list" where
  "settled_projects r actual s =
     update_where (\<lambda>p. pj_id p = rq_project_id r)
       (settle_project (actual - rq_reserved_tokens r) (rq_budget_day r) (rq_budget_month r)) (projects s)"

lemma reconcile_projects:
  assumes "reconcile (rq_project_id r) (rq_reserved_tokens r) actual (rq_budget_day r) (rq_budget_month r) s = Inr s'"
  shows "s' = s\<lparr>projects := settled_projects r actual s\<rparr>"
proof -
  from assms obtain p where p: "filter (\<lambda>p. pj_id p = rq_project_id r) (projects s) = [p]"
    and fl: "flush_project (settle_project (actual - rq_reserved_tokens r) (rq_budget_day r)
        (rq_budget_month r) p) s = Inr s'"
    by (auto simp: reconcile_Inr select_project_def scalar_one_eq_Inr)
  have only: "q = p" if "q \<in> set (projects s)" "pj_id q = rq_project_id r" for q
  proof -
    from that have "q \<in> set (filter (\<lambda>p. pj_id p = rq_project_id r) (projects s))" by simp
    then show ?thesis unfolding p by simp
  qed
  from filter_eq_singletonD [OF p] have "pj_id p = rq_project_id r" by simp
  with fl only show ?thesis
    by (auto simp: flush_project_Inr settled_projects_def intro!: update_where_cong arg_cong2
        [where f = "\<lambda>s ps. s\<lparr>projects := ps\<rparr>"])
qed

lemma held_filter:
  assumes "wf_requests (requests s)" and "r \<in> set (requests s)"
  shows "filter (held_by (rq_id r) worker) (requests s) = (if held_by (rq_id r) worker r then [r] else [])"
proof -
  have "filter (held_by (rq_id r) worker) (requests s) =
      filter (\<lambda>q. rq_id q = rq_id r \<and> held_by (rq_id r) worker q) (requests s)"
    by (rule filter_cong) (auto simp: held_by_def)
  also have "\<dots> = filter (held_by (rq_id r) worker) [r]"
    unfolding filter_conj_key using filter_key_unique [of rq_id "requests s" r] assms
    by (simp add: wf_requests_def)
  finally show ?thesis by simp
qed

lemma held_update:
  assumes "wf_requests (requests s)" and "r \<in> set (requests s)" and "held_by (rq_id r) worker r"
  shows "update_where (held_by (rq_id r) worker) f (requests s) =
    map (\<lambda>q. if q = r then f r else q) (requests s)"
proof -
  have "held_by (rq_id r) worker q \<longleftrightarrow> q = r" if "q \<in> set (requests s)" for q
    using assms that by (auto simp: held_by_def wf_requests_def dest: distinct_key_eq)
  then show ?thesis by (auto simp: update_where_def)
qed

text \<open>C6. A result is accepted exactly when the request is in flight, without a result, and
  assigned to the submitting worker. Acceptance is one atomic change: the row becomes
  \<open>COMPLETED\<close> with the reported tokens and no lease, one usage record is added, the key's
  totals grow by one request and the tokens, and the reservation is settled; a refused result
  changes nothing at all.\<close>

theorem commit_result_spec:
  assumes "commit_result budget_service_impl now uid rec (rq_id r) worker result i n lat s = Inr (accepted, s')"
    and "wf_requests (requests s)" and "r \<in> set (requests s)"
  shows "accepted = (rq_assigned_to r = Some (wk_id worker) \<and> rq_result r = None \<and> in_flight (rq_status r))
    \<and> s' = (if accepted then s\<lparr>
        projects := settled_projects r (i + n) s,
        api_keys := update_where (\<lambda>k. ak_id k = rq_api_key_id r)
          (\<lambda>k. k\<lparr>ak_total_requests := ak_total_requests k + 1,
                 ak_total_tokens := ak_total_tokens k + (i + n)\<rparr>) (api_keys s),
        requests := map (\<lambda>q. if q = r then complete_request now result i n r else q) (requests s),
        usage_records := usage_records s @ [usage_row uid rec (rq_id r) worker r i n lat]\<rparr>
      else s)"
proof (cases accepted)
  case False
  with assms(1) have "filter (held_by (rq_id r) worker) (requests s) = []" "s' = s"
    by (simp_all add: commit_result_False)
  then show ?thesis
    using False held_filter [OF assms(2,3), of worker] by (auto simp: held_by_def split: if_splits)
next
  case True
  with assms(1) obtain row s2 s3 where row: "filter (held_by (rq_id r) worker) (requests s) = [row]"
    and rec: "reconcile (rq_project_id row) (rq_reserved_tokens row) (i + n)
       (rq_budget_day row) (rq_budget_month row)
       (s\<lparr>requests := update_where (held_by (rq_id r) worker) (complete_request now result i n)
          (requests s)\<rparr>) = Inr s2"
    and cnt: "count_completion (rq_api_key_id row) (i + n) s2 = Inr s3"
    and ins: "insert_usage (usage_row uid rec (rq_id r) worker row i n lat) s3 = Inr s'"
    by (auto simp: commit_result_True budget_service_impl_def)
  have held: "held_by (rq_id r) worker r" and r: "row = r"
    using row held_filter [OF assms(2,3), of worker] by (auto split: if_splits)
  note upd = held_update [OF assms(2,3) held]
  have s2: "s2 = s\<lparr>requests := map (\<lambda>q. if q = r then complete_request now result i n r else q) (requests s),
      projects := settled_projects r (i + n) s\<rparr>"
    using reconcile_projects [of r "i + n", OF rec [unfolded r upd]] by (simp add: settled_projects_def)
  have s3: "s3 = s2\<lparr>api_keys := update_where (\<lambda>k. ak_id k = rq_api_key_id r)
          (\<lambda>k. k\<lparr>ak_total_requests := ak_total_requests k + 1,
                 ak_total_tokens := ak_total_tokens k + (i + n)\<rparr>) (api_keys s)\<rparr>"
    using cnt r s2 by (auto simp: count_completion_def Let_def split: if_splits)
  have s': "s' = s3\<lparr>usage_records := usage_records s3 @ [usage_row uid rec (rq_id r) worker r i n lat]\<rparr>"
    using ins r by (simp add: insert_usage_Inr)
  have "s' = s\<lparr>projects := settled_projects r (i + n) s,
        api_keys := update_where (\<lambda>k. ak_id k = rq_api_key_id r)
          (\<lambda>k. k\<lparr>ak_total_requests := ak_total_requests k + 1,
                 ak_total_tokens := ak_total_tokens k + (i + n)\<rparr>) (api_keys s),
        requests := map (\<lambda>q. if q = r then complete_request now result i n r else q) (requests s),
        usage_records := usage_records s @ [usage_row uid rec (rq_id r) worker r i n lat]\<rparr>"
    unfolding s' s3 s2 by simp
  with True held show ?thesis by (simp add: held_by_def)
qed

lemma sample_assigned_wf: "wf_requests (requests (sample_db [assigned_request 6 3 120000000]))"
  by (simp add: sample_db_def wf_requests_def wf_request_def assigned_request_def sample_request_def)

lemma sample_commit:
  "\<exists>s'. commit_result budget_service_impl 9 50 9 6 (sample_worker 3) (JObj []) 10 20 5
     (sample_db [assigned_request 6 3 120000000]) = Inr (True, s')"
  by (simp add: commit_result_def sample_defs held_by_def fits_int4_def Let_def
      budget_service_impl_def reconcile_def select_project_def settle_project_def flush_project_def
      fits_int8_def count_completion_def insert_usage_def usage_row_def update_where_def
      complete_request_def)

theorem commit_result_spec_witness:
  "\<exists>s'. commit_result budget_service_impl 9 50 9 6 (sample_worker 3) (JObj []) 10 20 5
       (sample_db [assigned_request 6 3 120000000]) = Inr (True, s')
     \<and> usage_records s' = [usage_row 50 9 6 (sample_worker 3) (assigned_request 6 3 120000000) 10 20 5]"
proof -
  obtain s' where c: "commit_result budget_service_impl 9 50 9 6 (sample_worker 3) (JObj []) 10 20 5
      (sample_db [assigned_request 6 3 120000000]) = Inr (True, s')"
    using sample_commit by blast
  have id: "rq_id (assigned_request 6 3 120000000) = 6"
    by (simp add: assigned_request_def sample_request_def)
  have mem: "assigned_request 6 3 120000000 \<in> set (requests (sample_db [assigned_request 6 3 120000000]))"
    and none: "usage_records (sample_db [assigned_request 6 3 120000000]) = []"
    by (simp_all add: sample_db_def empty_db_def)
  from commit_result_spec [OF _ sample_assigned_wf mem, unfolded id, OF c] none c
  show ?thesis by auto
qed

text \<open>Everything that can happen to the queue after that: a sequence of its operations.\<close>

inductive queue_step :: "db \<Rightarrow> db \<Rightarrow> bool" where
  claim: "claim_next contained_in locked now worker lease s = (c, s') \<Longrightarrow> queue_step s s'"
| commit: "commit_result budget_service_impl now uid rec req worker result i n lat s = Inr (b, s') \<Longrightarrow>
    0 \<le> i \<Longrightarrow> 0 \<le> n \<Longrightarrow> queue_step s s'"
| error: "record_error budget_service_impl req worker retryable code m s = Inr (b, s') \<Longrightarrow> queue_step s s'"
| recover: "recover_expired_leases budget_service_impl now s = Inr (k, s') \<Longrightarrow> queue_step s s'"

lemma queue_step_wf: "queue_step s s' \<Longrightarrow> wf_requests (requests s) \<Longrightarrow> wf_requests (requests s')"
proof (induction rule: queue_step.induct)
  case (claim contained_in locked now worker lease s c s')
  then show ?case using claims.keeps_wf [of "requests s" "requests s'"] unfolding claim_rows_def by blast
next
  case (commit now uid rec req worker result i n lat s b s')
  then show ?case using commits.keeps_wf [of "requests s" "requests s'"] unfolding commit_rows_def by blast
next
  case (error req worker retryable code m s b s')
  then show ?case using worker_errors.keeps_wf [of "requests s" "requests s'"] unfolding error_rows_def by blast
next
  case (recover now s k s')
  then show ?case using recovery.keeps_wf [of "requests s" "requests s'"] unfolding recover_rows_def by blast
qed

lemma queue_step_terminal:
  "queue_step s s' \<Longrightarrow> wf_requests (requests s) \<Longrightarrow> r \<in> set (requests s) \<Longrightarrow>
   terminal (rq_status r) \<Longrightarrow> r \<in> set (requests s')"
proof (induction rule: queue_step.induct)
  case (claim contained_in locked now worker lease s c s')
  then show ?case
    using claims.keeps_terminal_rows [of "requests s" "requests s'"] unfolding claim_rows_def by blast
next
  case (commit now uid rec req worker result i n lat s b s')
  then show ?case
    using commits.keeps_terminal_rows [of "requests s" "requests s'"] unfolding commit_rows_def by blast
next
  case (error req worker retryable code m s b s')
  then show ?case
    using worker_errors.keeps_terminal_rows [of "requests s" "requests s'"] unfolding error_rows_def by blast
next
  case (recover now s k s')
  then show ?case
    using recovery.keeps_terminal_rows [of "requests s" "requests s'"] unfolding recover_rows_def by blast
qed

lemma queue_steps_terminal:
  assumes "queue_step\<^sup>*\<^sup>* s s'" and "wf_requests (requests s)" and "r \<in> set (requests s)"
    and "terminal (rq_status r)"
  shows "wf_requests (requests s') \<and> r \<in> set (requests s')"
  using assms by (induction rule: rtranclp_induct) (auto intro: queue_step_wf queue_step_terminal)

text \<open>C7. At most one result: once a result is accepted, then after any further claims, results,
  errors and recoveries the row is unchanged, and whatever any worker submits or reports for
  this request is refused without effect.\<close>

theorem commit_at_most_once:
  assumes "commit_result budget_service_impl now uid rec req worker result i n lat s = Inr (True, s1)"
    and "wf_requests (requests s)" and "0 \<le> i" "0 \<le> n" and "queue_step\<^sup>*\<^sup>* s1 s2"
  shows "(\<exists>r\<in>set (requests s). rq_id r = req \<and> complete_request now result i n r \<in> set (requests s2))
    \<and> (\<forall>now' uid' rec' worker' result' i' n' lat' b s3.
        commit_result budget_service_impl now' uid' rec' req worker' result' i' n' lat' s2 = Inr (b, s3)
        \<longrightarrow> \<not> b \<and> s3 = s2)
    \<and> (\<forall>worker' retryable c m. record_error budget_service_impl req worker' retryable c m s2 = Inr (False, s2))"
proof -
  have rows: "requests s1 = update_where (held_by req worker) (complete_request now result i n) (requests s)"
    using budget.commit_requests [OF assms(1)] .
  from assms(1) obtain row where row: "filter (held_by req worker) (requests s) = [row]"
    by (auto simp: commit_result_True)
  from filter_eq_singletonD [OF row] have r: "row \<in> set (requests s)" "held_by req worker row" by simp_all
  let ?r = "complete_request now result i n row"
  have r1: "?r \<in> set (requests s1)" "rq_id ?r = req" "rq_result ?r = Some result" "terminal (rq_status ?r)"
    using r by (auto simp: rows set_update_where complete_request_def held_by_def)
  have wf1: "wf_requests (requests s1)"
    using commits.keeps_wf [OF _ assms(2)] assms(1,3,4) unfolding commit_rows_def by blast
  with queue_steps_terminal [OF assms(5) _ r1(1,4)]
  have s2: "wf_requests (requests s2)" "?r \<in> set (requests s2)" by simp_all
  have none: "filter (held_by req w) (requests s2) = []" for w
    using held_filter [OF s2, of w] r1(2,3) by (simp add: held_by_def)
  have "\<not> b \<and> s3 = s2" if "commit_result budget_service_impl now' uid' rec' req worker' result' i' n' lat' s2
      = Inr (b, s3)" for now' uid' rec' worker' result' i' n' lat' b s3
    using that none [of worker'] by (cases b) (auto simp: commit_result_True commit_result_False)
  moreover have "record_error budget_service_impl req worker' retryable c m s2 = Inr (False, s2)"
    for worker' retryable c m
    using none by (simp add: record_error_False)
  moreover have "rq_id row = req" using r(2) by (simp add: held_by_def)
  ultimately show ?thesis using r(1) s2(2) by blast
qed

theorem commit_at_most_once_witness:
  "\<exists>s1. commit_result budget_service_impl 9 50 9 6 (sample_worker 3) (JObj []) 10 20 5
       (sample_db [assigned_request 6 3 120000000]) = Inr (True, s1)
     \<and> record_error budget_service_impl 6 (sample_worker 3) True ''e'' ''m'' s1 = Inr (False, s1)"
proof -
  obtain s1 where c: "commit_result budget_service_impl 9 50 9 6 (sample_worker 3) (JObj []) 10 20 5
      (sample_db [assigned_request 6 3 120000000]) = Inr (True, s1)"
    using sample_commit by blast
  have "record_error budget_service_impl 6 (sample_worker 3) True ''e'' ''m'' s1 = Inr (False, s1)"
    using commit_at_most_once [OF c sample_assigned_wf _ _ rtranclp.rtrancl_refl] by simp
  with c show ?thesis by blast
qed

section \<open>Worker errors\<close>

text \<open>C21. An error report from the holder stores its code and message and frees the row; while
  retries are left and the error is retryable the row goes back to the queue with one more
  retry counted and its reservation kept, otherwise it fails for good and the reservation is
  released. A report from anyone else is refused and changes nothing.\<close>

theorem record_error_spec:
  assumes "record_error budget_service_impl (rq_id r) worker retryable code message s = Inr (accepted, s')"
    and "wf_requests (requests s)" and "r \<in> set (requests s)"
  shows "accepted = (rq_assigned_to r = Some (wk_id worker) \<and> rq_result r = None \<and> in_flight (rq_status r))
    \<and> s' = (if \<not> accepted then s
      else if retryable \<and> rq_retry_count r < rq_max_retries r
      then s\<lparr>requests := map (\<lambda>q. if q = r
          then r\<lparr>rq_error_detail := Some (error_detail code message), rq_assigned_to := None,
                 rq_lease_expires := None, rq_retry_count := rq_retry_count r + 1, rq_status := QUEUED\<rparr>
          else q) (requests s)\<rparr>
      else s\<lparr>projects := settled_projects r 0 s,
        requests := map (\<lambda>q. if q = r
          then r\<lparr>rq_error_detail := Some (error_detail code message), rq_assigned_to := None,
                 rq_lease_expires := None, rq_status := FAILED_FINAL\<rparr>
          else q) (requests s)\<rparr>)"
proof (cases accepted)
  case False
  with assms(1) have "filter (held_by (rq_id r) worker) (requests s) = []" "s' = s"
    by (simp_all add: record_error_False)
  then show ?thesis
    using False held_filter [OF assms(2,3), of worker] by (auto simp: held_by_def split: if_splits)
next
  case True
  with assms(1) obtain row where row: "filter (held_by (rq_id r) worker) (requests s) = [row]"
    and eff: "if retryable \<and> retry_left row
         then s' = set_request ((errored_row code message row)
                \<lparr>rq_retry_count := rq_retry_count row + 1, rq_status := QUEUED\<rparr>) s
         else bs_release budget_service_impl (rq_project_id row) (rq_reserved_tokens row)
                (rq_budget_day row) (rq_budget_month row)
                (set_request ((errored_row code message row)\<lparr>rq_status := FAILED_FINAL\<rparr>) s) = Inr s'"
    by (auto simp: record_error_True)
  have held: "held_by (rq_id r) worker r" and r: "row = r"
    using row held_filter [OF assms(2,3), of worker] by (auto split: if_splits)
  have upd: "set_request q s = s\<lparr>requests := map (\<lambda>x. if x = r then q else x) (requests s)\<rparr>"
    if "rq_id q = rq_id r" for q
    using that update_where_id [OF assms(2,3), of "\<lambda>_. q"] by (simp add: set_request_def)
  show ?thesis
  proof (cases "retryable \<and> retry_left r")
    case True
    then have "s' = set_request (r\<lparr>rq_error_detail := Some (error_detail code message), rq_assigned_to := None,
         rq_lease_expires := None, rq_retry_count := rq_retry_count r + 1, rq_status := QUEUED\<rparr>) s"
      using eff r by (simp add: errored_row_def)
    with True \<open>accepted\<close> held show ?thesis by (simp add: upd held_by_def retry_left_def)
  next
    case False
    let ?q = "r\<lparr>rq_error_detail := Some (error_detail code message), rq_assigned_to := None,
         rq_lease_expires := None, rq_status := FAILED_FINAL\<rparr>"
    have "reconcile (rq_project_id r) (rq_reserved_tokens r) 0 (rq_budget_day r) (rq_budget_month r)
        (set_request ?q s) = Inr s'"
      using eff False r by (auto simp: errored_row_def budget_service_impl_def release_def)
    from reconcile_projects [OF this] have "s' = s\<lparr>projects := settled_projects r 0 s,
        requests := map (\<lambda>x. if x = r then ?q else x) (requests s)\<rparr>"
      by (simp add: upd settled_projects_def)
    moreover have "(retryable \<and> rq_retry_count r < rq_max_retries r) = False"
      using False by (simp add: retry_left_def)
    ultimately show ?thesis using \<open>accepted\<close> held by (simp only: held_by_def) simp
  qed
qed

theorem record_error_spec_witness:
  "\<exists>r s'. record_error budget_service_impl 6 (sample_worker 3) True ''oom'' ''out of memory''
       (sample_db [assigned_request 6 3 120000000]) = Inr (True, s')
     \<and> requests s' = [r] \<and> rq_status r = QUEUED \<and> rq_retry_count r = 1"
proof -
  let ?a = "assigned_request 6 3 120000000"
  obtain s' where c: "record_error budget_service_impl 6 (sample_worker 3) True ''oom'' ''out of memory''
      (sample_db [?a]) = Inr (True, s')"
    by (simp add: record_error_def sample_defs held_by_def Let_def)
  have id: "rq_id ?a = 6" and retry: "rq_retry_count ?a = 0" "rq_max_retries ?a = 3"
    by (simp_all add: assigned_request_def sample_request_def)
  have mem: "?a \<in> set (requests (sample_db [?a]))" and rows: "requests (sample_db [?a]) = [?a]"
    by (simp_all add: sample_db_def)
  from record_error_spec [OF _ sample_assigned_wf mem, unfolded id, OF c] c retry rows
  show ?thesis by auto
qed

section \<open>Recovery\<close>

text \<open>The fate of one row in a recovery pass at time \<open>now\<close>.\<close>

definition recovered_row :: "instant \<Rightarrow> orbi_request \<Rightarrow> orbi_request" where
  "recovered_row now r =
     (if lease_expired now r \<and> retry_left r
      then (if rq_expires_at r < now then expire_row (requeue_row r) else requeue_row r)
      else if lease_expired now r then exhaust_row r
      else if queue_expired now r then expire_row r
      else r)"

lemma recovered_rows_map: "recovered_rows now rows = map (recovered_row now) rows"
proof -
  have "(let a = if lease_expired now r \<and> retry_left r then requeue_row r else r;
      b = if lease_expired now a \<and> \<not> retry_left a then exhaust_row a else a
    in if queue_expired now b then expire_row b else b) = recovered_row now r" for r
    by (auto simp: recovered_row_def Let_def queue_expired_def exhaust_row_def)
      (auto simp: requeue_row_def lease_expired_def in_flight_def)
  then show ?thesis by (simp add: recovered_rows_def update_where_def Let_def comp_def)
qed

lemma recovered_row_settled:
  "\<not> lease_expired now (recovered_row now r) \<and> \<not> queue_expired now (recovered_row now r)"
  by (auto simp: recovered_row_def lease_expired_def queue_expired_def requeue_row_def exhaust_row_def
      expire_row_def)

lemma recover_nothing:
  assumes "\<forall>r\<in>set (requests s). \<not> lease_expired now r \<and> \<not> queue_expired now r"
  shows "recover_expired_leases svc now s = Inr (0, s)"
proof -
  have "filter (\<lambda>r. lease_expired now r \<and> retry_left r) (requests s) = []"
    "released_rows now (requests s) = []" "recovered_rows now (requests s) = requests s"
    using assms
    by (auto simp: filter_empty_conv released_rows_def recovered_rows_map recovered_row_def
        update_where_none intro!: map_idI)
  then show ?thesis by (simp add: recover_Inr)
qed

text \<open>C20. A recovery pass decides every row on its own: an expired lease goes back to the queue
  while retries are left (and expires at once if its queue deadline has passed too), otherwise
  it fails; a queued request past its deadline expires; all other rows are left alone. The count
  returned is the number of requeued leases, nothing recoverable is left, and a second pass at
  the same time does nothing.\<close>

theorem recovery_spec:
  assumes "recover_expired_leases budget_service_impl now s = Inr (count, s')"
  shows "requests s' = map (\<lambda>r.
      if lease_expired now r \<and> rq_retry_count r < rq_max_retries r
      then (if rq_expires_at r < now then expire_row (requeue_row r) else requeue_row r)
      else if lease_expired now r then exhaust_row r
      else if rq_status r = QUEUED \<and> rq_expires_at r < now \<and> rq_result r = None then expire_row r
      else r) (requests s)
    \<and> count = length (filter (\<lambda>r. lease_expired now r \<and> rq_retry_count r < rq_max_retries r) (requests s))
    \<and> recover_expired_leases budget_service_impl now s' = Inr (0, s')"
proof -
  have rows: "requests s' = map (recovered_row now) (requests s)"
    using budget.recover_requests [OF assms] by (simp add: recovered_rows_map)
  then have "recover_expired_leases budget_service_impl now s' = Inr (0, s')"
    using recovered_row_settled by (intro recover_nothing) auto
  moreover have "count = length (filter (\<lambda>r. lease_expired now r \<and> rq_retry_count r < rq_max_retries r) (requests s))"
    using assms by (simp add: recover_Inr retry_left_def)
  ultimately show ?thesis
    by (simp add: rows recovered_row_def retry_left_def queue_expired_def)
qed

lemma sample_recovery:
  "\<exists>s'. recover_expired_leases budget_service_impl 200000000
      (sample_db [assigned_request 6 3 120000000, sample_request 7 5]) = Inr (1, s')"
  by (simp add: recover_expired_leases_def sample_defs lease_expired_def retry_left_def requeue_row_def
      update_where_def queue_expired_def Let_def)

theorem recovery_spec_witness:
  "\<exists>s'. recover_expired_leases budget_service_impl 200000000
      (sample_db [assigned_request 6 3 120000000, sample_request 7 5]) = Inr (1, s')
    \<and> requests s' = [requeue_row (assigned_request 6 3 120000000), sample_request 7 5]"
proof -
  obtain s' where c: "recover_expired_leases budget_service_impl 200000000
      (sample_db [assigned_request 6 3 120000000, sample_request 7 5]) = Inr (1, s')"
    using sample_recovery by blast
  have "requests s' = [requeue_row (assigned_request 6 3 120000000), sample_request 7 5]"
    using recovery_spec [OF c] by (simp add: sample_defs lease_expired_def)
  with c show ?thesis by blast
qed

text \<open>A worker whose lease has been recovered is out: its late result and its late error
  report are refused, and change nothing, until it claims the request again.\<close>

theorem late_worker_refused:
  assumes "recover_expired_leases budget_service_impl now s = Inr (count, s')"
    and "wf_requests (requests s)" and "r \<in> set (requests s)" and "lease_expired now r"
  shows "record_error budget_service_impl (rq_id r) worker retryable code m s' = Inr (False, s')
    \<and> (commit_result budget_service_impl now' uid rec (rq_id r) worker result i n lat s' = Inr (b, s'')
        \<longrightarrow> \<not> b \<and> s'' = s')"
proof -
  have rows: "requests s' = map (recovered_row now) (requests s)"
    using budget.recover_requests [OF assms(1)] by (simp add: recovered_rows_map)
  have wf': "wf_requests (requests s')"
    using recovery.keeps_wf [OF _ assms(2)] assms(1) unfolding recover_rows_def by blast
  have mem: "recovered_row now r \<in> set (requests s')" using assms(3) by (simp add: rows)
  have id: "rq_id (recovered_row now r) = rq_id r" and free: "rq_assigned_to (recovered_row now r) = None"
    using assms(4)
    by (auto simp: recovered_row_def requeue_row_def exhaust_row_def expire_row_def)
  have none: "filter (held_by (rq_id r) worker) (requests s') = []"
    using held_filter [OF wf' mem, of worker] id free by (simp add: held_by_def)
  then have "\<not> b \<and> s'' = s'"
    if "commit_result budget_service_impl now' uid rec (rq_id r) worker result i n lat s' = Inr (b, s'')"
    using that by (cases b) (auto simp: commit_result_True commit_result_False)
  moreover have "record_error budget_service_impl (rq_id r) worker retryable code m s' = Inr (False, s')"
    using none by (simp add: record_error_False)
  ultimately show ?thesis by blast
qed

theorem late_worker_refused_witness:
  "\<exists>s'. recover_expired_leases budget_service_impl 200000000
      (sample_db [assigned_request 6 3 120000000, sample_request 7 5]) = Inr (1, s')
    \<and> record_error budget_service_impl 6 (sample_worker 3) True ''e'' ''m'' s' = Inr (False, s')"
proof -
  let ?a = "assigned_request 6 3 120000000" and ?s = "sample_db [assigned_request 6 3 120000000, sample_request 7 5]"
  obtain s' where c: "recover_expired_leases budget_service_impl 200000000 ?s = Inr (1, s')"
    using sample_recovery by blast
  have wf: "wf_requests (requests ?s)" and mem: "?a \<in> set (requests ?s)"
    and exp: "lease_expired 200000000 ?a" and id: "rq_id ?a = 6"
    by (simp_all add: sample_db_def wf_requests_def wf_request_def assigned_request_def
        sample_request_def lease_expired_def)
  from late_worker_refused [OF c wf mem exp] c show ?thesis unfolding id by blast
qed

section \<open>The limit is on reservations\<close>

text \<open>The hard limit bounds what is reserved, not what a worker reports: here a project whose
  70 reserved tokens are within its daily limit of 100 ends the day with 150 after its only
  request is committed with 150 reported tokens.\<close>

theorem reported_usage_can_exceed_limit:
  "\<exists>p s' p'. projects (sample_db [assigned_request 6 3 120000000]) = [p]
    \<and> pj_daily_tokens_used p \<le> pj_daily_token_limit p
    \<and> commit_result budget_service_impl 9 50 9 6 (sample_worker 3) (JObj []) 100 50 5
        (sample_db [assigned_request 6 3 120000000]) = Inr (True, s')
    \<and> projects s' = [p'] \<and> pj_daily_token_limit p' = pj_daily_token_limit p
    \<and> pj_daily_tokens_used p' > pj_daily_token_limit p'"
  by (simp add: commit_result_def sample_defs held_by_def fits_int4_def Let_def
      budget_service_impl_def reconcile_def select_project_def settle_project_def flush_project_def
      fits_int8_def count_completion_def insert_usage_def usage_row_def update_where_def
      complete_request_def)

end
