(* ===== verification/Chat.thy ===== *)
theory Chat
  imports Auth_Properties Responses Schemas Idempotency Ledger Queue_Properties
begin

text \<open>
  \<open>routes/chat.py\<close>. The endpoint has two phases. The first runs in the request's transaction:
  it replays an idempotent request, or reserves the budget and inserts a queued request, and
  commits. The second polls the request in fresh sessions until it is decided or the deadline
  has passed. \<open>create_chat\<close> is the first, \<open>wait_for_result\<close> the second.
\<close>

text \<open>What the first phase ends with: an answer to send, or a request to wait for.\<close>

datatype chat_outcome = Answered json | Waiting uuid

definition find_existing :: "uuid \<Rightarrow> string \<Rightarrow> db \<Rightarrow> orbi_request option result" where
  "find_existing api_key_id key s = scalar_one_or_none
     (filter (\<lambda>r. rq_api_key_id r = api_key_id \<and> rq_idempotency_key r = Some key) (requests s))"

definition replay :: "orbi_request \<Rightarrow> json" where
  "replay existing =
     (case rq_result existing of
        Some result \<Rightarrow>
          if rq_status existing = COMPLETED then result
          else JObj [(''id'', JStr (uuid_str (rq_id existing))),
                     (''object'', JStr ''orbi.request''),
                     (''status'', JStr (status_value (rq_status existing)))]
      | None \<Rightarrow> JObj [(''id'', JStr (uuid_str (rq_id existing))),
                     (''object'', JStr ''orbi.request''),
                     (''status'', JStr (status_value (rq_status existing)))])"

definition find_alias :: "string \<Rightarrow> db \<Rightarrow> model_alias option result" where
  "find_alias model s =
     (if has_nul model then Inl DataError
      else scalar_one_or_none (filter (\<lambda>a. ma_alias a = model \<and> ma_is_active a) (model_aliases s)))"

definition reserved_tokens :: "chat_completion_request \<Rightarrow> int" where
  "reserved_tokens p =
     int (sum_list (map (\<lambda>m. utf8_length (cm_content m)) (cc_messages p))) + cc_max_tokens p"

text \<open>
  The new row. \<open>rid\<close> and \<open>created_at\<close> are the values of the column defaults \<open>uuid4()\<close> and
  \<open>now()\<close>; \<open>retry_count\<close> and \<open>max_retries\<close> are left to their defaults 0 and 3.
\<close>

definition queued_request ::
  "uuid \<Rightarrow> instant \<Rightarrow> string option \<Rightarrow> project \<Rightarrow> api_key \<Rightarrow> model_alias \<Rightarrow> chat_completion_request \<Rightarrow>
     instant \<Rightarrow> date \<Rightarrow> date \<Rightarrow> orbi_request" where
  "queued_request rid created_at key project k alias p expires_at budget_day budget_month =
     \<lparr>rq_id = rid, rq_idempotency_key = key, rq_project_id = pj_id project,
      rq_api_key_id = ak_id k, rq_model_alias = ma_alias alias, rq_resolved_model = ma_model_id alias,
      rq_payload = dump_chat_completion_request p,
      rq_required_capabilities = ma_required_capabilities alias,
      rq_priority = 5, rq_status = QUEUED, rq_assigned_to = None, rq_lease_expires = None,
      rq_retry_count = 0, rq_max_retries = 3, rq_created_at = created_at, rq_expires_at = expires_at,
      rq_completed_at = None, rq_result = None, rq_error_detail = None,
      rq_input_tokens = None, rq_output_tokens = None,
      rq_reserved_tokens = reserved_tokens p,
      rq_budget_day = budget_day, rq_budget_month = budget_month\<rparr>"

text \<open>
  The constraints of \<open>orbi_requests\<close> at the flush: the primary key, the unique pair of key and
  idempotency key (\<open>NULL\<close>s are distinct), the two foreign keys, the integer column, and the text of the payload.
\<close>

definition insert_request :: "orbi_request \<Rightarrow> db \<Rightarrow> db result" where
  "insert_request r s =
     (if \<not> fits_int4 (rq_reserved_tokens r) \<or> json_has_nul (rq_payload r) then Inl DataError
      else if rq_id r \<in> rq_id ` set (requests s)
           \<or> (rq_idempotency_key r \<noteq> None \<and>
              (rq_api_key_id r, rq_idempotency_key r) \<in>
                (\<lambda>q. (rq_api_key_id q, rq_idempotency_key q)) ` set (requests s))
           \<or> rq_project_id r \<notin> pj_id ` set (projects s)
           \<or> rq_api_key_id r \<notin> ak_id ` set (api_keys s)
      then Inl IntegrityError
      else Inr (s\<lparr>requests := requests s @ [r]\<rparr>))"

text \<open>\<open>except BudgetExceededError\<close> and \<open>except IntegrityError\<close>; other exceptions go on.\<close>

fun budget_error :: "exn \<Rightarrow> exn" where
  "budget_error (BudgetExceededError m) = OrbiError ''token_budget_exceeded'' m 429"
| "budget_error e = e"

fun conflict_error :: "exn \<Rightarrow> exn" where
  "conflict_error IntegrityError =
     OrbiError ''idempotency_conflict'' ''An equivalent request already exists.'' 409"
| "conflict_error e = e"

fun key_error :: "exn \<Rightarrow> exn" where
  "key_error (ValueError m) = OrbiError ''invalid_idempotency_key'' m 400"
| "key_error e = e"

definition map_error :: "(exn \<Rightarrow> exn) \<Rightarrow> 'a result \<Rightarrow> 'a result" where
  "map_error f m = (case m of Inl e \<Rightarrow> Inl (f e) | Inr v \<Rightarrow> Inr v)"

text \<open>Everything after the idempotency check.\<close>

definition enqueue ::
  "instant \<Rightarrow> instant \<Rightarrow> uuid \<Rightarrow> instant \<Rightarrow> chat_completion_request \<Rightarrow> string option \<Rightarrow> api_key \<Rightarrow> db \<Rightarrow>
     (chat_outcome \<times> db) result" where
  "enqueue t_reserve t_expires rid created_at p key k s =
     bind_result (find_alias (cc_model p) s) (\<lambda>found.
       case found of
         None \<Rightarrow> Inl (OrbiError ''model_not_found'' ''Requested model alias is unavailable.'' 404)
       | Some alias \<Rightarrow>
           bind_result (map_error budget_error (reserve t_reserve (ak_project_id k) (reserved_tokens p) s))
             (\<lambda>((project, budget_day, budget_month), s1).
           let record = queued_request rid created_at key project k alias p
                 (t_expires + seconds 300) budget_day budget_month
           in bind_result (map_error conflict_error (insert_request record s1)) (\<lambda>s2.
                Inr (Waiting rid, s2))))"

definition create_chat ::
  "instant \<Rightarrow> instant \<Rightarrow> uuid \<Rightarrow> instant \<Rightarrow> chat_completion_request \<Rightarrow> string option \<Rightarrow> api_key \<Rightarrow> db \<Rightarrow>
     (chat_outcome \<times> db) result" where
  "create_chat t_reserve t_expires rid created_at p idempotency_header k s =
     (if cc_stream p
      then Inl (OrbiError ''streaming_not_available'' ''Streaming is deferred to Phase 2.'' 400)
      else bind_result (map_error key_error (validate_idempotency_key idempotency_header)) (\<lambda>key.
        case key of
          None \<Rightarrow> enqueue t_reserve t_expires rid created_at p key k s
        | Some kk \<Rightarrow>
            bind_result (find_existing (ak_id k) kk s) (\<lambda>existing.
              case existing of
                Some r \<Rightarrow> Inr (Answered (replay r), s)
              | None \<Rightarrow> enqueue t_reserve t_expires rid created_at p key k s)))"

text \<open>The endpoint up to its commit, behind the key and the \<open>chat\<close> scope.\<close>

definition post_chat ::
  "'s app_state \<Rightarrow> instant \<times> instant \<times> instant \<Rightarrow> string option \<Rightarrow> instant \<Rightarrow> instant \<Rightarrow> uuid \<Rightarrow> instant \<Rightarrow>
     chat_completion_request \<Rightarrow> string option \<Rightarrow> db \<Rightarrow> 's \<Rightarrow> chat_outcome result \<times> db \<times> 's" where
  "post_chat app clock authorization t_reserve t_expires rid created_at p header s redis =
     with_api_key app clock authorization ''chat''
       (create_chat t_reserve t_expires rid created_at p header) s redis"

section \<open>Waiting\<close>

definition poll :: "orbi_request option \<Rightarrow> json result option" where
  "poll current =
     (case current of
        None \<Rightarrow> Some (Inl (OrbiError ''request_not_found'' ''Request disappeared unexpectedly.'' 500))
      | Some r \<Rightarrow>
          (case (rq_status r, rq_result r) of
             (COMPLETED, Some result) \<Rightarrow> Some (Inr result)
           | _ \<Rightarrow>
               if rq_status r \<in> {FAILED_FINAL, CANCELLED, EXPIRED}
               then Some (Inl (OrbiError ''inference_failed''
                      ''The inference request could not be completed.'' 503))
               else None))"

definition timeout_error :: "uuid \<Rightarrow> exn" where
  "timeout_error request_id = OrbiError ''inference_timeout''
     (''Inference did not complete within the configured timeout. Request ID: '' @ uuid_str request_id) 504"

text \<open>
  The loop. \<open>clock i\<close> is the event loop's time at the \<open>i\<close>-th test of the condition, \<open>lookup i\<close>
  what the \<open>i\<close>-th session reads; the value is \<open>None\<close> if the loop never ends.
\<close>

partial_function (option) wait_loop ::
  "rat \<Rightarrow> uuid \<Rightarrow> (nat \<Rightarrow> rat) \<Rightarrow> (nat \<Rightarrow> orbi_request option) \<Rightarrow> nat \<Rightarrow> json result option" where
  "wait_loop deadline request_id clock lookup i =
     (if clock i < deadline
      then (case poll (lookup i) of
              Some answer \<Rightarrow> Some answer
            | None \<Rightarrow> wait_loop deadline request_id clock lookup (Suc i))
      else Some (Inl (timeout_error request_id)))"

definition wait_for_result ::
  "settings \<Rightarrow> uuid \<Rightarrow> rat \<Rightarrow> (nat \<Rightarrow> rat) \<Rightarrow> (nat \<Rightarrow> orbi_request option) \<Rightarrow> json result option" where
  "wait_for_result st request_id started clock lookup =
     wait_loop (started + of_int (st_request_wait_timeout_seconds st)) request_id clock lookup 0"

text \<open>The endpoint as a whole. Waiting reads other sessions only, so the database is that of the commit.\<close>

definition chat_completion ::
  "'s app_state \<Rightarrow> instant \<times> instant \<times> instant \<Rightarrow> string option \<Rightarrow> instant \<Rightarrow> instant \<Rightarrow> uuid \<Rightarrow> instant \<Rightarrow>
     chat_completion_request \<Rightarrow> string option \<Rightarrow> rat \<Rightarrow> (nat \<Rightarrow> rat) \<Rightarrow> (nat \<Rightarrow> orbi_request option) \<Rightarrow>
     db \<Rightarrow> 's \<Rightarrow> json result option \<times> db \<times> 's" where
  "chat_completion app clock authorization t_reserve t_expires rid created_at p header
     started loop_clock lookup s redis =
     (let (outcome, s', redis') =
            post_chat app clock authorization t_reserve t_expires rid created_at p header s redis
      in (case outcome of
            Inl e \<Rightarrow> Some (Inl e)
          | Inr (Answered body) \<Rightarrow> Some (Inr body)
          | Inr (Waiting request_id) \<Rightarrow>
              wait_for_result (app_settings app) request_id started loop_clock lookup,
          s', redis'))"

section \<open>The first phase\<close>

lemma map_error_Inr [simp]: "map_error f m = Inr v \<longleftrightarrow> m = Inr v"
  by (auto simp: map_error_def split: sum.splits)

lemma insert_request_Inr:
  "insert_request r s = Inr s' \<longleftrightarrow>
     fits_int4 (rq_reserved_tokens r) \<and> \<not> json_has_nul (rq_payload r) \<and> rq_id r \<notin> rq_id ` set (requests s)
     \<and> (rq_idempotency_key r \<noteq> None \<longrightarrow>
          (rq_api_key_id r, rq_idempotency_key r) \<notin> (\<lambda>q. (rq_api_key_id q, rq_idempotency_key q)) ` set (requests s))
     \<and> rq_project_id r \<in> pj_id ` set (projects s) \<and> rq_api_key_id r \<in> ak_id ` set (api_keys s)
     \<and> s' = s\<lparr>requests := requests s @ [r]\<rparr>"
  by (auto simp: insert_request_def)

lemma enqueue_Inr:
  "enqueue t_reserve t_expires rid created_at p key k s = Inr (out, s') \<longleftrightarrow>
     (\<exists>alias project day month s1. find_alias (cc_model p) s = Inr (Some alias)
       \<and> reserve t_reserve (ak_project_id k) (reserved_tokens p) s = Inr ((project, day, month), s1)
       \<and> insert_request (queued_request rid created_at key project k alias p
            (t_expires + seconds 300) day month) s1 = Inr s'
       \<and> out = Waiting rid)"
  by (auto simp: enqueue_def result_simps Let_def split: option.splits)

lemma create_chat_Inr:
  "create_chat t_reserve t_expires rid created_at p header k s = Inr (out, s') \<longleftrightarrow>
     \<not> cc_stream p \<and> validate_idempotency_key header = Inr header
     \<and> ((\<exists>r. header \<noteq> None \<and> find_existing (ak_id k) (the header) s = Inr (Some r)
            \<and> out = Answered (replay r) \<and> s' = s)
        \<or> ((\<forall>kk. header = Some kk \<longrightarrow> find_existing (ak_id k) kk s = Inr None)
            \<and> enqueue t_reserve t_expires rid created_at p header k s = Inr (out, s')))"
  by (cases header)
    (auto simp: create_chat_def result_simps validate_idempotency_key_Inr split: option.splits)

lemma reserved_tokens_bounds:
  assumes "valid_chat_completion_request p"
  shows "2 \<le> reserved_tokens p \<and> reserved_tokens p \<le> 102404096"
proof -
  have len: "1 \<le> length (cc_messages p)" "length (cc_messages p) \<le> 256"
    and tokens: "1 \<le> cc_max_tokens p" "cc_max_tokens p \<le> 4096"
    using assms by (simp_all add: valid_chat_completion_request_def len_between_def in_range_def)
  have each: "1 \<le> utf8_length (cm_content m) \<and> utf8_length (cm_content m) \<le> 400000"
    if "m \<in> set (cc_messages p)" for m
  proof -
    have "1 \<le> length (cm_content m)" "length (cm_content m) \<le> 100000"
      using assms that
      by (auto simp: valid_chat_completion_request_def valid_chat_message_def len_between_def list_all_iff)
    then show ?thesis
      using utf8_length_ge [of "cm_content m"] utf8_length_le [of "cm_content m"] by linarith
  qed
  have sum: "length ms \<le> sum_list (map (\<lambda>m. utf8_length (cm_content m)) ms)
      \<and> sum_list (map (\<lambda>m. utf8_length (cm_content m)) ms) \<le> 400000 * length ms"
    if "\<forall>m\<in>set ms. 1 \<le> utf8_length (cm_content m) \<and> utf8_length (cm_content m) \<le> 400000" for ms
    using that by (induction ms) auto
  from sum [of "cc_messages p"] each len tokens show ?thesis
    unfolding reserved_tokens_def by fastforce
qed

text \<open>The body contains U+0000.\<close>

definition body_has_nul :: "chat_completion_request \<Rightarrow> bool" where
  "body_has_nul p \<longleftrightarrow> has_nul (cc_model p) \<or> list_ex (\<lambda>m. 0 \<in> set (cm_content m)) (cc_messages p)"

lemma payload_has_nul: "json_has_nul (dump_chat_completion_request p) = body_has_nul p"
proof -
  have "\<not> has_nul (role_value r)" for r by (cases r) (simp_all add: has_nul_def)
  then show ?thesis
    by (auto simp: dump_chat_completion_request_def body_has_nul_def list_ex_iff) (simp_all add: has_nul_def)
qed

section \<open>Properties of the first phase\<close>

lemma reserve_charged:
  assumes "reserve now pid n s = Inr ((p', d, m), s')"
  shows "\<exists>p\<in>set (projects s). pj_id p = pid \<and> p' = charged now n p \<and> d = utc_date now \<and> m = utc_month now
    \<and> 1 \<le> n \<and> daily_base now p + n \<le> pj_daily_token_limit p
    \<and> monthly_base now p + n \<le> pj_monthly_token_limit p \<and> s' = replace_project p' s"
proof -
  from assms obtain p where sel: "select_project pid s = Inr p" and dm: "d = utc_date now" "m = utc_month now"
    and ok: "enforce_budget (snapshot_of (roll_periods d m p)) n = Inr ()"
    and p': "p' = charge_project n (roll_periods d m p)" and fl: "flush_project p' s = Inr s'"
    by (auto simp: reserve_Inr simp del: enforce_budget_Inr)
  have "s' = replace_project p' s" using fl by (simp add: flush_project_Inr replace_project_def)
  then show ?thesis
    using select_project_Inr [OF sel] ok p' unfolding dm snapshot_rolled charge_rolled by auto
qed

lemma chat_row_added:
  assumes "create_chat t_reserve t_expires rid created_at p header k s = Inr (Waiting i, s')"
  shows "\<exists>row. requests s' = requests s @ [row] \<and> rq_api_key_id row = ak_id k
    \<and> rq_idempotency_key row = header \<and> rq_id row = i \<and> rq_project_id row = ak_project_id k
    \<and> rq_reserved_tokens row = reserved_tokens p \<and> rq_status row = QUEUED \<and> i \<notin> rq_id ` set (requests s)
    \<and> (0 \<le> reserved_tokens p \<longrightarrow> wf_request row)"
proof -
  from assms obtain al project' d m s1
    where res: "reserve t_reserve (ak_project_id k) (reserved_tokens p) s = Inr ((project', d, m), s1)"
      and ins: "insert_request (queued_request rid created_at header project' k al p
          (t_expires + seconds 300) d m) s1 = Inr s'" and i: "i = rid"
    by (auto simp: create_chat_Inr enqueue_Inr)
  have "requests s1 = requests s" using reserve_frame(1) [OF res] by (metis db.select_convs(6) db.surjective db.update_convs(1))
  moreover have "pj_id project' = ak_project_id k"
    using reserve_charged [OF res] by (auto simp: charged_def)
  ultimately show ?thesis
    using ins i by (auto simp: insert_request_Inr queued_request_def wf_request_def)
qed

lemma chat_row_wf:
  assumes "create_chat t_reserve t_expires rid created_at p header k s = Inr (Waiting i, s')"
  shows "wf_requests (requests s) \<and> 0 \<le> reserved_tokens p \<longrightarrow> wf_requests (requests s')"
  using chat_row_added [OF assms] by (auto simp: wf_requests_def)

text \<open>C11. A chat request that is queued charges its project and adds one row, and nothing else
  changes: the row is the caller's, in \<open>QUEUED\<close>, under a new identifier, with the reservation
  that was charged, in the period it was charged in, for the model of the active alias, expiring
  five minutes later; and the charge is within both limits.\<close>

theorem chat_enqueues_one:
  assumes "create_chat t_reserve t_expires rid created_at p header k s = Inr (Waiting i, s')"
  shows "\<exists>project\<in>set (projects s). \<exists>alias\<in>set (model_aliases s). \<exists>r.
      s' = (replace_project (charged t_reserve (reserved_tokens p) project) s)\<lparr>requests := requests s @ [r]\<rparr>
      \<and> pj_id project = ak_project_id k
      \<and> daily_base t_reserve project + reserved_tokens p \<le> pj_daily_token_limit project
      \<and> monthly_base t_reserve project + reserved_tokens p \<le> pj_monthly_token_limit project
      \<and> ma_alias alias = cc_model p \<and> ma_is_active alias
      \<and> rq_id r = i \<and> i \<notin> rq_id ` set (requests s)
      \<and> rq_status r = QUEUED \<and> rq_result r = None \<and> rq_retry_count r = 0
      \<and> rq_api_key_id r = ak_id k \<and> rq_project_id r = ak_project_id k
      \<and> rq_idempotency_key r = header
      \<and> rq_model_alias r = cc_model p \<and> rq_resolved_model r = ma_model_id alias
      \<and> rq_required_capabilities r = ma_required_capabilities alias
      \<and> rq_reserved_tokens r = reserved_tokens p
      \<and> rq_budget_day r = utc_date t_reserve \<and> rq_budget_month r = utc_month t_reserve
      \<and> rq_expires_at r = t_expires + seconds 300"
proof -
  from assms obtain al project' d m s1
    where al_found: "find_alias (cc_model p) s = Inr (Some al)"
      and res: "reserve t_reserve (ak_project_id k) (reserved_tokens p) s = Inr ((project', d, m), s1)"
      and ins: "insert_request (queued_request rid created_at header project' k al p
          (t_expires + seconds 300) d m) s1 = Inr s'" and i: "i = rid"
    by (auto simp: create_chat_Inr enqueue_Inr)
  from reserve_charged [OF res] obtain project where project: "project \<in> set (projects s)"
    "pj_id project = ak_project_id k" "project' = charged t_reserve (reserved_tokens p) project"
    "d = utc_date t_reserve" "m = utc_month t_reserve"
    "daily_base t_reserve project + reserved_tokens p \<le> pj_daily_token_limit project"
    "monthly_base t_reserve project + reserved_tokens p \<le> pj_monthly_token_limit project"
    "s1 = replace_project project' s" by blast
  have "al \<in> set (model_aliases s)" "ma_alias al = cc_model p" "ma_is_active al"
    using al_found filter_eq_singletonD
    by (auto simp: find_alias_def scalar_one_or_none_eq_Some split: if_splits dest: filter_eq_singletonD)
  then show ?thesis
    using project ins i
    by (intro bexI [of _ project] bexI [of _ al]
        exI [of _ "queued_request rid created_at header project' k al p (t_expires + seconds 300) d m"])
      (auto simp: insert_request_Inr queued_request_def replace_project_def charged_def)
qed

definition sample_chat :: chat_completion_request where
  "sample_chat = \<lparr>cc_model = ''m'', cc_messages = [\<lparr>cm_role = UserRole, cm_content = [104, 228]\<rparr>],
     cc_stream = False, cc_max_tokens = 20, cc_temperature = 1\<rparr>"

lemma sample_chat_tokens: "reserved_tokens sample_chat = 23"
  by (simp add: reserved_tokens_def sample_chat_def utf8_length_def utf8_width_def)

lemma sample_chat_no_nul: "\<not> body_has_nul sample_chat"
  by (simp add: body_has_nul_def has_nul_def sample_chat_def)

lemma sample_chat_accepted:
  "\<exists>s'. create_chat 0 0 6 0 sample_chat (Some ''abcdefgh'') sample_key (sample_db []) = Inr (Waiting 6, s')"
proof -
  have "\<exists>p' s1. reserve 0 5 23 (sample_db []) = Inr ((p', utc_date 0, utc_month 0), s1) \<and> pj_id p' = 5
      \<and> requests s1 = [] \<and> map pj_id (projects s1) = [5] \<and> map ak_id (api_keys s1) = [2]"
  proof -
    have "distinct (map pj_id (projects (sample_db [])))" "sample_project \<in> set (projects (sample_db []))"
      "wf_project sample_project" "pj_id sample_project = 5"
      by (simp_all add: sample_defs wf_project_def fits_int8_def)
    with reserve_stored [of "sample_db []" sample_project 0 23] show ?thesis
      by (simp add: daily_base_def monthly_base_def sample_defs charged_def replace_project_def
          update_where_def)
  qed
  then obtain p' s1 where res: "reserve 0 5 23 (sample_db []) = Inr ((p', utc_date 0, utc_month 0), s1)"
    and p': "pj_id p' = 5" and s1: "requests s1 = []" "map pj_id (projects s1) = [5]" "map ak_id (api_keys s1) = [2]"
    by (elim exE conjE) (rule that)
  have mem: "5 \<in> pj_id ` set (projects s1)" "2 \<in> ak_id ` set (api_keys s1)"
    using s1(2,3) by (metis list.set_intros(1) list.set_map)+
  have al_found: "find_alias ''m'' (sample_db []) = Inr (Some sample_alias)"
    by (simp add: find_alias_def sample_db_def sample_alias_def empty_db_def has_nul_def)
  have existing: "find_existing 2 ''abcdefgh'' (sample_db []) = Inr None"
    by (simp add: find_existing_def sample_db_def)
  have key: "validate_idempotency_key (Some ''abcdefgh'') = Inr (Some ''abcdefgh'')"
    by (simp add: validate_idempotency_key_Some idempotency_char_def is_alnum_def is_lower_def)
  have fields: "ak_project_id sample_key = 5" "ak_id sample_key = 2" "cc_model sample_chat = ''m''"
    "\<not> cc_stream sample_chat" by (simp_all add: sample_key_def sample_chat_def)
  show ?thesis
    unfolding create_chat_Inr enqueue_Inr insert_request_Inr fields sample_chat_tokens
    using res p' s1(1) mem al_found existing key fields
    by (auto simp: queued_request_def sample_chat_tokens fits_int4_def payload_has_nul sample_chat_no_nul)
qed

theorem chat_enqueues_one_witness:
  "\<exists>s' r. create_chat 0 0 6 0 sample_chat (Some ''abcdefgh'') sample_key (sample_db []) = Inr (Waiting 6, s')
    \<and> requests s' = [r] \<and> rq_reserved_tokens r = 23 \<and> rq_status r = QUEUED"
proof -
  obtain s' where c: "create_chat 0 0 6 0 sample_chat (Some ''abcdefgh'') sample_key (sample_db []) = Inr (Waiting 6, s')"
    using sample_chat_accepted by blast
  have "requests (sample_db []) = []" by (simp add: sample_db_def)
  with chat_enqueues_one [OF c] c show ?thesis by (auto simp: sample_chat_tokens)
qed

text \<open>What a valid body reserves is at least two tokens and at most 102404096, so that it is
  positive, as \<open>reserve\<close> demands, and fits the 32-bit column; it covers the requested output and
  at least one token for each character of the prompt.\<close>

theorem reserved_tokens_range:
  assumes "valid_chat_completion_request p"
  shows "2 \<le> reserved_tokens p \<and> reserved_tokens p \<le> 102404096 \<and> fits_int4 (reserved_tokens p)
    \<and> int (sum_list (map (\<lambda>m. length (cm_content m)) (cc_messages p))) + cc_max_tokens p \<le> reserved_tokens p"
proof -
  have "sum_list (map (\<lambda>m. length (cm_content m)) ms) \<le> sum_list (map (\<lambda>m. utf8_length (cm_content m)) ms)"
    for ms :: "chat_message list"
    by (intro sum_list_mono utf8_length_ge)
  then show ?thesis
    using reserved_tokens_bounds [OF assms] by (simp add: reserved_tokens_def fits_int4_def)
qed

theorem reserved_tokens_range_witness:
  "2 \<le> reserved_tokens sample_chat \<and> fits_int4 (reserved_tokens sample_chat)"
proof -
  have "valid_chat_completion_request sample_chat"
    by (simp add: valid_chat_completion_request_def sample_chat_def len_between_def in_range_def
        valid_chat_message_def is_text_def)
  from reserved_tokens_range [OF this] show ?thesis by blast
qed

section \<open>Idempotency\<close>

lemma length_filter_identity:
  assumes "map request_identity rows' = map request_identity rows"
  shows "length (filter (\<lambda>r. rq_api_key_id r = a \<and> rq_idempotency_key r = Some key) rows') =
    length (filter (\<lambda>r. rq_api_key_id r = a \<and> rq_idempotency_key r = Some key) rows)"
proof -
  let ?Q = "\<lambda>(i, key', p, a', x). a' = a \<and> key' = Some key"
  have by_identity: "length (filter (\<lambda>r. rq_api_key_id r = a \<and> rq_idempotency_key r = Some key) qs) =
      length (filter ?Q (map request_identity qs))" for qs
    by (simp add: filter_map comp_def request_identity_def)
  show ?thesis unfolding by_identity assms ..
qed

lemma insert_request_unique:
  assumes "insert_request r s = Inr s'" and "idempotency_unique (requests s)"
  shows "idempotency_unique (requests s')"
  using assms unfolding idempotency_unique_def insert_request_Inr
  by (auto simp: image_iff filter_empty_conv simp del: length_0_conv
      dest!: spec [where x = "rq_api_key_id r"] spec [where x = "the (rq_idempotency_key r)"])
    (metis (mono_tags, lifting) filter_False list.size(3) zero_less_one less_one not_less_eq_eq
      One_nat_def)+

lemma find_existing_single:
  "find_existing a key s = Inr (Some r) \<longleftrightarrow>
     filter (\<lambda>r. rq_api_key_id r = a \<and> rq_idempotency_key r = Some key) (requests s) = [r]"
  by (simp only: find_existing_def scalar_one_or_none_eq_Some)

lemma queue_step_identity:
  "queue_step s s' \<Longrightarrow> wf_requests (requests s) \<Longrightarrow>
   map request_identity (requests s') = map request_identity (requests s)"
proof (induction rule: queue_step.induct)
  case (claim contained_in locked now worker lease s c s')
  then show ?case using claims.keeps_identity [of "requests s" "requests s'"] unfolding claim_rows_def by blast
next
  case (commit now uid rec req worker result i n lat s b s')
  then show ?case using commits.keeps_identity [of "requests s" "requests s'"] unfolding commit_rows_def by blast
next
  case (error req worker retryable code m s b s')
  then show ?case using worker_errors.keeps_identity [of "requests s" "requests s'"] unfolding error_rows_def by blast
next
  case (recover now s k s')
  then show ?case using recovery.keeps_identity [of "requests s" "requests s'"] unfolding recover_rows_def by blast
qed

lemma queue_steps_identity:
  assumes "queue_step\<^sup>*\<^sup>* s s'" and "wf_requests (requests s)"
  shows "wf_requests (requests s') \<and> map request_identity (requests s') = map request_identity (requests s)"
  using assms
  by (induction rule: rtranclp_induct) (auto intro: queue_step_wf dest: queue_step_identity)

text \<open>C12. Idempotency: once a request with an idempotency key is queued, then whatever happens to
  the queue, every further request of the same key with that idempotency key, whatever its body,
  is answered from the stored request: its result when it is completed, its identifier and status
  otherwise. Nothing is reserved, inserted or changed, and there is exactly one such request.\<close>

theorem idempotent_replay:
  assumes "create_chat t t' rid created_at p (Some key) k s = Inr (Waiting rid, s1)"
    and "wf_requests (requests s1)" and "idempotency_unique (requests s)"
    and "queue_step\<^sup>*\<^sup>* s1 s2" and "ak_id k' = ak_id k" and "\<not> cc_stream p'"
  shows "\<exists>r. filter (\<lambda>q. rq_api_key_id q = ak_id k \<and> rq_idempotency_key q = Some key) (requests s2) = [r]
    \<and> rq_id r = rid
    \<and> create_chat u u' rid' created_at' p' (Some key) k' s2 = Inr (Answered (replay r), s2)"
proof -
  let ?P = "\<lambda>q. rq_api_key_id q = ak_id k \<and> rq_idempotency_key q = Some key"
  from assms(1) have valid: "validate_idempotency_key (Some key) = Inr (Some key)"
    and none: "filter ?P (requests s) = []"
    by (auto simp: create_chat_Inr find_existing_def scalar_one_or_none_eq_None scalar_one_or_none_eq_Some
        split: if_splits)
  from chat_row_added [OF assms(1)] obtain row where row: "requests s1 = requests s @ [row]"
    "?P row" "rq_id row = rid" by auto
  note later = queue_steps_identity [OF assms(4,2)]
  have "length (filter ?P (requests s2)) = length (filter ?P (requests s1))"
    using length_filter_identity later by blast
  also have "\<dots> = 1" using row none by simp
  finally obtain r where r: "filter ?P (requests s2) = [r]" by (auto simp: length_Suc_conv)
  have "rq_id r = rid"
  proof -
    have "(rq_id r, rq_idempotency_key r, rq_api_key_id r) \<in>
        (\<lambda>(i, key, p, a, x). (i, key, a)) ` set (map request_identity (requests s2))"
      using filter_eq_singletonD(1) [OF r] by (force simp: request_identity_def)
    then obtain q where q: "q \<in> set (requests s1)" "rq_id q = rq_id r" "?P q"
      using later filter_eq_singletonD(2) [OF r] by (auto simp: request_identity_def)
    then have "q = row" using row(1) none by (auto simp: filter_empty_conv)
    with q row show ?thesis by simp
  qed
  moreover have "create_chat u u' rid' created_at' p' (Some key) k' s2 = Inr (Answered (replay r), s2)"
    using valid r assms(5,6) by (simp add: create_chat_Inr find_existing_single)
  ultimately show ?thesis using r by blast
qed

theorem idempotent_replay_witness:
  "\<exists>s1 r. create_chat 0 0 6 0 sample_chat (Some ''abcdefgh'') sample_key (sample_db []) = Inr (Waiting 6, s1)
    \<and> create_chat 9 9 7 9 sample_chat (Some ''abcdefgh'') sample_key s1 = Inr (Answered (replay r), s1)
    \<and> rq_id r = 6"
proof -
  obtain s1 where c: "create_chat 0 0 6 0 sample_chat (Some ''abcdefgh'') sample_key (sample_db []) = Inr (Waiting 6, s1)"
    using sample_chat_accepted by blast
  have unique: "idempotency_unique (requests (sample_db []))"
    by (simp add: idempotency_unique_def sample_db_def)
  have wf: "wf_requests (requests s1)"
    using chat_row_wf [OF c] by (simp add: sample_db_def sample_chat_tokens wf_requests_def)
  have "\<not> cc_stream sample_chat" by (simp add: sample_chat_def)
  from idempotent_replay [OF c wf unique rtranclp.rtrancl_refl refl this] c show ?thesis by blast
qed

section \<open>The second phase\<close>

text \<open>
  The loop stops at the first poll that decides, or at the first test of the clock past the
  deadline; \<open>stops_at\<close> says that this is the \<open>n\<close>-th round.
\<close>

definition undecided :: "rat \<Rightarrow> (nat \<Rightarrow> rat) \<Rightarrow> (nat \<Rightarrow> orbi_request option) \<Rightarrow> nat \<Rightarrow> bool" where
  "undecided deadline clock lookup i \<longleftrightarrow> clock i < deadline \<and> poll (lookup i) = None"

lemma wait_loop_unroll:
  assumes "\<forall>j<n. undecided deadline clock lookup (i + j)"
  shows "wait_loop deadline q clock lookup i = wait_loop deadline q clock lookup (i + n)"
  using assms
proof (induction n arbitrary: i)
  case 0
  then show ?case by simp
next
  case (Suc n)
  from Suc.prems have "undecided deadline clock lookup (i + 0)" by blast
  then have "wait_loop deadline q clock lookup i = wait_loop deadline q clock lookup (Suc i)"
    by (subst wait_loop.simps) (simp add: undecided_def)
  also have "\<dots> = wait_loop deadline q clock lookup (Suc i + n)"
  proof (rule Suc.IH, intro allI impI)
    fix j assume "j < n"
    then have "undecided deadline clock lookup (i + Suc j)" using Suc.prems by blast
    then show "undecided deadline clock lookup (Suc i + j)" by simp
  qed
  finally show ?case by simp
qed

lemma wait_loop_stops:
  assumes "\<forall>j<n. undecided deadline clock lookup j" and "\<not> undecided deadline clock lookup n"
  shows "wait_loop deadline q clock lookup 0 = Some
    (if clock n < deadline then the (poll (lookup n)) else Inl (timeout_error q))"
proof -
  have "wait_loop deadline q clock lookup 0 = wait_loop deadline q clock lookup n"
    using wait_loop_unroll [of n deadline clock lookup 0 q] assms(1) by simp
  then show ?thesis
    using assms(2) by (subst (asm) (2) wait_loop.simps) (auto simp: undecided_def split: option.splits)
qed

lemma clock_progress:
  fixes clock :: "nat \<Rightarrow> rat"
  assumes "started \<le> clock 0" and "\<forall>i. clock i + 1 / 4 \<le> clock (Suc i)"
  shows "started + of_nat n / 4 \<le> clock n"
proof (induction n)
  case 0
  then show ?case using assms(1) by simp
next
  case (Suc n)
  have "clock n + 1 / 4 \<le> clock (Suc n)" using assms(2) by blast
  with Suc show ?case by (simp add: add_divide_distrib)
qed

text \<open>Each round sleeps a quarter of a second, so the loop stops after at most four polls for each second.\<close>

lemma waiting_stops:
  assumes "0 \<le> st_request_wait_timeout_seconds st"
    and "started \<le> clock 0" and "\<forall>i. clock i + 1 / 4 \<le> clock (Suc i)"
    and "deadline = started + of_int (st_request_wait_timeout_seconds st)"
  shows "\<exists>n. int n \<le> 4 * st_request_wait_timeout_seconds st
    \<and> (\<forall>j<n. clock j < deadline \<and> poll (lookup j) = None)
    \<and> (if clock n < deadline
       then poll (lookup n) \<noteq> None \<and> wait_for_result st q started clock lookup = poll (lookup n)
       else wait_for_result st q started clock lookup = Some (Inl (timeout_error q)))"
proof -
  let ?T = "nat (4 * st_request_wait_timeout_seconds st)"
  have bound: "started + of_nat ?T / 4 = deadline"
    using assms(1,4) by (simp add: of_nat_nat)
  then have "\<not> undecided deadline clock lookup ?T"
    using clock_progress [OF assms(2,3), of ?T] by (simp add: undecided_def)
  then have "\<exists>n. \<not> undecided deadline clock lookup n" by blast
  define n where "n = (LEAST n. \<not> undecided deadline clock lookup n)"
  have stop: "\<not> undecided deadline clock lookup n"
    unfolding n_def by (rule LeastI_ex) fact
  have before: "\<forall>j<n. undecided deadline clock lookup j"
    unfolding n_def using not_less_Least by blast
  have "n \<le> ?T" unfolding n_def by (rule Least_le) fact
  then have "int n \<le> 4 * st_request_wait_timeout_seconds st" using assms(1) by linarith
  moreover have "wait_for_result st q started clock lookup = Some
      (if clock n < deadline then the (poll (lookup n)) else Inl (timeout_error q))"
    using wait_loop_stops [OF before stop] by (simp add: wait_for_result_def assms(4))
  moreover have "poll (lookup n) \<noteq> None" if "clock n < deadline"
    using stop that by (simp add: undecided_def)
  ultimately show ?thesis using before by (intro exI [of _ n]) (auto simp: undecided_def)
qed

text \<open>C13. Every chat request is answered: for every clock that advances with the sleeps of the loop, the endpoint returns after at most
  four polls for each second of the configured timeout. A failed admission and a stored answer are returned as they are, without waiting.
  Otherwise the answer is what the first deciding poll found: the stored result of a completed request, error 503 when it failed, was
  cancelled or expired, error 500 when it is gone, and the timeout error 504, which names the request, when no poll before the deadline
  decided. The wait changes neither the database nor Redis.\<close>

theorem chat_completion_answers:
  assumes "0 \<le> st_request_wait_timeout_seconds (app_settings app)"
    and "started \<le> loop_clock 0" and "\<forall>i. loop_clock i + 1 / 4 \<le> loop_clock (Suc i)"
    and "deadline = started + of_int (st_request_wait_timeout_seconds (app_settings app))"
    and "post_chat app clock authorization t_reserve t_expires rid created_at p header s redis = (outcome, s1, redis1)"
  shows "\<exists>answer. chat_completion app clock authorization t_reserve t_expires rid created_at p header
        started loop_clock lookup s redis = (Some answer, s1, redis1)
    \<and> (case outcome of
         Inl e \<Rightarrow> answer = Inl e
       | Inr (Answered body) \<Rightarrow> answer = Inr body
       | Inr (Waiting q) \<Rightarrow>
           (\<exists>n. int n \<le> 4 * st_request_wait_timeout_seconds (app_settings app)
              \<and> (\<forall>j<n. loop_clock j < deadline \<and> poll (lookup j) = None)
              \<and> (if loop_clock n < deadline then poll (lookup n) = Some answer else answer = Inl (timeout_error q))))"
proof -
  have waits: "\<exists>answer. wait_for_result (app_settings app) q started loop_clock lookup = Some answer
      \<and> (\<exists>n. int n \<le> 4 * st_request_wait_timeout_seconds (app_settings app)
          \<and> (\<forall>j<n. loop_clock j < deadline \<and> poll (lookup j) = None)
          \<and> (if loop_clock n < deadline then poll (lookup n) = Some answer else answer = Inl (timeout_error q)))" for q
  proof -
    from waiting_stops [OF assms(1-4), where lookup = lookup and q = q] obtain n
      where n: "int n \<le> 4 * st_request_wait_timeout_seconds (app_settings app)"
        "\<forall>j<n. loop_clock j < deadline \<and> poll (lookup j) = None"
        "if loop_clock n < deadline
         then poll (lookup n) \<noteq> None \<and> wait_for_result (app_settings app) q started loop_clock lookup = poll (lookup n)
         else wait_for_result (app_settings app) q started loop_clock lookup = Some (Inl (timeout_error q))"
      by blast
    show ?thesis
    proof (cases "loop_clock n < deadline")
      case True
      with n(3) obtain answer where "poll (lookup n) = Some answer"
        "wait_for_result (app_settings app) q started loop_clock lookup = Some answer" by auto
      with n(1,2) True show ?thesis by auto
    next
      case False
      with n show ?thesis by auto
    qed
  qed
  show ?thesis
  proof (cases "\<exists>q. outcome = Inr (Waiting q)")
    case True
    then obtain q where q: "outcome = Inr (Waiting q)" by blast
    with waits [of q] obtain answer where
      "wait_for_result (app_settings app) q started loop_clock lookup = Some answer
      \<and> (\<exists>n. int n \<le> 4 * st_request_wait_timeout_seconds (app_settings app)
          \<and> (\<forall>j<n. loop_clock j < deadline \<and> poll (lookup j) = None)
          \<and> (if loop_clock n < deadline then poll (lookup n) = Some answer else answer = Inl (timeout_error q)))"
      by blast
    then show ?thesis by (intro exI [of _ answer]) (simp add: chat_completion_def assms(5) q)
  next
    case False
    then show ?thesis by (auto simp: chat_completion_def assms(5) split: sum.split chat_outcome.split)
  qed
qed

theorem chat_completion_answers_witness:
  "\<exists>s1 redis1. chat_completion (sample_app sample_codec) (0, 0, 0) None 0 0 6 0 sample_chat None 0 (\<lambda>i. of_nat i / 4)
       (\<lambda>i. None) keyed_db sample_redis = (Some (Inl invalid_api_key), s1, redis1)"
proof -
  have clock: "\<forall>i. (of_nat i / 4 :: rat) + 1 / 4 \<le> of_nat (Suc i) / 4" by (simp add: add_divide_distrib)
  have timeout: "0 \<le> st_request_wait_timeout_seconds (app_settings (sample_app sample_codec))"
    by (simp add: sample_app_def default_settings_def)
  obtain s1 redis1 where "post_chat (sample_app sample_codec) (0, 0, 0) None 0 0 6 0 sample_chat None keyed_db sample_redis =
      (Inl invalid_api_key, s1, redis1)"
    by (simp add: post_chat_def with_api_key_def require_api_key_def bearer_token_def session_scope_def)
  from chat_completion_answers [OF timeout _ clock refl this, of 0 "\<lambda>_. None"] show ?thesis by auto
qed

text \<open>What a poll makes of a well-formed row: a result only from a completed row, a failure
  only from a failed, cancelled or expired one, nothing from an open one.\<close>

theorem poll_decides_terminal:
  assumes "wf_request r"
  shows "(poll (Some r) = None \<longleftrightarrow> \<not> terminal (rq_status r))
    \<and> (\<forall>result. poll (Some r) = Some (Inr result) \<longleftrightarrow> rq_status r = COMPLETED \<and> rq_result r = Some result)"
  using assms by (auto simp: poll_def wf_request_def split: request_status.splits option.splits)

theorem poll_decides_terminal_witness:
  "poll (Some (sample_request 6 5)) = None \<longleftrightarrow> \<not> terminal QUEUED"
proof -
  have "wf_request (sample_request 6 5)" "rq_status (sample_request 6 5) = QUEUED"
    by (simp_all add: wf_request_def sample_request_def)
  then show ?thesis using poll_decides_terminal [of "sample_request 6 5"] by simp
qed

section \<open>Errors\<close>

lemma find_alias_total:
  assumes "keys_ok s" and "\<not> has_nul m"
  shows "\<exists>v. find_alias m s = Inr v"
proof -
  have "length (filter (\<lambda>a. ma_alias a = m \<and> ma_is_active a) (model_aliases s)) \<le> 1"
    using assms(1) by (intro length_filter_key) (simp add: keys_ok_def)
  then show ?thesis using scalar_one_or_none_total assms(2) by (simp add: find_alias_def)
qed

lemma find_existing_total: "keys_ok s \<Longrightarrow> \<exists>v. find_existing a key s = Inr v"
  unfolding find_existing_def keys_ok_def idempotency_unique_def
  by (intro scalar_one_or_none_total) auto

text \<open>The errors of the handler, as the pairs of code and HTTP status.\<close>

definition chat_errors :: "(string \<times> nat) list" where
  "chat_errors =
     [(''streaming_not_available'', 400), (''invalid_idempotency_key'', 400), (''model_not_found'', 404),
      (''token_budget_exceeded'', 429), (''idempotency_conflict'', 409)]"

lemma create_chat_errors:
  assumes "create_chat t t' rid created_at p header k s = Inl e"
    and ok: "keys_ok s" and tokens: "1 \<le> reserved_tokens p" "fits_int4 (reserved_tokens p)"
    and key: "k \<in> set (api_keys s)"
  shows "(\<exists>code m st. e = OrbiError code m st \<and> (code, st) \<in> set chat_errors) \<or> e = DataError \<and> body_has_nul p"
proof -
  have project: "ak_project_id k \<in> pj_id ` set (projects s)" using ok key by (simp add: keys_ok_def)
  then obtain pr where pr: "pr \<in> set (projects s)" "pj_id pr = ak_project_id k" by auto
  have "distinct (map pj_id (projects s))" "wf_project pr" using ok pr(1) by (auto simp: keys_ok_def)
  from reserve_stored [OF this(1) pr(1) this(2), unfolded pr(2)]
  have res: "(\<exists>m. reserve t (ak_project_id k) (reserved_tokens p) s = Inl (BudgetExceededError m)) \<or>
      (\<exists>v. reserve t (ak_project_id k) (reserved_tokens p) s = Inr v)"
    using tokens(1) by auto
  have ins: "insert_request (queued_request rid created_at header project k al p exp d m) s1 = Inl x
      \<Longrightarrow> x = IntegrityError \<or> x = DataError \<and> body_has_nul p" for project al exp d m s1 x
    using tokens(2) by (auto simp: insert_request_def queued_request_def payload_has_nul split: if_splits)
  have enq: "(\<exists>code m st. e = OrbiError code m st \<and> (code, st) \<in> set chat_errors) \<or> e = DataError \<and> body_has_nul p"
    if err: "enqueue t t' rid created_at p header k s = Inl e"
  proof (cases "has_nul (cc_model p)")
    case True
    with err show ?thesis by (simp add: enqueue_def find_alias_def body_has_nul_def)
  next
    case False
    then obtain found where al_found: "find_alias (cc_model p) s = Inr found" using find_alias_total [OF ok] by blast
    show ?thesis
    proof (cases found)
      case None
      with err al_found show ?thesis by (auto simp: enqueue_def chat_errors_def)
    next
      case (Some al)
      from res show ?thesis
      proof (elim disjE exE)
        fix m assume "reserve t (ak_project_id k) (reserved_tokens p) s = Inl (BudgetExceededError m)"
        then have "enqueue t t' rid created_at p header k s = Inl (OrbiError ''token_budget_exceeded'' m 429)"
          by (simp add: enqueue_def al_found Some map_error_def)
        with err have "e = OrbiError ''token_budget_exceeded'' m 429" by (simp only: sum.inject)
        then show ?thesis by (simp add: chat_errors_def)
      next
        fix v assume "reserve t (ak_project_id k) (reserved_tokens p) s = Inr v"
        moreover obtain project d m s1 where "v = ((project, d, m), s1)" by (cases v) auto
        ultimately have "map_error conflict_error (insert_request (queued_request rid created_at header
            project k al p (t' + seconds 300) d m) s1) = Inl e"
          using err al_found Some by (simp add: enqueue_def map_error_def [of budget_error] bind_result_eq_Inl)
        then obtain x where "insert_request (queued_request rid created_at header
            project k al p (t' + seconds 300) d m) s1 = Inl x" and e: "e = conflict_error x"
          by (auto simp: map_error_def split: sum.splits)
        from ins [OF this(1)] show ?thesis by (auto simp: e chat_errors_def)
      qed
    qed
  qed
  show ?thesis
  proof (cases "cc_stream p")
    case True
    with assms(1) have "e = OrbiError ''streaming_not_available'' ''Streaming is deferred to Phase 2.'' 400"
      by (simp add: create_chat_def)
    then show ?thesis by (simp add: chat_errors_def)
  next
    case False
    show ?thesis
    proof (cases "validate_idempotency_key header")
      case (Inl x)
      then obtain m where "x = ValueError m"
        by (cases header) (auto simp: validate_idempotency_key_None validate_idempotency_key_Some split: if_splits)
      with Inl assms(1) False have "e = OrbiError ''invalid_idempotency_key'' m 400"
        by (simp add: create_chat_def map_error_def)
      then show ?thesis by (simp add: chat_errors_def)
    next
      case (Inr key)
      then have "key = header" by (simp add: validate_idempotency_key_Inr)
      show ?thesis
      proof (cases header)
        case None
        with assms(1) False Inr \<open>key = header\<close> enq show ?thesis by (simp add: create_chat_def map_error_def)
      next
        case (Some kk)
        obtain found where "find_existing (ak_id k) kk s = Inr found"
          using find_existing_total [OF ok] by blast
        with assms(1) False Inr \<open>key = header\<close> Some enq show ?thesis
          by (cases found) (simp_all add: create_chat_def map_error_def)
      qed
    qed
  qed
qed

text \<open>C24. A chat request that fails, fails cleanly: with consistent tables and a valid body the database is exactly
  what it was before the request, whatever the error. Neither the request counter of the key nor any reservation survives a failure;
  what the call did to Redis does. The error is one of the documented public errors with its HTTP status, with two exceptions, which are
  answered 500: the database refuses a body that contains U+0000, and argon2 may fail to verify the stored hash of the presented key.
  A body with U+0000 is never queued.\<close>

theorem chat_failure_is_clean:
  assumes "post_chat app clock authorization t t' rid created_at p header s redis = (answer, s', redis')"
    and "keys_ok s" and "valid_chat_completion_request p"
  shows "(\<forall>e. answer = Inl e \<longrightarrow> s' = s
      \<and> ((\<exists>code m st. e = OrbiError code m st
            \<and> (code, st) \<in> set (auth_errors @ (''insufficient_scope'', 403) # chat_errors))
         \<or> e = DataError \<and> body_has_nul p
         \<or> e = VerificationError \<and> hash_fails app authorization s))
    \<and> (body_has_nul p \<longrightarrow> (\<forall>q. answer \<noteq> Inr (Waiting q)))"
proof (intro conjI allI impI)
  fix e assume "answer = Inl e"
  with assms(1) show "s' = s" unfolding post_chat_def by (auto intro: with_api_key_Inl)
next
  fix q assume "body_has_nul p"
  then have refused: "create_chat t t' rid created_at p header k s1 \<noteq> Inr (Waiting q, s2)" for k s1 s2
    by (auto simp: create_chat_Inr enqueue_Inr insert_request_Inr queued_request_def payload_has_nul)
  show "answer \<noteq> Inr (Waiting q)"
  proof
    assume "answer = Inr (Waiting q)"
    with assms(1) refused show False
      by (cases clock)
        (auto simp: post_chat_def with_api_key_def session_scope_def bind_result_eq_Inr split: prod.splits sum.splits)
  qed
next
  fix e assume err: "answer = Inl e"
  note failed = assms(1) [unfolded err]
  obtain t_active now t_rate where clock: "clock = (t_active, now, t_rate)" by (cases clock) auto
  obtain auth redis1 where auth: "require_api_key app t_active now t_rate authorization s redis = (auth, redis1)"
    by fastforce
  show "(\<exists>code m st. e = OrbiError code m st
        \<and> (code, st) \<in> set (auth_errors @ (''insufficient_scope'', 403) # chat_errors))
      \<or> e = DataError \<and> body_has_nul p \<or> e = VerificationError \<and> hash_fails app authorization s"
  proof (cases auth)
    case (Inl x)
    then have "e = x"
      using failed auth clock by (simp add: post_chat_def with_api_key_def session_scope_def)
    with require_api_key_errors [of app t_active now t_rate authorization s redis x]
      require_api_key_fails [of app authorization s t_active now t_rate redis] auth Inl assms(2)
    show ?thesis by (cases "hash_fails app authorization s") auto
  next
    case (Inr ks)
    obtain k s1 where ks: "ks = (k, s1)" by (cases ks)
    from auth Inr ks have acc: "fst (require_api_key app t_active now t_rate authorization s redis) = Inr (k, s1)"
      by simp
    from acc obtain key_id k0 where sel: "select_key key_id s = Inr (Some k0)"
      and k: "k = counted now k0" "s1 = replace_key k s"
      unfolding require_api_key_Inr by blast
    note k0 = select_key_Some [OF sel]
    have keys1: "keys_ok s1" and mem: "k \<in> set (api_keys s1)"
      using assms(2) k0(1) by (simp_all add: k keys_ok_counted counted_mem)
    have "fits_int4 (reserved_tokens p)" "1 \<le> reserved_tokens p"
      using reserved_tokens_bounds [OF assms(3)] by (simp_all add: fits_int4_def)
    have handled: "post_chat app clock authorization t t' rid created_at p header s redis =
        (let (answer, s') = session_scope (\<lambda>_. bind_result (require_api_scope ''chat'' k)
            (\<lambda>k. create_chat t t' rid created_at p header k s1)) s in (answer, s', redis1))"
      by (simp add: post_chat_def with_api_key_def clock auth Inr ks)
    show ?thesis
    proof (cases "require_api_scope ''chat'' k")
      case (Inl x)
      with failed have "e = x" unfolding handled by (simp add: session_scope_def)
      with Inl show ?thesis by (auto simp: require_api_scope_def split: if_splits)
    next
      case (Inr k')
      then have "k' = k" by (simp add: require_api_scope_def split: if_splits)
      with failed Inr have "create_chat t t' rid created_at p header k s1 = Inl e"
        unfolding handled by (auto simp: session_scope_def split: sum.splits prod.splits)
      from create_chat_errors [OF this keys1 \<open>1 \<le> reserved_tokens p\<close> \<open>fits_int4 (reserved_tokens p)\<close> mem]
      show ?thesis by auto
    qed
  qed
qed

text \<open>A body with U+0000 in a message.\<close>

definition nul_chat :: chat_completion_request where
  "nul_chat = sample_chat\<lparr>cc_messages := [\<lparr>cm_role = UserRole, cm_content = [104, 0]\<rparr>]\<rparr>"

theorem chat_failure_is_clean_witness:
  "post_chat (sample_app sample_codec) (0, 0, 0) None 0 0 6 0 sample_chat None keyed_db sample_redis =
     (Inl invalid_api_key, keyed_db, sample_redis)
   \<and> fst (post_chat (sample_app sample_codec) (0, 0, 0) sample_header 0 0 6 0 nul_chat None keyed_db sample_redis)
      \<noteq> Inr (Waiting 6)"
proof -
  have valid: "valid_chat_completion_request sample_chat" "valid_chat_completion_request nul_chat"
    by (simp_all add: valid_chat_completion_request_def sample_chat_def nul_chat_def len_between_def in_range_def
        valid_chat_message_def is_text_def)
  obtain s' where c: "post_chat (sample_app sample_codec) (0, 0, 0) None 0 0 6 0 sample_chat None keyed_db
      sample_redis = (Inl invalid_api_key, s', sample_redis)"
    by (simp add: post_chat_def with_api_key_def require_api_key_def bearer_token_def session_scope_def)
  obtain answer s2 redis2 where n: "post_chat (sample_app sample_codec) (0, 0, 0) sample_header 0 0 6 0 nul_chat None keyed_db
      sample_redis = (answer, s2, redis2)" by (metis prod_cases3)
  have "body_has_nul nul_chat" by (simp add: body_has_nul_def nul_chat_def)
  with chat_failure_is_clean [OF c keyed_db_ok valid(1)] chat_failure_is_clean [OF n keyed_db_ok valid(2)] c n
  show ?thesis by simp
qed

end
