(* ===== verification/Worker_Routes.thy ===== *)
theory Worker_Routes
  imports Auth_Properties Responses Schemas Queue_Properties
begin

text \<open>
  \<open>routes/internal/workers.py\<close>: registration, heartbeat, pull, result, renewal and error. A
  handler changes the columns it assigns on the stored row of the worker. The identifiers, tokens
  and times that the code draws are arguments.
\<close>

definition change_worker :: "uuid \<Rightarrow> (worker \<Rightarrow> worker) \<Rightarrow> db \<Rightarrow> db" where
  "change_worker i f s = s\<lparr>workers := update_where (\<lambda>w. wk_id w = i) f (workers s)\<rparr>"

record worker_token_response =
  tr_worker_id :: uuid
  tr_access_token :: string
  tr_expires_in :: int

section \<open>Registration\<close>

definition invalid_enrollment :: "string \<Rightarrow> exn" where
  "invalid_enrollment m = OrbiError ''invalid_enrollment_token'' m 401"

definition new_worker :: "uuid \<Rightarrow> instant \<Rightarrow> instant \<Rightarrow> worker_register_request \<Rightarrow> worker" where
  "new_worker worker_id registered_at now p =
     \<lparr>wk_id = worker_id, wk_provider_type = wr_provider_type p, wk_name = wr_name p,
      wk_status = ONLINE, wk_supported_models = wr_supported_models p,
      wk_capabilities = wr_capabilities p, wk_current_queue_depth = 0, wk_failure_count_1h = 0,
      wk_p95_latency_ms = None, wk_token_jti = None, wk_registered_at = registered_at,
      wk_last_heartbeat = Some now, wk_revoked_at = None\<rparr>"

definition insert_worker :: "worker \<Rightarrow> db \<Rightarrow> db result" where
  "insert_worker w s =
     (if wk_id w \<in> wk_id ` set (workers s) then Inl IntegrityError
      else Inr (s\<lparr>workers := workers s @ [w]\<rparr>))"

definition consume_token :: "instant \<Rightarrow> worker_enrollment_token \<Rightarrow> db \<Rightarrow> db" where
  "consume_token now t s = s\<lparr>enrollment_tokens :=
     update_where (\<lambda>q. et_id q = et_id t) (\<lambda>q. q\<lparr>et_consumed_at := Some now\<rparr>) (enrollment_tokens s)\<rparr>"

definition check_enrollment ::
  "enrollment_service \<Rightarrow> instant \<Rightarrow> string \<Rightarrow> worker_enrollment_token option \<Rightarrow>
     worker_enrollment_token result" where
  "check_enrollment svc now raw found =
     (case found of
        None \<Rightarrow> Inl (invalid_enrollment ''Enrollment token is invalid or expired.'')
      | Some t \<Rightarrow>
          if et_consumed_at t \<noteq> None \<or> et_expires_at t \<le> now
          then Inl (invalid_enrollment ''Enrollment token is invalid or expired.'')
          else bind_result (parse_and_verify svc raw (et_secret_hash t)) (\<lambda>verified.
            if verified = None
            then Inl (invalid_enrollment ''Enrollment token is invalid or expired.'')
            else Inr t))"

definition register_worker ::
  "'s app_state \<Rightarrow> instant \<Rightarrow> uuid \<Rightarrow> instant \<Rightarrow> instant \<Rightarrow> string \<Rightarrow> worker_register_request \<Rightarrow> db \<Rightarrow>
     (worker_token_response \<times> db) result" where
  "register_worker app now worker_id registered_at t_issue jti p s =
     (case split_node_token (wr_enrollment_token p) of
        None \<Rightarrow> Inl (invalid_enrollment ''Enrollment token is invalid.'')
      | Some (token_id, secret) \<Rightarrow>
          bind_result (scalar_one_or_none (filter (\<lambda>t. et_token_id t = token_id) (enrollment_tokens s)))
            (\<lambda>found.
          bind_result (check_enrollment (app_enrollment_service app) now (wr_enrollment_token p) found)
            (\<lambda>token.
          bind_result (insert_worker (new_worker worker_id registered_at now p) s) (\<lambda>s1.
            let (access_token, jti') =
                  issue (app_jwt_codec app) (app_jwt_service app) t_issue jti (uuid_str worker_id);
                s2 = change_worker worker_id (\<lambda>w. w\<lparr>wk_token_jti := Some jti'\<rparr>) s1;
                s3 = consume_token now token s2
            in Inr (\<lparr>tr_worker_id = worker_id, tr_access_token = access_token,
                     tr_expires_in = st_worker_token_ttl_seconds (app_settings app)\<rparr>, s3)))))"

definition post_register ::
  "'s app_state \<Rightarrow> instant \<Rightarrow> uuid \<Rightarrow> instant \<Rightarrow> instant \<Rightarrow> string \<Rightarrow> worker_register_request \<Rightarrow> db \<Rightarrow>
     worker_token_response result \<times> db" where
  "post_register app now worker_id registered_at t_issue jti p s =
     session_scope (register_worker app now worker_id registered_at t_issue jti p) s"

section \<open>The authenticated endpoints\<close>

definition heartbeat :: "instant \<Rightarrow> worker_heartbeat_request \<Rightarrow> worker \<Rightarrow> db \<Rightarrow> (unit \<times> db) result" where
  "heartbeat now p worker s =
     Inr ((), change_worker (wk_id worker) (\<lambda>w. w\<lparr>wk_status := wh_status p,
       wk_current_queue_depth := wh_current_queue_depth p, wk_capabilities := wh_capabilities p,
       wk_last_heartbeat := Some now\<rparr>) s)"

definition post_heartbeat ::
  "'s app_state \<Rightarrow> instant \<Rightarrow> string option \<Rightarrow> instant \<Rightarrow> worker_heartbeat_request \<Rightarrow> db \<Rightarrow> unit result \<times> db" where
  "post_heartbeat app t_auth authorization now p s =
     with_worker app t_auth authorization ''worker:heartbeat'' (heartbeat now p) s"

definition pull_body :: "orbi_request option \<Rightarrow> json" where
  "pull_body claimed = JObj [(''request'',
     case claimed of
       None \<Rightarrow> JNull
     | Some r \<Rightarrow> JObj
         [(''id'', JStr (uuid_str (rq_id r))), (''model'', JStr (rq_resolved_model r)),
          (''payload'', rq_payload r), (''retry_count'', JNum (of_int (rq_retry_count r))),
          (''lease_expires'', case rq_lease_expires r of None \<Rightarrow> JNull | Some l \<Rightarrow> JStr (iso_datetime l))])]"

definition pull_request ::
  "'s app_state \<Rightarrow> (json \<Rightarrow> json \<Rightarrow> bool) \<Rightarrow> uuid set \<Rightarrow> instant \<Rightarrow> worker \<Rightarrow> db \<Rightarrow> (json \<times> db) result" where
  "pull_request app jsonb_contained locked now worker s =
     (if wk_status worker \<noteq> ONLINE then Inr (pull_body None, s)
      else
        let (claimed, s') = claim_next jsonb_contained locked now worker
              (st_worker_lease_seconds (app_settings app)) s
        in Inr (pull_body claimed, s'))"

definition get_request ::
  "'s app_state \<Rightarrow> (json \<Rightarrow> json \<Rightarrow> bool) \<Rightarrow> uuid set \<Rightarrow> instant \<Rightarrow> string option \<Rightarrow> instant \<Rightarrow> db \<Rightarrow>
     json result \<times> db" where
  "get_request app jsonb_contained locked t_auth authorization now s =
     with_worker app t_auth authorization ''worker:pull'' (pull_request app jsonb_contained locked now) s"

definition submit_result ::
  "'s app_state \<Rightarrow> instant \<Rightarrow> uuid \<Rightarrow> instant \<Rightarrow> worker_result_request \<Rightarrow> worker \<Rightarrow> db \<Rightarrow> (unit \<times> db) result" where
  "submit_result app now usage_id recorded_at p worker s =
     bind_result (commit_result (app_budget_service app) now usage_id recorded_at (ws_request_id p) worker
         (ws_result p) (ws_input_tokens p) (ws_output_tokens p) (ws_latency_ms p) s) (\<lambda>(accepted, s').
       if \<not> accepted
       then Inl (OrbiError ''result_not_accepted''
              ''The request is complete, unassigned, or assigned to another worker.'' 409)
       else Inr ((), s'))"

definition post_result ::
  "'s app_state \<Rightarrow> instant \<Rightarrow> string option \<Rightarrow> instant \<Rightarrow> uuid \<Rightarrow> instant \<Rightarrow> worker_result_request \<Rightarrow> db \<Rightarrow>
     unit result \<times> db" where
  "post_result app t_auth authorization now usage_id recorded_at p s =
     with_worker app t_auth authorization ''worker:result''
       (submit_result app now usage_id recorded_at p) s"

definition renew_worker_token ::
  "'s app_state \<Rightarrow> instant \<Rightarrow> string \<Rightarrow> worker \<Rightarrow> db \<Rightarrow> (worker_token_response \<times> db) result" where
  "renew_worker_token app t_issue jti worker s =
     (let (access_token, jti') =
            issue (app_jwt_codec app) (app_jwt_service app) t_issue jti (uuid_str (wk_id worker));
          s' = change_worker (wk_id worker) (\<lambda>w. w\<lparr>wk_token_jti := Some jti'\<rparr>) s
      in Inr (\<lparr>tr_worker_id = wk_id worker, tr_access_token = access_token,
               tr_expires_in = st_worker_token_ttl_seconds (app_settings app)\<rparr>, s'))"

definition post_renew ::
  "'s app_state \<Rightarrow> instant \<Rightarrow> string option \<Rightarrow> instant \<Rightarrow> string \<Rightarrow> db \<Rightarrow> worker_token_response result \<times> db" where
  "post_renew app t_auth authorization t_issue jti s =
     with_worker app t_auth authorization ''worker:renew'' (renew_worker_token app t_issue jti) s"

definition submit_error ::
  "'s app_state \<Rightarrow> worker_error_request \<Rightarrow> worker \<Rightarrow> db \<Rightarrow> (unit \<times> db) result" where
  "submit_error app p worker s =
     bind_result (record_error (app_budget_service app) (we_request_id p) worker (we_retryable p)
         (we_error_code p) (we_message p) s) (\<lambda>(accepted, s').
       if \<not> accepted
       then Inl (OrbiError ''error_not_accepted''
              ''The request is complete, unassigned, or assigned to another worker.'' 409)
       else Inr ((), s'))"

definition post_error ::
  "'s app_state \<Rightarrow> instant \<Rightarrow> string option \<Rightarrow> worker_error_request \<Rightarrow> db \<Rightarrow> unit result \<times> db" where
  "post_error app t_auth authorization p s =
     with_worker app t_auth authorization ''worker:error'' (submit_error app p) s"

section \<open>Facts\<close>

lemma change_worker_ids:
  assumes "\<And>w. wk_id (f w) = wk_id w"
  shows "map wk_id (workers (change_worker i f s)) = map wk_id (workers s)"
  using assms by (simp add: change_worker_def map_update_where)

lemma change_worker_frame [simp]:
  "projects (change_worker i f s) = projects s" "api_keys (change_worker i f s) = api_keys s"
  "requests (change_worker i f s) = requests s" "usage_records (change_worker i f s) = usage_records s"
  "enrollment_tokens (change_worker i f s) = enrollment_tokens s"
  "model_aliases (change_worker i f s) = model_aliases s"
  by (simp_all add: change_worker_def)

lemma consume_token_frame [simp]:
  "projects (consume_token now t s) = projects s" "api_keys (consume_token now t s) = api_keys s"
  "requests (consume_token now t s) = requests s" "usage_records (consume_token now t s) = usage_records s"
  "workers (consume_token now t s) = workers s" "model_aliases (consume_token now t s) = model_aliases s"
  by (simp_all add: consume_token_def)

lemma check_enrollment_Inr:
  "check_enrollment svc now raw found = Inr t \<longleftrightarrow>
     found = Some t \<and> et_consumed_at t = None \<and> now < et_expires_at t
     \<and> (\<exists>i. parse_and_verify svc raw (et_secret_hash t) = Inr (Some i))"
  by (auto simp: check_enrollment_def bind_result_eq_Inr split: option.splits if_splits)

lemma register_worker_Inr:
  "register_worker app now wid reg t_issue jti p s = Inr (response, s') \<longleftrightarrow>
     (\<exists>token_id secret token. split_node_token (wr_enrollment_token p) = Some (token_id, secret)
       \<and> filter (\<lambda>t. et_token_id t = token_id) (enrollment_tokens s) = [token]
       \<and> et_consumed_at token = None \<and> now < et_expires_at token
       \<and> (\<exists>i. parse_and_verify (app_enrollment_service app) (wr_enrollment_token p) (et_secret_hash token)
            = Inr (Some i))
       \<and> wid \<notin> wk_id ` set (workers s)
       \<and> response = \<lparr>tr_worker_id = wid,
            tr_access_token = fst (issue (app_jwt_codec app) (app_jwt_service app) t_issue jti (uuid_str wid)),
            tr_expires_in = st_worker_token_ttl_seconds (app_settings app)\<rparr>
       \<and> s' = consume_token now token (s\<lparr>workers := workers s
            @ [(new_worker wid reg now p)\<lparr>wk_token_jti := Some jti\<rparr>]\<rparr>))"
  (is "?lhs \<longleftrightarrow> ?rhs")
proof -
  have upd: "change_worker wid f (s\<lparr>workers := workers s @ [new_worker wid reg now p]\<rparr>) =
      s\<lparr>workers := workers s @ [f (new_worker wid reg now p)]\<rparr>"
    if "wid \<notin> wk_id ` set (workers s)" for f
  proof -
    have "update_where (\<lambda>w. wk_id w = wid) f (workers s) = workers s"
      using that by (intro update_where_none) auto
    then show ?thesis by (simp add: change_worker_def update_where_def new_worker_def)
  qed
  have "?lhs \<longleftrightarrow> (\<exists>token_id secret token s1. split_node_token (wr_enrollment_token p) = Some (token_id, secret)
       \<and> scalar_one_or_none (filter (\<lambda>t. et_token_id t = token_id) (enrollment_tokens s)) = Inr (Some token)
       \<and> check_enrollment (app_enrollment_service app) now (wr_enrollment_token p) (Some token) = Inr token
       \<and> insert_worker (new_worker wid reg now p) s = Inr s1
       \<and> response = \<lparr>tr_worker_id = wid,
            tr_access_token = fst (issue (app_jwt_codec app) (app_jwt_service app) t_issue jti (uuid_str wid)),
            tr_expires_in = st_worker_token_ttl_seconds (app_settings app)\<rparr>
       \<and> s' = consume_token now token (change_worker wid (\<lambda>w. w\<lparr>wk_token_jti := Some jti\<rparr>) s1))"
    by (auto simp: register_worker_def bind_result_eq_Inr check_enrollment_Inr Let_def issue_def
        split: option.splits)
  also have "\<dots> \<longleftrightarrow> ?rhs"
  proof -
    have ins: "insert_worker (new_worker wid reg now p) s = Inr s1 \<longleftrightarrow>
        wid \<notin> wk_id ` set (workers s) \<and> s1 = s\<lparr>workers := workers s @ [new_worker wid reg now p]\<rparr>" for s1
      by (auto simp: insert_worker_def) (simp_all add: new_worker_def)
    show ?thesis
      unfolding scalar_one_or_none_eq_Some check_enrollment_Inr ins by (auto simp: upd)
  qed
  finally show ?thesis .
qed

section \<open>Properties\<close>

text \<open>The one token with this identifier has been used.\<close>

definition enrollment_spent :: "string \<Rightarrow> db \<Rightarrow> bool" where
  "enrollment_spent token_id s \<longleftrightarrow>
     (\<exists>e. filter (\<lambda>t. et_token_id t = token_id) (enrollment_tokens s) = [e] \<and> et_consumed_at e \<noteq> None)"

lemma registration_spends:
  assumes "post_register app now wid reg t_issue jti p s = (Inr response, s1)"
  shows "\<exists>token_id secret. split_node_token (wr_enrollment_token p) = Some (token_id, secret) \<and> enrollment_spent token_id s1"
proof -
  have "register_worker app now wid reg t_issue jti p s = Inr (response, s1)"
    using assms by (auto simp: post_register_def session_scope_def split: sum.splits prod.splits)
  then obtain token_id secret token where split: "split_node_token (wr_enrollment_token p) = Some (token_id, secret)"
    and token: "filter (\<lambda>t. et_token_id t = token_id) (enrollment_tokens s) = [token]"
    and s1: "s1 = consume_token now token (s\<lparr>workers := workers s
            @ [(new_worker wid reg now p)\<lparr>wk_token_jti := Some jti\<rparr>]\<rparr>)"
    unfolding register_worker_Inr by blast
  have "filter (\<lambda>t. et_token_id t = token_id) (enrollment_tokens s1) = [token\<lparr>et_consumed_at := Some now\<rparr>]"
    using token by (simp add: s1 consume_token_def filter_update_where) (simp add: update_where_def)
  with split show ?thesis by (auto simp: enrollment_spent_def)
qed

lemma spent_refused:
  assumes "enrollment_spent token_id s" and "split_node_token (wr_enrollment_token p) = Some (token_id, secret)"
  shows "post_register app now wid reg t_issue jti p s =
    (Inl (invalid_enrollment ''Enrollment token is invalid or expired.''), s)"
proof -
  from assms have "register_worker app now wid reg t_issue jti p s =
      Inl (invalid_enrollment ''Enrollment token is invalid or expired.'')"
    by (auto simp: enrollment_spent_def register_worker_def check_enrollment_def)
  then show ?thesis by (simp add: post_register_def session_scope_rollback)
qed

definition sample_enrollment :: worker_enrollment_token where
  "sample_enrollment = \<lparr>et_id = 8, et_token_id = ''____________'',
     et_secret_hash = peppered ''pepper'' (replicate 43 (CHR ''s'')), et_expires_at = 900000000,
     et_consumed_at = None, et_created_at = 0\<rparr>"

definition sample_register :: worker_register_request where
  "sample_register = \<lparr>wr_enrollment_token = render_node_token ''____________'' (replicate 43 (CHR ''s'')),
     wr_provider_type = ''local'', wr_name = ''w'', wr_supported_models = [''m''], wr_capabilities = JObj []\<rparr>"

definition enrolling_db :: db where
  "enrolling_db = empty_db\<lparr>enrollment_tokens := [sample_enrollment]\<rparr>"

lemma sample_split:
  "split_node_token (wr_enrollment_token sample_register) = Some (''____________'', replicate 43 (CHR ''s''))"
  unfolding split_node_token_Some by (simp add: sample_register_def)

lemma sample_registration:
  "register_worker (sample_app codec) 0 3 0 0 ''j'' sample_register enrolling_db =
     Inr (\<lparr>tr_worker_id = 3, tr_access_token = fst (issue codec sample_jwt_service 0 ''j'' (uuid_str 3)),
           tr_expires_in = 3600\<rparr>,
      consume_token 0 sample_enrollment (enrolling_db\<lparr>workers :=
        [(new_worker 3 0 0 sample_register)\<lparr>wk_token_jti := Some ''j''\<rparr>]\<rparr>))"
proof -
  have "parse_and_verify (app_enrollment_service (sample_app codec)) (wr_enrollment_token sample_register)
      (et_secret_hash sample_enrollment) = Inr (Some ''____________'')"
    unfolding parse_and_verify_split sample_split
    by (simp add: sample_app_def sample_enrollment_def verify_guarded_def plain_hasher_def)
  then show ?thesis
    unfolding register_worker_Inr sample_split
    by (simp add: enrolling_db_def empty_db_def sample_enrollment_def sample_app_def default_settings_def)
qed

text \<open>C27. The token that a registration returns authenticates the new worker, and no other, with
  all five scopes of the worker endpoints, from the moment of issue until its lifetime, counted from
  the whole second of issue, is over.\<close>

theorem registration_authenticates:
  assumes "post_register app now wid reg t_issue jti p s = (Inr response, s1)"
    and "sound_jwt (app_jwt_codec app) (jw_private_key (app_jwt_service app)) (jw_public_key (app_jwt_service app))
           (issued_claims (app_jwt_service app) t_issue jti (uuid_str wid))"
    and "bearer_token authorization = Some (tr_access_token response)"
    and "wid < 2 ^ 128" and "t_issue \<le> t" and "t < numeric_date t_issue + seconds (jw_ttl (app_jwt_service app))"
  shows "\<exists>w claims. require_worker app t authorization s1 = Inr (w, claims) \<and> wk_id w = wid
    \<and> wk_status w = ONLINE \<and> (\<forall>scope\<in>set worker_scopes. require_worker_scope scope claims = Inr ())"
proof -
  have "register_worker app now wid reg t_issue jti p s = Inr (response, s1)"
    using assms(1) by (auto simp: post_register_def session_scope_def split: sum.splits prod.splits)
  then obtain token where fresh: "wid \<notin> wk_id ` set (workers s)"
    and response: "tr_access_token response = fst (issue (app_jwt_codec app) (app_jwt_service app) t_issue jti (uuid_str wid))"
    and s1: "s1 = consume_token now token (s\<lparr>workers := workers s
            @ [(new_worker wid reg now p)\<lparr>wk_token_jti := Some jti\<rparr>]\<rparr>)"
    unfolding register_worker_Inr by auto
  let ?w = "(new_worker wid reg now p)\<lparr>wk_token_jti := Some jti\<rparr>"
  let ?c = "wire_claims (issued_claims (app_jwt_service app) t_issue jti (uuid_str wid))"
  have "verify_token (app_jwt_codec app) (app_jwt_service app) t (tr_access_token response) = Some ?c"
    unfolding response verify_issued [OF assms(2)] using assms(5,6) numeric_date_le [of t_issue] by simp
  moreover have "parse_uuid (cl_sub ?c) = Inr (wk_id ?w)"
    using parse_uuid_str [OF assms(4)] by (simp add: issued_claims_def new_worker_def)
  moreover have "filter (\<lambda>q. wk_id q = wk_id ?w) (workers s1) = [?w]"
    using fresh by (auto simp: s1 new_worker_def filter_empty_conv)
  ultimately have "require_worker app t authorization s1 = Inr (?w, ?c)"
    unfolding require_worker_Inr using assms(3) by (auto simp: new_worker_def issued_claims_def)
  moreover have "\<forall>scope\<in>set worker_scopes. require_worker_scope scope ?c = Inr ()"
    by (auto simp: require_worker_scope_def issued_claims_def)
  ultimately show ?thesis by (auto simp: new_worker_def)
qed

theorem registration_authenticates_witness:
  "\<exists>response s1 w claims.
     post_register (sample_app sample_codec) 0 3 0 0 ''j'' sample_register enrolling_db = (Inr response, s1)
     \<and> require_worker (sample_app sample_codec) 7 (Some ''Bearer T'') s1 = Inr (w, claims) \<and> wk_id w = 3"
proof -
  obtain response s1 where r: "post_register (sample_app sample_codec) 0 3 0 0 ''j'' sample_register enrolling_db
      = (Inr response, s1)" and token: "tr_access_token response = ''T''"
    using sample_registration [of sample_codec]
    by (simp add: post_register_def session_scope_def sample_codec_def issue_def one_token_codec_def)
  have svc: "app_jwt_service (sample_app sample_codec) = sample_jwt_service"
    "app_jwt_codec (sample_app sample_codec) = sample_codec" by (simp_all add: sample_app_def)
  have "bearer_token (Some (''Bearer '' @ ''T'')) = Some ''T''"
    by (rule bearer_token_header) (simp add: is_space_def)
  then have bearer: "bearer_token (Some ''Bearer T'') = Some (tr_access_token response)" by (simp add: token)
  have sound: "sound_jwt (app_jwt_codec (sample_app sample_codec)) (jw_private_key (app_jwt_service (sample_app sample_codec)))
      (jw_public_key (app_jwt_service (sample_app sample_codec)))
      (issued_claims (app_jwt_service (sample_app sample_codec)) 0 ''j'' (uuid_str 3))"
    by (simp only: svc) (simp only: sample_codec_def sound_one_token_codec)
  have "(7 :: instant) < numeric_date 0 + seconds (jw_ttl (app_jwt_service (sample_app sample_codec)))"
    by (simp add: svc sample_jwt_service_def seconds_def numeric_date_def)
  from registration_authenticates [OF r sound bearer _ _ this] r show ?thesis by auto
qed

text \<open>The sample worker's token, and the application that accepts it.\<close>

lemma sample_worker_token:
  assumes "filter (\<lambda>q. wk_id q = 3) (workers s) = [w]" and "wk_id w = 3" and "wk_token_jti w = Some ''j''"
    and "wk_revoked_at w = None" and "0 \<le> t" and "t < 3600000000"
  shows "\<exists>claims. require_worker (sample_app sample_codec) t (Some ''Bearer T'') s = Inr (w, claims)
    \<and> (\<forall>scope. require_worker_scope scope claims = Inr () \<longleftrightarrow> scope \<in> set worker_scopes)"
proof -
  let ?i = "issued_claims sample_jwt_service 0 ''j'' (uuid_str 3)"
  have svc: "app_jwt_service (sample_app sample_codec) = sample_jwt_service"
    "app_jwt_codec (sample_app sample_codec) = sample_codec" by (simp_all add: sample_app_def)
  have "bearer_token (Some (''Bearer '' @ ''T'')) = Some ''T''"
    by (rule bearer_token_header) (simp add: is_space_def)
  then have bearer: "bearer_token (Some ''Bearer T'') = Some ''T''" by simp
  have token: "fst (issue sample_codec sample_jwt_service 0 ''j'' (uuid_str 3)) = ''T''"
    by (simp add: issue_def sample_codec_def one_token_codec_def)
  have "sound_jwt sample_codec (jw_private_key sample_jwt_service) (jw_public_key sample_jwt_service) ?i"
    by (simp only: sample_codec_def sound_one_token_codec)
  moreover have "t < numeric_date 0 + seconds (jw_ttl sample_jwt_service)"
    using assms(6) by (simp add: sample_jwt_service_def seconds_def numeric_date_def)
  ultimately have "verify_token sample_codec sample_jwt_service t ''T'' = Some (wire_claims ?i)"
    using verify_issued [of sample_codec sample_jwt_service 0 "''j''" "uuid_str 3" t] assms(5)
    by (simp add: token numeric_date_def)
  then have "require_worker (sample_app sample_codec) t (Some ''Bearer T'') s = Inr (w, wire_claims ?i)"
    unfolding require_worker_Inr bearer svc
    using parse_uuid_str [of 3] assms(1-4) by (simp add: issued_claims_def)
  moreover have "require_worker_scope scope (wire_claims ?i) = Inr () \<longleftrightarrow> scope \<in> set worker_scopes" for scope
    by (auto simp: require_worker_scope_def issued_claims_def)
  ultimately show ?thesis by blast
qed

text \<open>Renewal rotates: it changes nothing but the stored token identifier of the caller, and
  from then on that worker is authenticated by no token but the new one.\<close>

theorem renewal_rotates:
  assumes "post_renew app t_auth authorization t_issue jti s = (Inr response, s1)"
    and "require_worker app t_auth authorization s = Inr (w, claims)"
  shows "s1 = s\<lparr>workers := map (\<lambda>q. if wk_id q = wk_id w then q\<lparr>wk_token_jti := Some jti\<rparr> else q) (workers s)\<rparr>
    \<and> tr_access_token response = fst (issue (app_jwt_codec app) (app_jwt_service app) t_issue jti (uuid_str (wk_id w)))
    \<and> (\<forall>t header w' claims'. require_worker app t header s1 = Inr (w', claims') \<and> wk_id w' = wk_id w
        \<longrightarrow> cl_jti claims' = jti)"
proof -
  have renew: "renew_worker_token app t_issue jti w s = Inr (response, s1)"
    using assms by (auto simp: post_renew_def with_worker_Inr)
  then have s1: "s1 = change_worker (wk_id w) (\<lambda>w. w\<lparr>wk_token_jti := Some jti\<rparr>) s"
    and response: "tr_access_token response = fst (issue (app_jwt_codec app) (app_jwt_service app) t_issue jti (uuid_str (wk_id w)))"
    by (auto simp: renew_worker_token_def Let_def issue_def)
  have "cl_jti claims' = jti" if "require_worker app t header s1 = Inr (w', claims')" "wk_id w' = wk_id w"
    for t header w' claims'
  proof -
    from that(1) have one: "filter (\<lambda>q. wk_id q = wk_id w') (workers s1) = [w']"
      and j: "wk_token_jti w' = Some (cl_jti claims')"
      unfolding require_worker_Inr by auto
    from filter_eq_singletonD(1) [OF one] have "wk_token_jti w' = Some jti"
      using that(2) by (auto simp: s1 change_worker_def set_update_where)
    with j show ?thesis by simp
  qed
  then show ?thesis
    using response by (auto simp: s1 change_worker_def update_where_def)
qed

theorem renewal_rotates_witness:
  "\<exists>response s1.
     post_renew (sample_app sample_codec) 0 (Some ''Bearer T'') 0 ''k'' (sample_db []) = (Inr response, s1)
     \<and> map wk_token_jti (workers s1) = [Some ''k'', Some ''j'']"
proof -
  have one: "filter (\<lambda>q. wk_id q = 3) (workers (sample_db [])) = [sample_worker 3]" by (simp add: sample_defs)
  obtain claims where auth: "require_worker (sample_app sample_codec) 0 (Some ''Bearer T'') (sample_db []) =
      Inr (sample_worker 3, claims)"
    and scopes: "\<And>scope. require_worker_scope scope claims = Inr () \<longleftrightarrow> scope \<in> set worker_scopes"
    using sample_worker_token [OF one, of 0] by (auto simp: sample_worker_def)
  obtain response s1
    where r: "post_renew (sample_app sample_codec) 0 (Some ''Bearer T'') 0 ''k'' (sample_db []) = (Inr response, s1)"
    using scopes [of "''worker:renew''"]
    by (simp add: post_renew_def with_worker_def session_scope_def auth renew_worker_token_def Let_def
        worker_scopes_def issue_def)
  from renewal_rotates [OF r auth] r show ?thesis by (simp add: sample_defs)
qed

end
