(* ===== verification/Worker_Liveness.thy ===== *)
theory Worker_Liveness
  imports Worker_Routes Worker_Health
begin

text \<open>
  How the heartbeat, the maintenance pass and the pull endpoint work together: a silent worker is
  taken offline and is given no work, and a heartbeat brings it back (\<open>Gateway_Workers\<close> has it for all later states).
\<close>

lemma require_worker_row:
  assumes "require_worker app t authorization s = Inr (w, claims)"
  shows "w \<in> set (workers s)" and "\<And>q. q \<in> set (workers s) \<Longrightarrow> wk_id q = wk_id w \<Longrightarrow> q = w"
proof -
  from assms have one: "filter (\<lambda>q. wk_id q = wk_id w) (workers s) = [w]" by (auto simp: require_worker_Inr)
  from filter_eq_singletonD [OF one] show "w \<in> set (workers s)" by simp
  fix q assume "q \<in> set (workers s)" and "wk_id q = wk_id w"
  then have "q \<in> set (filter (\<lambda>q. wk_id q = wk_id w) (workers s))" by simp
  with one show "q = w" by simp
qed

lemma get_request_not_online:
  assumes "require_worker app t_auth authorization s = Inr (w, claims)" and "wk_status w \<noteq> ONLINE"
    and "get_request app contained_in locked t_auth authorization now s = (Inr body, s')"
  shows "body = pull_body None \<and> s' = s"
  using assms by (auto simp: get_request_def with_worker_Inr pull_request_def)

lemma heartbeat_row:
  assumes "post_heartbeat app t_auth authorization now p s = (Inr u, s')"
    and "require_worker app t_auth authorization s = Inr (w, claims)"
  shows "s' = change_worker (wk_id w) (\<lambda>w. w\<lparr>wk_status := wh_status p,
       wk_current_queue_depth := wh_current_queue_depth p, wk_capabilities := wh_capabilities p,
       wk_last_heartbeat := Some now\<rparr>) s"
  using assms by (auto simp: post_heartbeat_def with_worker_Inr heartbeat_def)

end
