(* ===== verification/Admin.thy ===== *)
theory Admin
  imports Auth_Properties Schemas Worker_Routes
begin

text \<open>
  \<open>routes/admin.py\<close>: creating projects, model aliases, keys and enrollment tokens, and revoking
  keys and workers. The values of column defaults (\<open>uuid4()\<close>, \<open>now()\<close>, \<open>CURRENT_DATE\<close>), random
  bytes and clock readings are arguments. An insertion runs into the constraints of its table at
  the flush.
\<close>

section \<open>Insertions\<close>

definition insert_project :: "project \<Rightarrow> db \<Rightarrow> db result" where
  "insert_project p s =
     (if \<not> (fits_int8 (pj_daily_token_limit p) \<and> fits_int8 (pj_monthly_token_limit p)) then Inl DataError
      else if pj_id p \<in> pj_id ` set (projects s) \<or> pj_slug p \<in> pj_slug ` set (projects s)
      then Inl IntegrityError
      else Inr (s\<lparr>projects := projects s @ [p]\<rparr>))"

definition insert_key :: "api_key \<Rightarrow> db \<Rightarrow> db result" where
  "insert_key k s =
     (if \<not> (fits_int4 (ak_rpm_limit k) \<and> fits_int4 (ak_daily_req_limit k)) then Inl DataError
      else if ak_id k \<in> ak_id ` set (api_keys s) \<or> ak_key_id k \<in> ak_key_id ` set (api_keys s)
           \<or> ak_project_id k \<notin> pj_id ` set (projects s)
           \<or> ak_environment k \<notin> {''live'', ''test''}
      then Inl IntegrityError
      else Inr (s\<lparr>api_keys := api_keys s @ [k]\<rparr>))"

definition insert_alias :: "model_alias \<Rightarrow> db \<Rightarrow> db result" where
  "insert_alias a s =
     (if \<not> fits_int4 (ma_max_context_tokens a) then Inl DataError
      else if ma_alias a \<in> ma_alias ` set (model_aliases s) then Inl IntegrityError
      else Inr (s\<lparr>model_aliases := model_aliases s @ [a]\<rparr>))"

definition insert_enrollment :: "worker_enrollment_token \<Rightarrow> db \<Rightarrow> db result" where
  "insert_enrollment t s =
     (if et_id t \<in> et_id ` set (enrollment_tokens s)
         \<or> et_token_id t \<in> et_token_id ` set (enrollment_tokens s)
      then Inl IntegrityError
      else Inr (s\<lparr>enrollment_tokens := enrollment_tokens s @ [t]\<rparr>))"

text \<open>\<open>except IntegrityError\<close>; every other exception goes on.\<close>

fun on_integrity_error :: "exn \<Rightarrow> exn \<Rightarrow> exn" where
  "on_integrity_error e' IntegrityError = e'"
| "on_integrity_error e' e = e"

definition catch_integrity :: "exn \<Rightarrow> 'a result \<Rightarrow> 'a result" where
  "catch_integrity e' m = (case m of Inl e \<Rightarrow> Inl (on_integrity_error e' e) | Inr v \<Rightarrow> Inr v)"

section \<open>The endpoints\<close>

record api_key_created_response =
  kr_id :: uuid
  kr_key :: string
  kr_display_prefix :: string
  kr_warning :: string

definition new_key ::
  "uuid \<Rightarrow> instant \<Rightarrow> date \<Rightarrow> generated_api_key \<Rightarrow> api_key_create_request \<Rightarrow> api_key" where
  "new_key kid created_at current_date g p =
     \<lparr>ak_id = kid, ak_project_id = kc_project_id p, ak_key_id = ga_key_id g,
      ak_display_prefix = ga_display_prefix g, ak_secret_hash = ga_secret_hash g,
      ak_environment = ga_environment g, ak_name = kc_name p, ak_scopes = kc_scopes p,
      ak_expires_at = kc_expires_at p, ak_revoked_at = None, ak_last_used_at = None,
      ak_total_requests = 0, ak_total_tokens = 0, ak_rpm_limit = kc_rpm_limit p,
      ak_daily_req_limit = kc_daily_req_limit p, ak_daily_requests_used = 0,
      ak_daily_requests_date = current_date, ak_created_at = created_at\<rparr>"

definition create_api_key ::
  "'s app_state \<Rightarrow> uuid \<Rightarrow> instant \<Rightarrow> date \<Rightarrow> nat list \<Rightarrow> nat list \<Rightarrow> string \<Rightarrow> api_key_create_request \<Rightarrow>
     db \<Rightarrow> (api_key_created_response \<times> db) result" where
  "create_api_key app kid created_at current_date id_bytes secret_bytes salt p s =
     bind_result (scalar_one_or_none (filter (\<lambda>q. pj_id q = kc_project_id p) (projects s))) (\<lambda>project.
       if project = None
       then Inl (OrbiError ''project_not_found'' ''Project does not exist.'' 404)
       else bind_result (generate (app_api_key_service app) id_bytes secret_bytes salt (kc_environment p))
         (\<lambda>generated.
       bind_result (insert_key (new_key kid created_at current_date generated p) s) (\<lambda>s'.
         Inr (\<lparr>kr_id = kid, kr_key = ga_raw_key generated, kr_display_prefix = ga_display_prefix generated,
               kr_warning = ''Store this key now. ORBI will never show it again.''\<rparr>, s'))))"

record enrollment_created_response =
  er_enrollment_token :: string
  er_expires_at :: instant
  er_warning :: string

definition create_worker_enrollment ::
  "'s app_state \<Rightarrow> uuid \<Rightarrow> instant \<Rightarrow> instant \<Rightarrow> nat list \<Rightarrow> nat list \<Rightarrow> string \<Rightarrow>
     worker_enrollment_create_request \<Rightarrow> db \<Rightarrow> (enrollment_created_response \<times> db) result" where
  "create_worker_enrollment app tid created_at now id_bytes secret_bytes salt p s =
     (let generated = generate_enrollment (app_enrollment_service app) id_bytes secret_bytes salt;
          expires_at = now + seconds (wc_expires_in_seconds p)
      in bind_result (insert_enrollment
           \<lparr>et_id = tid, et_token_id = ge_token_id generated, et_secret_hash = ge_secret_hash generated,
            et_expires_at = expires_at, et_consumed_at = None, et_created_at = created_at\<rparr> s) (\<lambda>s'.
         Inr (\<lparr>er_enrollment_token = ge_raw_token generated, er_expires_at = expires_at,
               er_warning = ''Store this one-time token securely. It will not be shown again.''\<rparr>, s')))"

record project_response =
  pr_id :: uuid
  pr_name :: string
  pr_slug :: string

definition new_project :: "uuid \<Rightarrow> instant \<Rightarrow> date \<Rightarrow> project_create_request \<Rightarrow> project" where
  "new_project pid created_at current_date p =
     \<lparr>pj_id = pid, pj_name = pc_name p, pj_slug = pc_slug p, pj_owner_id = pc_owner_id p,
      pj_monthly_token_limit = pc_monthly_token_limit p, pj_monthly_tokens_used = 0,
      pj_daily_token_limit = pc_daily_token_limit p, pj_daily_tokens_used = 0,
      pj_daily_usage_date = current_date, pj_monthly_usage_month = replace_day_1 current_date,
      pj_is_active = True, pj_created_at = created_at\<rparr>"

definition create_project ::
  "uuid \<Rightarrow> instant \<Rightarrow> date \<Rightarrow> project_create_request \<Rightarrow> db \<Rightarrow> (project_response \<times> db) result" where
  "create_project pid created_at current_date p s =
     bind_result (catch_integrity (OrbiError ''project_conflict'' ''Project slug already exists.'' 409)
         (insert_project (new_project pid created_at current_date p) s)) (\<lambda>s'.
       Inr (\<lparr>pr_id = pid, pr_name = pc_name p, pr_slug = pc_slug p\<rparr>, s'))"

record model_alias_response =
  mr_alias :: string
  mr_model_id :: string

definition new_alias :: "model_alias_create_request \<Rightarrow> model_alias" where
  "new_alias p =
     \<lparr>ma_alias = mc_alias p, ma_display_name = mc_display_name p, ma_model_id = mc_model_id p,
      ma_fallback_alias = None, ma_is_active = True, ma_min_vram_gb = mc_min_vram_gb p,
      ma_required_capabilities = mc_required_capabilities p,
      ma_supports_streaming = mc_supports_streaming p, ma_supports_tools = mc_supports_tools p,
      ma_max_context_tokens = mc_max_context_tokens p\<rparr>"

definition create_model_alias ::
  "model_alias_create_request \<Rightarrow> db \<Rightarrow> (model_alias_response \<times> db) result" where
  "create_model_alias p s =
     bind_result (catch_integrity (OrbiError ''model_alias_conflict'' ''Model alias already exists.'' 409)
         (insert_alias (new_alias p) s)) (\<lambda>s'.
       Inr (\<lparr>mr_alias = mc_alias p, mr_model_id = mc_model_id p\<rparr>, s'))"

definition revoke_api_key :: "instant \<Rightarrow> uuid \<Rightarrow> db \<Rightarrow> (unit \<times> db) result" where
  "revoke_api_key now api_key_id s =
     bind_result (scalar_one_or_none (filter (\<lambda>k. ak_id k = api_key_id) (api_keys s))) (\<lambda>found.
       case found of
         None \<Rightarrow> Inl (OrbiError ''api_key_not_found'' ''API key does not exist.'' 404)
       | Some k \<Rightarrow>
           if ak_revoked_at k = None then Inr ((), replace_key (k\<lparr>ak_revoked_at := Some now\<rparr>) s)
           else Inr ((), s))"

definition revoke_worker :: "instant \<Rightarrow> uuid \<Rightarrow> db \<Rightarrow> (unit \<times> db) result" where
  "revoke_worker now worker_id s =
     bind_result (scalar_one_or_none (filter (\<lambda>w. wk_id w = worker_id) (workers s))) (\<lambda>found.
       case found of
         None \<Rightarrow> Inl (OrbiError ''worker_not_found'' ''Worker does not exist.'' 404)
       | Some w \<Rightarrow> Inr ((), change_worker worker_id (\<lambda>w. w\<lparr>
           wk_revoked_at := (case wk_revoked_at w of None \<Rightarrow> Some now | Some t \<Rightarrow> Some t),
           wk_status := SUSPENDED, wk_token_jti := None\<rparr>) s))"

section \<open>Facts\<close>

lemma insert_key_Inr:
  "insert_key k s = Inr s' \<longleftrightarrow>
     fits_int4 (ak_rpm_limit k) \<and> fits_int4 (ak_daily_req_limit k)
     \<and> ak_id k \<notin> ak_id ` set (api_keys s) \<and> ak_key_id k \<notin> ak_key_id ` set (api_keys s)
     \<and> ak_project_id k \<in> pj_id ` set (projects s) \<and> ak_environment k \<in> {''live'', ''test''}
     \<and> s' = s\<lparr>api_keys := api_keys s @ [k]\<rparr>"
  by (auto simp: insert_key_def)

lemma insert_project_Inr:
  "insert_project p s = Inr s' \<longleftrightarrow>
     fits_int8 (pj_daily_token_limit p) \<and> fits_int8 (pj_monthly_token_limit p)
     \<and> pj_id p \<notin> pj_id ` set (projects s) \<and> pj_slug p \<notin> pj_slug ` set (projects s)
     \<and> s' = s\<lparr>projects := projects s @ [p]\<rparr>"
  by (auto simp: insert_project_def)

lemma insert_alias_Inr:
  "insert_alias a s = Inr s' \<longleftrightarrow>
     fits_int4 (ma_max_context_tokens a) \<and> ma_alias a \<notin> ma_alias ` set (model_aliases s)
     \<and> s' = s\<lparr>model_aliases := model_aliases s @ [a]\<rparr>"
  by (auto simp: insert_alias_def)

lemma catch_integrity_Inr [simp]: "catch_integrity e m = Inr v \<longleftrightarrow> m = Inr v"
  by (auto simp: catch_integrity_def split: sum.splits)

lemma create_api_key_Inr:
  "create_api_key app kid created current_date ib sb salt p s = Inr (response, s') \<longleftrightarrow>
     (\<exists>project g. filter (\<lambda>q. pj_id q = kc_project_id p) (projects s) = [project]
        \<and> generate (app_api_key_service app) ib sb salt (kc_environment p) = Inr g
        \<and> insert_key (new_key kid created current_date g p) s = Inr s'
        \<and> response = \<lparr>kr_id = kid, kr_key = ga_raw_key g, kr_display_prefix = ga_display_prefix g,
             kr_warning = ''Store this key now. ORBI will never show it again.''\<rparr>)"
  by (auto simp: create_api_key_def result_simps)

lemma create_project_Inr:
  "create_project pid created current_date p s = Inr (response, s') \<longleftrightarrow>
     insert_project (new_project pid created current_date p) s = Inr s'
     \<and> response = \<lparr>pr_id = pid, pr_name = pc_name p, pr_slug = pc_slug p\<rparr>"
  by (auto simp: create_project_def bind_result_eq_Inr)

lemma create_model_alias_Inr:
  "create_model_alias p s = Inr (response, s') \<longleftrightarrow>
     insert_alias (new_alias p) s = Inr s' \<and> response = \<lparr>mr_alias = mc_alias p, mr_model_id = mc_model_id p\<rparr>"
  by (auto simp: create_model_alias_def bind_result_eq_Inr)

lemma insert_enrollment_Inr:
  "insert_enrollment e s = Inr s' \<longleftrightarrow>
     et_id e \<notin> et_id ` set (enrollment_tokens s) \<and> et_token_id e \<notin> et_token_id ` set (enrollment_tokens s)
     \<and> s' = s\<lparr>enrollment_tokens := enrollment_tokens s @ [e]\<rparr>"
  by (auto simp: insert_enrollment_def)

lemma create_worker_enrollment_Inr:
  "create_worker_enrollment app tid created now ib sb salt p s = Inr (response, s') \<longleftrightarrow>
     (\<exists>g. g = generate_enrollment (app_enrollment_service app) ib sb salt
        \<and> tid \<notin> et_id ` set (enrollment_tokens s) \<and> ge_token_id g \<notin> et_token_id ` set (enrollment_tokens s)
        \<and> response = \<lparr>er_enrollment_token = ge_raw_token g,
             er_expires_at = now + seconds (wc_expires_in_seconds p),
             er_warning = ''Store this one-time token securely. It will not be shown again.''\<rparr>
        \<and> s' = s\<lparr>enrollment_tokens := enrollment_tokens s @
            [\<lparr>et_id = tid, et_token_id = ge_token_id g, et_secret_hash = ge_secret_hash g,
              et_expires_at = now + seconds (wc_expires_in_seconds p), et_consumed_at = None,
              et_created_at = created\<rparr>]\<rparr>)"
  by (auto simp: create_worker_enrollment_def bind_result_eq_Inr Let_def insert_enrollment_def split: if_splits)

lemma revoke_api_key_Inr:
  "revoke_api_key now i s = Inr (u, s') \<longleftrightarrow>
     (\<exists>k. filter (\<lambda>k. ak_id k = i) (api_keys s) = [k]
        \<and> s' = (if ak_revoked_at k = None then replace_key (k\<lparr>ak_revoked_at := Some now\<rparr>) s else s))"
proof (cases "filter (\<lambda>k. ak_id k = i) (api_keys s)" rule: scalar_one_or_none.cases)
  case (2 k)
  then show ?thesis by (cases "ak_revoked_at k") (auto simp: revoke_api_key_def)
qed (auto simp: revoke_api_key_def)

lemma revoke_worker_Inr:
  "revoke_worker now i s = Inr (u, s') \<longleftrightarrow>
     (\<exists>w. filter (\<lambda>w. wk_id w = i) (workers s) = [w]) \<and>
     s' = change_worker i (\<lambda>w. w\<lparr>
           wk_revoked_at := (case wk_revoked_at w of None \<Rightarrow> Some now | Some t \<Rightarrow> Some t),
           wk_status := SUSPENDED, wk_token_jti := None\<rparr>) s"
  by (auto simp: revoke_worker_def result_simps split: option.splits)

text \<open>Consistency of the tables: the insertions and the revocation of a key keep it.\<close>

lemma keys_ok_insert_key: "insert_key k s = Inr s' \<Longrightarrow> keys_ok s \<Longrightarrow> keys_ok s'"
  by (auto simp: insert_key_Inr keys_ok_def)

lemma keys_ok_create_project:
  "create_project pid created current_date p s = Inr (response, s') \<Longrightarrow> keys_ok s \<Longrightarrow> keys_ok s'"
  by (auto simp: create_project_Inr insert_project_Inr keys_ok_def wf_project_def new_project_def)

lemma keys_ok_create_model_alias:
  "create_model_alias p s = Inr (response, s') \<Longrightarrow> keys_ok s \<Longrightarrow> keys_ok s'"
  by (auto simp: create_model_alias_Inr insert_alias_Inr keys_ok_def)

lemma keys_ok_same_keys:
  assumes "keys_ok s" and "map (\<lambda>k. (ak_id k, ak_key_id k, ak_project_id k)) ks =
      map (\<lambda>k. (ak_id k, ak_key_id k, ak_project_id k)) (api_keys s)"
  shows "keys_ok (s\<lparr>api_keys := ks\<rparr>)"
proof -
  have "map ak_id ks = map ak_id (api_keys s)"
    using arg_cong [OF assms(2), of "map fst"] by (simp add: comp_def)
  moreover have "map ak_key_id ks = map ak_key_id (api_keys s)"
    using arg_cong [OF assms(2), of "map (\<lambda>x. fst (snd x))"] by (simp add: comp_def)
  moreover have "map ak_project_id ks = map ak_project_id (api_keys s)"
    using arg_cong [OF assms(2), of "map (\<lambda>x. snd (snd x))"] by (simp add: comp_def)
  then have "set (map ak_project_id ks) = set (map ak_project_id (api_keys s))" by simp
  then have "ak_project_id ` set ks = ak_project_id ` set (api_keys s)" by simp
  moreover have "(\<forall>k\<in>set qs. ak_project_id k \<in> P) \<longleftrightarrow> ak_project_id ` set qs \<subseteq> P" for qs :: "api_key list" and P
    by (rule image_subset_iff [symmetric])
  ultimately show ?thesis using assms(1) by (simp add: keys_ok_def)
qed

lemma keys_ok_revoke:
  assumes "revoke_api_key now i s = Inr (u, s')" and "keys_ok s"
  shows "keys_ok s'"
proof -
  from assms(1) obtain k where k: "filter (\<lambda>k. ak_id k = i) (api_keys s) = [k]"
    and s': "s' = (if ak_revoked_at k = None then replace_key (k\<lparr>ak_revoked_at := Some now\<rparr>) s else s)"
    unfolding revoke_api_key_Inr by blast
  from filter_eq_singletonD [OF k] have "k \<in> set (api_keys s)" by simp
  then have "q = k" if "q \<in> set (api_keys s)" "ak_id q = ak_id k" for q
    using that assms(2) by (auto simp: keys_ok_def dest: distinct_key_eq)
  then have "keys_ok (replace_key (k\<lparr>ak_revoked_at := Some now\<rparr>) s)"
    unfolding replace_key_def by (intro keys_ok_same_keys [OF assms(2)] map_update_where) auto
  with assms(2) show ?thesis by (simp add: s')
qed

end
