(* ===== verification/Admin_Properties.thy ===== *)
theory Admin_Properties
  imports Admin
begin

text \<open>
  The key that \<open>routes/admin.py\<close> creates is the key that \<open>dependencies.py\<close> accepts, and the
  enrollment token it creates is one that the registration accepts.
\<close>

lemma select_key_found:
  assumes "keys_ok s" and "k \<in> set (api_keys s)" and "p \<in> set (projects s)"
    and "pj_id p = ak_project_id k" and "pj_is_active p"
  shows "select_key (ak_key_id k) s = Inr (Some k)"
proof -
  obtain v where v: "select_key (ak_key_id k) s = Inr v" using select_key_total [OF assms(1)] by blast
  show ?thesis
  proof (cases v)
    case None
    with v have "[q. q \<leftarrow> api_keys s, p \<leftarrow> projects s,
        pj_id p = ak_project_id q \<and> ak_key_id q = ak_key_id k \<and> pj_is_active p] = []"
      by (simp only: select_key_def scalar_one_or_none_eq_None)
    with assms show ?thesis by auto
  next
    case (Some k')
    with select_key_Some [of "ak_key_id k" s k'] v have "k' \<in> set (api_keys s)" "ak_key_id k' = ak_key_id k"
      by simp_all
    with assms(1,2) have "k' = k" by (auto simp: keys_ok_def dest: distinct_key_eq)
    with v Some show ?thesis by simp
  qed
qed

lemma presents_accepted:
  assumes "keys_ok s" and "presents app t_active authorization s k" and "requests_today now k < ak_daily_req_limit k"
  shows "(\<exists>s'. fst (require_api_key app t_active now t_rate authorization s redis) = Inr (counted now k, s'))
    \<longleftrightarrow> fst (allow_minute (app_rate_limiter app) (ak_key_id k) (ak_rpm_limit k) t_rate redis)"
proof -
  from assms(2) obtain raw secret where "bearer_token authorization = Some raw"
    "parse_api_key raw = Some (ak_environment k, ak_key_id k, secret)"
    "select_key (ak_key_id k) s = Inr (Some k)"
    "verify_secret (app_api_key_service app) secret (ak_secret_hash k) = Inr True"
    "is_record_active t_active (ak_expires_at k) (ak_revoked_at k)"
    by (auto simp: presents_def)
  with assms(3) show ?thesis unfolding require_api_key_Inr by auto
qed

lemma url_char_not_space: "url_char c \<Longrightarrow> \<not> is_space c"
  by (auto simp: url_char_def is_alnum_def is_upper_def is_lower_def is_digit_def is_space_def Let_def)

lemma rendered_key_no_space:
  assumes "e \<in> {''live'', ''test''}" and "is_key_id i" and "is_key_secret s"
  shows "\<forall>c\<in>set (render_api_key e i s). \<not> is_space c"
  using assms url_char_not_space
  by (auto simp: render_api_key_def is_key_id_def is_key_secret_def list_all_iff is_space_def)

text \<open>C26. The key that the administrator receives is accepted: creation adds one row and nothing
  else; from then on a bearer header with the raw key presents that row
  until it expires, and as the key's day starts at zero, it is then accepted exactly when the
  minute's limit allows it.\<close>

theorem created_key_authenticates:
  assumes "create_api_key app kid created current_date ib sb salt p s = Inr (response, s1)"
    and "is_bytes ib" "length ib = 9" "is_bytes sb" "length sb = 32"
    and "sound_hasher (aks_hasher (app_api_key_service app))" and "keys_ok s"
    and "valid_api_key_create_request p"
    and "\<exists>q\<in>set (projects s). pj_id q = kc_project_id p \<and> pj_is_active q"
    and "pred_option (\<lambda>e. t < e) (kc_expires_at p)"
  shows "\<exists>k. s1 = s\<lparr>api_keys := api_keys s @ [k]\<rparr> \<and> ak_id k = kr_id response
    \<and> ak_project_id k = kc_project_id p \<and> ak_scopes k = kc_scopes p
    \<and> presents app t (Some (''Bearer '' @ kr_key response)) s1 k
    \<and> (\<forall>now t_rate redis.
        (\<exists>s'. fst (require_api_key app t now t_rate (Some (''Bearer '' @ kr_key response)) s1 redis) = Inr (counted now k, s'))
        \<longleftrightarrow> fst (allow_minute (app_rate_limiter app) (ak_key_id k) (kc_rpm_limit p) t_rate redis))"
proof -
  let ?svc = "app_api_key_service app"
  from assms(1) obtain g where g: "generate ?svc ib sb salt (kc_environment p) = Inr g"
    and ins: "insert_key (new_key kid created current_date g p) s = Inr s1"
    and response: "kr_id response = kid" "kr_key response = ga_raw_key g"
    by (auto simp: create_api_key_Inr)
  let ?k = "new_key kid created current_date g p"
  from g have env: "kc_environment p \<in> {''live'', ''test''}"
    and parts: "ga_key_id g = token_urlsafe ib" "ga_environment g = kc_environment p"
      "ga_raw_key g = render_api_key (kc_environment p) (token_urlsafe ib) (token_urlsafe sb)"
      "ga_secret_hash g = ph_hash (aks_hasher ?svc) salt (peppered (aks_pepper ?svc) (token_urlsafe sb))"
    by (auto simp: generate_def Let_def split: if_splits)
  have id: "is_key_id (token_urlsafe ib)" and secret: "is_key_secret (token_urlsafe sb)"
    using assms(2-5) by (auto intro: token_urlsafe_key_id token_urlsafe_key_secret)
  have s1: "s1 = s\<lparr>api_keys := api_keys s @ [?k]\<rparr>" using ins by (simp add: insert_key_Inr)
  have ok: "keys_ok s1" using keys_ok_insert_key [OF ins assms(7)] .
  have bearer: "bearer_token (Some (''Bearer '' @ kr_key response)) =
      Some (render_api_key (kc_environment p) (token_urlsafe ib) (token_urlsafe sb))"
    unfolding response parts by (rule bearer_token_header [OF rendered_key_no_space [OF env id secret]])
  have parsed: "parse_api_key (render_api_key (kc_environment p) (token_urlsafe ib) (token_urlsafe sb)) =
      Some (ak_environment ?k, ak_key_id ?k, token_urlsafe sb)"
    using env id secret by (simp add: parse_api_key_iff new_key_def parts)
  obtain q where q: "q \<in> set (projects s1)" "pj_id q = ak_project_id ?k" "pj_is_active q"
    using assms(9) by (auto simp: s1 new_key_def)
  have "?k \<in> set (api_keys s1)" by (simp add: s1)
  then have found: "select_key (ak_key_id ?k) s1 = Inr (Some ?k)" using q by (rule select_key_found [OF ok])
  have verified: "verify_secret ?svc (token_urlsafe sb) (ak_secret_hash ?k) = Inr True"
    by (simp add: verify_secret_def new_key_def parts verify_guarded_hash [OF assms(6)])
  have active: "is_record_active t (ak_expires_at ?k) (ak_revoked_at ?k)"
    using assms(10) by (cases "kc_expires_at p") (simp_all add: is_record_active_def new_key_def)
  have presents: "presents app t (Some (''Bearer '' @ kr_key response)) s1 ?k"
    unfolding presents_def bearer using parsed found verified active by blast
  have "requests_today now ?k < ak_daily_req_limit ?k" for now
    using assms(8) by (auto simp: requests_today_def new_key_def valid_api_key_create_request_def in_range_def)
  from presents_accepted [OF ok presents this] presents s1 response show ?thesis
    by (intro exI [of _ ?k]) (simp add: new_key_def)
qed

definition sample_key_request :: api_key_create_request where
  "sample_key_request = \<lparr>kc_project_id = 5, kc_environment = ''test'', kc_name = None, kc_scopes = [''chat''],
     kc_expires_at = None, kc_rpm_limit = 60, kc_daily_req_limit = 2\<rparr>"

lemma sample_db_ok: "keys_ok (sample_db [])"
  by (simp add: keys_ok_def sample_defs wf_project_def fits_int8_def idempotency_unique_def)

lemma sample_key_created:
  "\<exists>response s1. create_api_key (sample_app codec) 7 0 (utc_date 0) (replicate 9 7) (replicate 32 200) []
     sample_key_request (sample_db []) = Inr (response, s1)"
proof -
  have fresh: "token_urlsafe (replicate 9 7) = ''BwcHBwcHBwcH''" by code_simp
  have projects: "filter (\<lambda>q. pj_id q = 5) (projects (sample_db [])) = [sample_project]"
    by (simp add: sample_db_def sample_project_def)
  obtain g where g: "generate (app_api_key_service (sample_app codec)) (replicate 9 7) (replicate 32 200) [] ''test'' = Inr g"
    "ga_key_id g = ''BwcHBwcHBwcH''" "ga_environment g = ''test''"
    using fresh by (simp add: generate_def Let_def)
  have "\<exists>s1. insert_key (new_key 7 0 (utc_date 0) g sample_key_request) (sample_db []) = Inr s1"
    by (simp add: insert_key_def new_key_def g sample_key_request_def fits_int4_def sample_db_def empty_db_def
        sample_project_def sample_key_def)
  then show ?thesis
    using projects g(1) by (auto simp: create_api_key_Inr sample_key_request_def)
qed

theorem created_key_authenticates_witness:
  "\<exists>response s1 k s'. create_api_key (sample_app sample_codec) 7 0 (utc_date 0) (replicate 9 7) (replicate 32 200) []
       sample_key_request (sample_db []) = Inr (response, s1)
     \<and> fst (require_api_key (sample_app sample_codec) 5 5 5 (Some (''Bearer '' @ kr_key response)) s1 sample_redis)
         = Inr (k, s')"
proof -
  obtain response s1 where r: "create_api_key (sample_app sample_codec) 7 0 (utc_date 0) (replicate 9 7)
      (replicate 32 200) [] sample_key_request (sample_db []) = Inr (response, s1)"
    using sample_key_created by blast
  have bytes: "is_bytes (replicate 9 7)" "length (replicate 9 (7 :: nat)) = 9"
    "is_bytes (replicate 32 200)" "length (replicate 32 (200 :: nat)) = 32"
    by (simp_all add: is_bytes_def list_all_iff)
  have sound: "sound_hasher (aks_hasher (app_api_key_service (sample_app sample_codec)))"
    by (simp add: sample_app_def sound_plain_hasher)
  have valid: "valid_api_key_create_request sample_key_request"
    by (simp add: valid_api_key_create_request_def sample_key_request_def len_between_def in_range_def)
  have project: "\<exists>q\<in>set (projects (sample_db [])). pj_id q = kc_project_id sample_key_request \<and> pj_is_active q"
    by (simp add: sample_db_def sample_project_def sample_key_request_def)
  have unexpired: "pred_option (\<lambda>e. 5 < e) (kc_expires_at sample_key_request)" by (simp add: sample_key_request_def)
  obtain k where k: "\<forall>now t_rate redis.
      (\<exists>s'. fst (require_api_key (sample_app sample_codec) 5 now t_rate (Some (''Bearer '' @ kr_key response)) s1 redis)
        = Inr (counted now k, s'))
      \<longleftrightarrow> fst (allow_minute (app_rate_limiter (sample_app sample_codec)) (ak_key_id k)
            (kc_rpm_limit sample_key_request) t_rate redis)"
    using created_key_authenticates [OF r bytes sound sample_db_ok valid project unexpired] by blast
  have "fst (allow_minute (app_rate_limiter (sample_app sample_codec)) (ak_key_id k)
      (kc_rpm_limit sample_key_request) 5 sample_redis)"
    by (simp add: sample_app_def allow_minute_def map_counters_def sample_redis_def Let_def sample_key_request_def)
  with k r show ?thesis by blast
qed

end
