(* ===== verification/Catalogue.thy ===== *)
theory Catalogue
  imports Auth_Properties Responses
begin

text \<open>
  The read-only endpoints: \<open>routes/usage.py\<close>, \<open>routes/models.py\<close> and \<open>routes/health.py\<close>. They
  change nothing of their own, but the key dependency in front of the first two counts the call.
\<close>

definition usage_body :: "project \<Rightarrow> api_key \<Rightarrow> json" where
  "usage_body project k = JObj
     [(''object'', JStr ''orbi.usage''),
      (''project_id'', JStr (uuid_str (pj_id project))),
      (''daily'', JObj
         [(''date'', JStr (iso_date (pj_daily_usage_date project))),
          (''tokens_used_or_reserved'', JNum (of_int (pj_daily_tokens_used project))),
          (''token_limit'', JNum (of_int (pj_daily_token_limit project)))]),
      (''monthly'', JObj
         [(''month'', JStr (iso_date (pj_monthly_usage_month project))),
          (''tokens_used_or_reserved'', JNum (of_int (pj_monthly_tokens_used project))),
          (''token_limit'', JNum (of_int (pj_monthly_token_limit project)))]),
      (''api_key'', JObj
         [(''display_prefix'', JStr (ak_display_prefix k)),
          (''completed_requests'', JNum (of_int (ak_total_requests k))),
          (''completed_tokens'', JNum (of_int (ak_total_tokens k))),
          (''daily_requests_used'', JNum (of_int (ak_daily_requests_used k))),
          (''daily_request_limit'', JNum (of_int (ak_daily_req_limit k)))])]"

definition usage_handler :: "api_key \<Rightarrow> db \<Rightarrow> (json \<times> db) result" where
  "usage_handler k s =
     bind_result (scalar_one (filter (\<lambda>p. pj_id p = ak_project_id k) (projects s))) (\<lambda>project.
       Inr (usage_body project k, s))"

definition get_usage ::
  "'s app_state \<Rightarrow> instant \<times> instant \<times> instant \<Rightarrow> string option \<Rightarrow> db \<Rightarrow> 's \<Rightarrow> json result \<times> db \<times> 's" where
  "get_usage app clock authorization s redis =
     with_api_key app clock authorization ''usage:read'' usage_handler s redis"

definition model_entry :: "model_alias \<Rightarrow> json" where
  "model_entry row = JObj
     [(''id'', JStr (ma_alias row)), (''object'', JStr ''model''), (''owned_by'', JStr ''orbi''),
      (''orbi'', JObj
         [(''supports_streaming'', JBool (ma_supports_streaming row)),
          (''supports_tools'', JBool (ma_supports_tools row)),
          (''max_context_tokens'', JNum (of_int (ma_max_context_tokens row)))])]"

definition models_handler :: "api_key \<Rightarrow> db \<Rightarrow> (json \<times> db) result" where
  "models_handler k s =
     Inr (JObj [(''object'', JStr ''list''),
                (''data'', JArr (map model_entry (filter ma_is_active (model_aliases s))))], s)"

definition list_models ::
  "'s app_state \<Rightarrow> instant \<times> instant \<times> instant \<Rightarrow> string option \<Rightarrow> db \<Rightarrow> 's \<Rightarrow> json result \<times> db \<times> 's" where
  "list_models app clock authorization s redis =
     with_api_key app clock authorization ''models:read'' models_handler s redis"

definition health :: json where
  "health = JObj [(''status'', JStr ''ok''), (''service'', JStr ''orbi-gateway'')]"

section \<open>Facts\<close>

lemma usage_handler_Inr:
  "usage_handler k s = Inr (body, s') \<longleftrightarrow>
     s' = s \<and> (\<exists>project. filter (\<lambda>p. pj_id p = ak_project_id k) (projects s) = [project] \<and> body = usage_body project k)"
  by (auto simp: usage_handler_def result_simps)

lemma models_handler_Inr [simp]:
  "models_handler k s = Inr (body, s') \<longleftrightarrow> s' = s \<and> body = JObj [(''object'', JStr ''list''),
     (''data'', JArr (map model_entry (filter ma_is_active (model_aliases s))))]"
  by (auto simp: models_handler_def)

text \<open>An authenticated key of a consistent database has its project, so the usage answer exists.\<close>

lemma usage_handler_total:
  assumes "keys_ok s" and "k \<in> set (api_keys s)"
  shows "\<exists>body. usage_handler k s = Inr (body, s)"
proof -
  from assms obtain p where "p \<in> set (projects s)" "pj_id p = ak_project_id k"
    unfolding keys_ok_def by (metis imageE)
  then have "filter (\<lambda>q. pj_id q = ak_project_id k) (projects s) = [p]"
    using filter_key_unique [of pj_id "projects s" p] assms(1) by (simp add: keys_ok_def)
  then show ?thesis by (simp add: usage_handler_Inr)
qed

lemma get_usage_effect:
  assumes "get_usage app clock authorization s redis = (Inr body, s', redis')"
  shows "\<exists>k. require_api_key app (fst clock) (fst (snd clock)) (snd (snd clock)) authorization s redis = (Inr (k, s'), redis')"
  using assms by (auto simp: get_usage_def with_api_key_Inr usage_handler_Inr)

lemma list_models_effect:
  assumes "list_models app clock authorization s redis = (Inr body, s', redis')"
  shows "\<exists>k. require_api_key app (fst clock) (fst (snd clock)) (snd (snd clock)) authorization s redis = (Inr (k, s'), redis')"
  using assms by (auto simp: list_models_def with_api_key_Inr)

end
