(* ===== verification/Gateway.thy ===== *)
theory Gateway
  imports App Chat Worker_Liveness Admin_Properties Catalogue
begin

text \<open>
  The gateway as a whole: a state is the time of the last step, the database and Redis; a step is
  one request to an endpoint, or one maintenance cycle, with any body that its schema accepts, any
  credentials, any random values and any interleaving. Only the clock that \<open>reserve\<close> reads while it
  holds the project's row lock has to advance. \<open>db_step\<close> lists the changes that steps make to the
  database; the facts about all endpoints are proved once for it.
\<close>

lemma base_budget [simp]: "app_budget_service (base app) = app_budget_service app"
  by (simp add: app_state.truncate_def)

inductive gateway_step ::
  "'s services \<Rightarrow> instant \<times> db \<times> 's \<Rightarrow> instant \<times> db \<times> 's \<Rightarrow> bool" for app :: "'s services" where
  chat: "post_chat (base app) clock authorization t_reserve t_expires rid created_at p header s r = (out, s', r') \<Longrightarrow>
    valid_chat_completion_request p \<Longrightarrow> t \<le> t_reserve \<Longrightarrow> t_reserve \<le> t' \<Longrightarrow>
    gateway_step app (t, s, r) (t', s', r')"
| usage: "get_usage (base app) clock authorization s r = (body, s', r') \<Longrightarrow> t \<le> t' \<Longrightarrow>
    gateway_step app (t, s, r) (t', s', r')"
| models: "list_models (base app) clock authorization s r = (body, s', r') \<Longrightarrow> t \<le> t' \<Longrightarrow>
    gateway_step app (t, s, r) (t', s', r')"
| register: "post_register (base app) now wid reg t_issue jti p s = (answer, s') \<Longrightarrow> t \<le> t' \<Longrightarrow>
    gateway_step app (t, s, r) (t', s', r)"
| heartbeat: "post_heartbeat (base app) t_auth authorization now p s = (u, s') \<Longrightarrow> t \<le> t' \<Longrightarrow>
    gateway_step app (t, s, r) (t', s', r)"
| pull: "get_request (base app) contained_in locked t_auth authorization now s = (body, s') \<Longrightarrow> t \<le> t' \<Longrightarrow>
    gateway_step app (t, s, r) (t', s', r)"
| result: "post_result (base app) t_auth authorization now uid rec p s = (u, s') \<Longrightarrow>
    valid_worker_result_request p \<Longrightarrow> t \<le> t' \<Longrightarrow> gateway_step app (t, s, r) (t', s', r)"
| renew: "post_renew (base app) t_auth authorization t_issue jti s = (answer, s') \<Longrightarrow> t \<le> t' \<Longrightarrow>
    gateway_step app (t, s, r) (t', s', r)"
| error: "post_error (base app) t_auth authorization p s = (u, s') \<Longrightarrow> t \<le> t' \<Longrightarrow>
    gateway_step app (t, s, r) (t', s', r)"
| new_key: "with_admin (base app) authorization
      (create_api_key (base app) kid created current_date ib sb salt kp) s = (answer, s') \<Longrightarrow> t \<le> t' \<Longrightarrow>
    gateway_step app (t, s, r) (t', s', r)"
| new_enrollment: "with_admin (base app) authorization
      (create_worker_enrollment (base app) tid created now ib sb salt ep) s = (e_answer, s') \<Longrightarrow> t \<le> t' \<Longrightarrow>
    gateway_step app (t, s, r) (t', s', r)"
| new_project: "with_admin (base app) authorization (create_project pid created current_date pp) s = (p_answer, s') \<Longrightarrow>
    t \<le> t' \<Longrightarrow> gateway_step app (t, s, r) (t', s', r)"
| new_alias: "with_admin (base app) authorization (create_model_alias ap) s = (a_answer, s') \<Longrightarrow> t \<le> t' \<Longrightarrow>
    gateway_step app (t, s, r) (t', s', r)"
| revoke_key: "with_admin (base app) authorization (revoke_api_key now i) s = (u, s') \<Longrightarrow> t \<le> t' \<Longrightarrow>
    gateway_step app (t, s, r) (t', s', r)"
| revoke_worker: "with_admin (base app) authorization (revoke_worker now i) s = (u, s') \<Longrightarrow> t \<le> t' \<Longrightarrow>
    gateway_step app (t, s, r) (t', s', r)"
| maintain: "maintenance_cycle app t_recover t_health s = (u, s') \<Longrightarrow> t \<le> t' \<Longrightarrow>
    gateway_step app (t, s, r) (t', s', r)"

section \<open>What steps do to the database\<close>

text \<open>The changes of all steps but a worker's heartbeat: none of them brings a worker online that was there before.\<close>

inductive quiet_step :: "db \<Rightarrow> db \<Rightarrow> bool" where
  count_key: "k \<in> set (api_keys s) \<Longrightarrow> quiet_step s (replace_key (counted now k) s)"
| add_key: "insert_key k s = Inr s' \<Longrightarrow> ak_total_requests k = 0 \<Longrightarrow> ak_total_tokens k = 0 \<Longrightarrow> quiet_step s s'"
| retire_key: "revoke_api_key now i s = Inr (u, s') \<Longrightarrow> quiet_step s s'"
| add_project: "create_project pid created current_date p s = Inr (response, s') \<Longrightarrow> quiet_step s s'"
| add_alias: "create_model_alias ap s = Inr (response', s') \<Longrightarrow> quiet_step s s'"
| queue: "queue_step s s' \<Longrightarrow> quiet_step s s'"
| add_worker: "insert_worker w s = Inr s' \<Longrightarrow> quiet_step s s'"
| update_workers: "(\<And>w. wk_id (f w) = wk_id w) \<Longrightarrow> (\<And>w. wk_revoked_at w \<noteq> None \<Longrightarrow> wk_revoked_at (f w) \<noteq> None) \<Longrightarrow>
    (\<And>w. wk_status (f w) = ONLINE \<Longrightarrow> wk_status w = ONLINE) \<Longrightarrow>
    quiet_step s (s\<lparr>workers := update_where P f (workers s)\<rparr>)"
| add_enrollment: "insert_enrollment e s = Inr s' \<Longrightarrow> quiet_step s s'"
| use_enrollment: "quiet_step s (consume_token now e s)"

inductive db_step :: "db \<Rightarrow> db \<Rightarrow> bool" where
  quiet: "quiet_step s s' \<Longrightarrow> db_step s s'"
| beat: "heartbeat now hp w s = Inr (u, s') \<Longrightarrow> db_step s s'"

abbreviation quiet_steps :: "db \<Rightarrow> db \<Rightarrow> bool" where
  "quiet_steps \<equiv> quiet_step\<^sup>*\<^sup>*"

abbreviation db_steps :: "db \<Rightarrow> db \<Rightarrow> bool" where
  "db_steps \<equiv> db_step\<^sup>*\<^sup>*"

lemma quiet_steps_db: "quiet_steps s s' \<Longrightarrow> db_steps s s'"
  by (induction rule: rtranclp_induct) (auto intro: quiet rtranclp.rtrancl_into_rtrancl)

text \<open>Where it does not matter who brings a worker online: one case for all updates of the workers.\<close>

lemma db_step_induct [consumes 1, case_names count_key add_key retire_key add_project add_alias queue add_worker
    update_workers add_enrollment use_enrollment]:
  assumes "db_step s s'"
    and "\<And>k s now. k \<in> set (api_keys s) \<Longrightarrow> P s (replace_key (counted now k) s)"
    and "\<And>k s s'. insert_key k s = Inr s' \<Longrightarrow> ak_total_requests k = 0 \<Longrightarrow> ak_total_tokens k = 0 \<Longrightarrow> P s s'"
    and "\<And>now i s u s'. revoke_api_key now i s = Inr (u, s') \<Longrightarrow> P s s'"
    and "\<And>pid created current_date p s response s'. create_project pid created current_date p s = Inr (response, s') \<Longrightarrow> P s s'"
    and "\<And>ap s response' s'. create_model_alias ap s = Inr (response', s') \<Longrightarrow> P s s'"
    and "\<And>s s'. queue_step s s' \<Longrightarrow> P s s'"
    and "\<And>w s s'. insert_worker w s = Inr s' \<Longrightarrow> P s s'"
    and update: "\<And>f s Q. (\<And>w. wk_id (f w) = wk_id w) \<Longrightarrow> (\<And>w. wk_revoked_at w \<noteq> None \<Longrightarrow> wk_revoked_at (f w) \<noteq> None) \<Longrightarrow>
      P s (s\<lparr>workers := update_where Q f (workers s)\<rparr>)"
    and "\<And>e s s'. insert_enrollment e s = Inr s' \<Longrightarrow> P s s'"
    and "\<And>s now e. P s (consume_token now e s)"
  shows "P s s'"
  using assms(1)
proof cases
  case quiet
  then show ?thesis by (rule quiet_step.induct) (fact assms(2-8) assms(10-11) | rule update; assumption)+
next
  case (beat now p w u)
  then show ?thesis by (auto simp: heartbeat_def change_worker_def intro: update)
qed

text \<open>The one change that depends on the clock: a chat request is admitted and queued.\<close>

inductive admit_step :: "instant \<Rightarrow> instant \<Rightarrow> db \<Rightarrow> db \<Rightarrow> bool" for t t' where
  admit: "create_chat t_reserve t_expires rid created_at p header k s = Inr (Waiting i, s') \<Longrightarrow>
    valid_chat_completion_request p \<Longrightarrow> t \<le> t_reserve \<Longrightarrow> t_reserve \<le> t' \<Longrightarrow> admit_step t t' s s'"

lemma quiet_steps_change_worker:
  assumes "\<And>w. wk_id (f w) = wk_id w" and "\<And>w. wk_revoked_at w \<noteq> None \<Longrightarrow> wk_revoked_at (f w) \<noteq> None"
    and "\<And>w. wk_status (f w) = ONLINE \<Longrightarrow> wk_status w = ONLINE"
  shows "quiet_steps s (change_worker i f s)"
  unfolding change_worker_def by (rule r_into_rtranclp, rule update_workers [OF assms])

text \<open>Behind a key: a refused call changes nothing, an accepted one counts the call first.\<close>

lemma with_api_key_steps:
  assumes "with_api_key app clock authorization scope handler s r = (out, s', r')"
    and "\<And>k s1 v. handler k s1 = Inr (v, s') \<Longrightarrow> s1 = s' \<or> R s1 s'"
  shows "\<exists>s1. quiet_steps s s1 \<and> (s1 = s' \<or> R s1 s')"
proof (cases out)
  case (Inl e)
  with assms(1) have "s' = s" by (auto dest: with_api_key_Inl)
  then show ?thesis by blast
next
  case (Inr v)
  with assms(1) obtain k s1 where auth: "fst (require_api_key app (fst clock) (fst (snd clock)) (snd (snd clock))
      authorization s r) = Inr (k, s1)" and handled: "handler k s1 = Inr (v, s')"
    by (auto simp: with_api_key_Inr)
  then obtain key_id k0 where "select_key key_id s = Inr (Some k0)" "s1 = replace_key (counted (fst (snd clock)) k0) s"
    unfolding require_api_key_Inr by blast
  then have "quiet_steps s s1" by (auto dest: select_key_Some intro: count_key r_into_rtranclp)
  with assms(2) [OF handled] show ?thesis by blast
qed

lemma with_worker_steps:
  assumes "with_worker app now authorization scope handler s = (out, s')"
    and "\<And>w v. handler w s = Inr (v, s') \<Longrightarrow> quiet_steps s s'"
  shows "quiet_steps s s'"
proof (cases out)
  case (Inl e)
  with assms(1) have "s' = s" by (auto dest: with_worker_Inl)
  then show ?thesis by simp
next
  case (Inr v)
  with assms show ?thesis by (auto simp: with_worker_Inr)
qed

lemma with_admin_steps:
  assumes "with_admin app authorization handler s = (out, s')"
    and "\<And>v. handler s = Inr (v, s') \<Longrightarrow> quiet_steps s s'"
  shows "quiet_steps s s'"
proof (cases out)
  case (Inl e)
  with assms(1) have "s' = s" by (auto dest: with_admin_Inl)
  then show ?thesis by simp
next
  case (Inr v)
  with assms show ?thesis by (auto simp: with_admin_Inr)
qed

lemma create_chat_steps:
  assumes "create_chat t_reserve t_expires rid created_at p header k s = Inr (out, s')"
    and "valid_chat_completion_request p" and "t \<le> t_reserve" and "t_reserve \<le> t'"
  shows "s = s' \<or> admit_step t t' s s'"
proof (cases out)
  case (Answered j)
  with assms(1) show ?thesis by (auto simp: create_chat_Inr enqueue_Inr)
next
  case (Waiting i)
  with assms show ?thesis by (auto intro: admit)
qed

lemma register_steps:
  assumes "post_register app now wid reg t_issue jti p s = (answer, s')"
  shows "quiet_steps s s'"
proof (cases answer)
  case (Inl e)
  with assms have "s' = s" by (auto simp: post_register_def session_scope_def split: sum.splits prod.splits)
  then show ?thesis by simp
next
  case (Inr response)
  with assms have "register_worker app now wid reg t_issue jti p s = Inr (response, s')"
    by (auto simp: post_register_def session_scope_def split: sum.splits prod.splits)
  then obtain token where fresh: "wid \<notin> wk_id ` set (workers s)"
    and s': "s' = consume_token now token (s\<lparr>workers := workers s
            @ [(new_worker wid reg now p)\<lparr>wk_token_jti := Some jti\<rparr>]\<rparr>)"
    unfolding register_worker_Inr by blast
  let ?w = "(new_worker wid reg now p)\<lparr>wk_token_jti := Some jti\<rparr>"
  from fresh have "insert_worker ?w s = Inr (s\<lparr>workers := workers s @ [?w]\<rparr>)"
    by (simp add: insert_worker_def new_worker_def)
  then have "quiet_step s (s\<lparr>workers := workers s @ [?w]\<rparr>)" by (rule add_worker)
  moreover have "quiet_step (s\<lparr>workers := workers s @ [?w]\<rparr>) s'"
    unfolding s' by (rule use_enrollment)
  ultimately show ?thesis by (meson converse_rtranclp_into_rtranclp r_into_rtranclp)
qed

lemma maintenance_steps:
  assumes "maintenance_cycle app t_recover t_health s = (u, s')"
    and "app_budget_service app = budget_service_impl"
  shows "quiet_steps s s'"
proof (cases u)
  case (Inl e)
  with assms(1) have "s' = s" by (auto dest: maintenance_cycle_Inl)
  then show ?thesis by simp
next
  case (Inr x)
  with assms obtain k s1 where rec: "recover_expired_leases budget_service_impl t_recover s = Inr (k, s1)"
    and s': "s' = snd (mark_stale_workers_offline (app_worker_health app) t_health s1)"
    by (auto simp: maintenance_cycle_Inr)
  from rec have "quiet_step s s1" by (auto intro: queue queue_step.recover)
  moreover have "quiet_step s1 s'"
    unfolding s' mark_stale_workers_offline_def Let_def snd_conv by (rule update_workers) simp_all
  ultimately show ?thesis by (meson converse_rtranclp_into_rtranclp r_into_rtranclp)
qed

lemma submit_steps:
  assumes "app_budget_service app = budget_service_impl"
  shows "submit_result app now uid rec p w s = Inr (v, s') \<Longrightarrow> valid_worker_result_request p \<Longrightarrow> quiet_steps s s'"
    and "submit_error app ep w s = Inr (v', s') \<Longrightarrow> quiet_steps s s'"
    and "pull_request app contained_in locked now w s = Inr (j, s') \<Longrightarrow> quiet_steps s s'"
proof -
  assume "submit_result app now uid rec p w s = Inr (v, s')" and valid: "valid_worker_result_request p"
  then obtain b where "commit_result budget_service_impl now uid rec (ws_request_id p) w
         (ws_result p) (ws_input_tokens p) (ws_output_tokens p) (ws_latency_ms p) s = Inr (b, s')"
    using assms by (auto simp: submit_result_def bind_result_eq_Inr split: if_splits)
  with valid have "queue_step s s'"
    by (auto simp: valid_worker_result_request_def intro: queue_step.commit)
  then show "quiet_steps s s'" by (auto intro: queue)
next
  assume "submit_error app ep w s = Inr (v', s')"
  then obtain b where "record_error budget_service_impl (we_request_id ep) w (we_retryable ep)
         (we_error_code ep) (we_message ep) s = Inr (b, s')"
    using assms by (auto simp: submit_error_def bind_result_eq_Inr split: if_splits)
  then have "queue_step s s'" by (auto intro: queue_step.error)
  then show "quiet_steps s s'" by (auto intro: queue)
next
  assume "pull_request app contained_in locked now w s = Inr (j, s')"
  then consider "s' = s" | c where "claim_next contained_in locked now w
      (st_worker_lease_seconds (app_settings app)) s = (c, s')"
    by (auto simp: pull_request_def split: if_splits prod.splits)
  then show "quiet_steps s s'"
  proof cases
    case 2
    then have "queue_step s s'" by (auto intro: queue_step.claim)
    then show ?thesis by (auto intro: queue)
  qed simp
qed

lemma create_api_key_steps:
  assumes "create_api_key app kid created current_date ib sb salt kp s = Inr (response, s')"
  shows "quiet_steps s s'"
proof -
  from assms obtain g where "insert_key (new_key kid created current_date g kp) s = Inr s'"
    by (auto simp: create_api_key_Inr)
  then have "quiet_step s s'" by (rule add_key) (simp_all add: new_key_def)
  then show ?thesis by (rule r_into_rtranclp)
qed

lemma create_worker_enrollment_steps:
  assumes "create_worker_enrollment app tid created now ib sb salt ep s = Inr (response, s')"
  shows "quiet_steps s s'"
proof -
  from assms obtain e where "insert_enrollment e s = Inr s'"
    by (auto simp: create_worker_enrollment_def Let_def bind_result_eq_Inr)
  then show ?thesis by (auto intro: add_enrollment)
qed

lemma revoke_worker_steps:
  assumes "revoke_worker now i s = Inr (u, s')"
  shows "quiet_steps s s'"
proof -
  from assms have s': "s' = change_worker i (\<lambda>w. w\<lparr>
      wk_revoked_at := (case wk_revoked_at w of None \<Rightarrow> Some now | Some t \<Rightarrow> Some t),
      wk_status := SUSPENDED, wk_token_jti := None\<rparr>) s"
    by (simp add: revoke_worker_Inr)
  show ?thesis unfolding s' by (rule quiet_steps_change_worker) (auto split: option.splits)
qed

text \<open>
  Every step of the gateway but a worker's heartbeat is a sequence of quiet changes, followed for a chat request by its
  admission, and time does not go back.
\<close>

definition beats :: "'s app_state \<Rightarrow> worker \<Rightarrow> instant \<Rightarrow> worker_heartbeat_request \<Rightarrow> db \<Rightarrow> db \<Rightarrow> bool" where
  "beats app w now p s s' \<longleftrightarrow>
     (\<exists>t_auth authorization claims. require_worker app t_auth authorization s = Inr (w, claims)
        \<and> post_heartbeat app t_auth authorization now p s = (Inr (), s'))"

lemma gateway_step_quiet:
  assumes "gateway_step app (t, s, r) (t', s', r')" and "app_budget_service app = budget_service_impl"
  shows "t \<le> t' \<and> ((\<exists>u. quiet_steps s u \<and> (u = s' \<or> admit_step t t' u s')) \<or> (\<exists>w now p. beats (base app) w now p s s'))"
  using assms(1)
proof (cases rule: gateway_step.cases)
  case (chat clock authorization t_reserve t_expires rid created_at p header out)
  have "\<exists>u. quiet_steps s u \<and> (u = s' \<or> admit_step t t' u s')"
    by (rule with_api_key_steps [OF chat(1) [unfolded post_chat_def]], rule create_chat_steps) (use chat in auto)
  with chat show ?thesis by simp
next
  case (usage clock authorization body)
  have "\<exists>u. quiet_steps s u \<and> (u = s' \<or> admit_step t t' u s')"
    by (rule with_api_key_steps [OF usage(1) [unfolded get_usage_def]]) (simp add: usage_handler_Inr)
  with usage show ?thesis by simp
next
  case (models clock authorization body)
  have "\<exists>u. quiet_steps s u \<and> (u = s' \<or> admit_step t t' u s')"
    by (rule with_api_key_steps [OF models(1) [unfolded list_models_def]]) simp
  with models show ?thesis by simp
next
  case (register now wid reg t_issue jti p answer)
  then show ?thesis by (auto intro: register_steps)
next
  case (heartbeat t_auth authorization now p u)
  show ?thesis
  proof (cases u)
    case (Inl e)
    with heartbeat have "s' = s" by (auto simp: post_heartbeat_def dest: with_worker_Inl)
    with heartbeat show ?thesis by blast
  next
    case (Inr v)
    with heartbeat have "\<exists>w claims. require_worker (base app) t_auth authorization s = Inr (w, claims)"
      by (auto simp: post_heartbeat_def with_worker_Inr)
    with heartbeat Inr show ?thesis unfolding beats_def by (cases v) blast
  qed
next
  case (pull contained_in locked t_auth authorization now body)
  have "quiet_steps s s'"
    by (rule with_worker_steps [OF pull(2) [unfolded get_request_def]]) (rule submit_steps(3), use assms(2) in auto)
  with pull show ?thesis by blast
next
  case (result t_auth authorization now uid rec p u)
  have "quiet_steps s s'"
    by (rule with_worker_steps [OF result(2) [unfolded post_result_def]])
      (rule submit_steps(1), use assms(2) result in auto)
  with result show ?thesis by blast
next
  case (renew t_auth authorization t_issue jti answer)
  have "quiet_steps s s'"
    by (rule with_worker_steps [OF renew(2) [unfolded post_renew_def]])
      (auto simp: renew_worker_token_def Let_def issue_def intro: quiet_steps_change_worker)
  with renew show ?thesis by blast
next
  case (error t_auth authorization p u)
  have "quiet_steps s s'"
    by (rule with_worker_steps [OF error(2) [unfolded post_error_def]])
      (rule submit_steps(2), use assms(2) in auto)
  with error show ?thesis by blast
next
  case (new_key authorization kid created current_date ib sb salt kp answer)
  have "quiet_steps s s'"
    by (rule with_admin_steps [OF new_key(2)]) (auto intro: create_api_key_steps)
  with new_key show ?thesis by blast
next
  case (new_enrollment authorization tid created now ib sb salt ep e_answer)
  have "quiet_steps s s'"
    by (rule with_admin_steps [OF new_enrollment(2)])
      (auto intro: create_worker_enrollment_steps)
  with new_enrollment show ?thesis by blast
next
  case (new_project authorization pid created current_date pp p_answer)
  have "quiet_steps s s'"
    by (rule with_admin_steps [OF new_project(2)]) (auto intro: add_project)
  with new_project show ?thesis by blast
next
  case (new_alias authorization ap a_answer)
  have "quiet_steps s s'"
    by (rule with_admin_steps [OF new_alias(2)]) (auto intro: add_alias)
  with new_alias show ?thesis by blast
next
  case (revoke_key authorization now i u)
  have "quiet_steps s s'"
    by (rule with_admin_steps [OF revoke_key(2)]) (auto intro: retire_key)
  with revoke_key show ?thesis by blast
next
  case (revoke_worker authorization now i u)
  have "quiet_steps s s'"
    by (rule with_admin_steps [OF revoke_worker(2)]) (auto intro: revoke_worker_steps)
  with revoke_worker show ?thesis by blast
next
  case (maintain t_recover t_health u)
  then show ?thesis using maintenance_steps [OF _ assms(2)] by blast
qed

lemma beats_step:
  assumes "beats app w now p s s'"
  shows "db_step s s'"
proof -
  from assms have "heartbeat now p w s = Inr ((), s')"
    by (auto simp: beats_def post_heartbeat_def with_worker_Inr)
  then show ?thesis by (rule beat)
qed

lemma gateway_step_db:
  assumes "gateway_step app (t, s, r) (t', s', r')" and "app_budget_service app = budget_service_impl"
  shows "t \<le> t' \<and> (\<exists>u. db_steps s u \<and> (u = s' \<or> admit_step t t' u s'))"
  using gateway_step_quiet [OF assms] quiet_steps_db beats_step by blast

end
