(* ===== verification/Gateway_Invariant.thy ===== *)
theory Gateway_Invariant
  imports Gateway "HOL-Library.Multiset"
begin

text \<open>
  What holds of the database in every reachable state of the gateway, component by component: the
  key constraints, the foreign keys, the rows of the queue, the counters of the projects against
  the rows (the ledger), the usage records and the totals of the keys against the completed rows.
\<close>

section \<open>The components\<close>

definition sound_projects :: "project list \<Rightarrow> bool" where
  "sound_projects ps \<longleftrightarrow> (\<forall>p\<in>set ps. wf_project p
     \<and> fits_int8 (pj_daily_tokens_used p) \<and> fits_int8 (pj_monthly_tokens_used p))"

definition linked :: "db \<Rightarrow> bool" where
  "linked s \<longleftrightarrow> (\<forall>r\<in>set (requests s).
     rq_project_id r \<in> pj_id ` set (projects s) \<and> rq_api_key_id r \<in> ak_id ` set (api_keys s))"

definition ledger :: "instant \<Rightarrow> db \<Rightarrow> bool" where
  "ledger t s \<longleftrightarrow>
     daily.balanced (projects s) (postings (requests s))
     \<and> monthly.balanced (projects s) (postings (requests s))
     \<and> daily.current_up_to t (projects s) (postings (requests s))
     \<and> monthly.current_up_to t (projects s) (postings (requests s))"

definition done_rows :: "orbi_request list \<Rightarrow> orbi_request list" where
  "done_rows rows = filter (\<lambda>r. rq_status r = COMPLETED) rows"

definition bill_of :: "orbi_request \<Rightarrow> uuid \<times> uuid \<times> uuid \<times> int option \<times> int option" where
  "bill_of r = (rq_id r, rq_project_id r, rq_api_key_id r, rq_input_tokens r, rq_output_tokens r)"

definition bill_of_usage :: "usage_record \<Rightarrow> uuid \<times> uuid \<times> uuid \<times> int option \<times> int option" where
  "bill_of_usage u = (ur_request_id u, ur_project_id u, ur_api_key_id u,
     Some (ur_input_tokens u), Some (ur_output_tokens u))"

definition billed :: "db \<Rightarrow> bool" where
  "billed s \<longleftrightarrow> mset (map bill_of_usage (usage_records s)) = mset (map bill_of (done_rows (requests s)))"

definition rows_of_key :: "uuid \<Rightarrow> orbi_request list \<Rightarrow> orbi_request list" where
  "rows_of_key i rows = filter (\<lambda>r. rq_api_key_id r = i) (done_rows rows)"

definition totals :: "db \<Rightarrow> bool" where
  "totals s \<longleftrightarrow> (\<forall>k\<in>set (api_keys s).
     ak_total_requests k = int (length (rows_of_key (ak_id k) (requests s)))
     \<and> ak_total_tokens k = sum_list (map charge (rows_of_key (ak_id k) (requests s))))"

definition gateway_ok :: "instant \<Rightarrow> db \<Rightarrow> bool" where
  "gateway_ok t s \<longleftrightarrow> keys_ok s \<and> sound_projects (projects s) \<and> wf_requests (requests s)
     \<and> linked s \<and> ledger t s \<and> billed s \<and> totals s"

lemma gateway_ok_empty: "gateway_ok t empty_db"
  by (simp add: gateway_ok_def empty_db_def keys_ok_def idempotency_unique_def sound_projects_def
      wf_requests_def linked_def ledger_def daily.balanced_def monthly.balanced_def
      daily.current_up_to_def monthly.current_up_to_def billed_def done_rows_def totals_def)

section \<open>Budgets\<close>

lemma sound_flush:
  assumes "flush_project p s = Inr s'" and "wf_project p" and "sound_projects (projects s)"
  shows "sound_projects (projects s')"
  using assms by (auto simp: flush_project_Inr sound_projects_def set_update_where)

lemma wf_settle: "wf_project p \<Longrightarrow> wf_project (settle_project \<delta> d m p)"
  by (simp add: settle_project_def wf_project_def Let_def)

lemma sound_reconcile:
  assumes "reconcile pid r a d m s = Inr s'" and "sound_projects (projects s)"
  shows "sound_projects (projects s')"
proof -
  from assms(1) obtain p where p: "select_project pid s = Inr p"
    and fl: "flush_project (settle_project (a - r) d m p) s = Inr s'"
    by (auto simp: reconcile_Inr)
  from select_project_Inr [OF p] assms(2) have "wf_project p" by (auto simp: sound_projects_def)
  with sound_flush [OF fl _ assms(2)] wf_settle show ?thesis by blast
qed

lemma sound_reserve:
  assumes "reserve now pid n s = Inr ((p', d, m), s')" and "sound_projects (projects s)"
  shows "sound_projects (projects s')"
proof -
  from assms(1) obtain p where p: "select_project pid s = Inr p"
    and ok: "enforce_budget (snapshot_of (roll_periods d m p)) n = Inr ()"
    and p': "p' = charge_project n (roll_periods d m p)" and fl: "flush_project p' s = Inr s'"
    by (auto simp: reserve_Inr)
  from select_project_Inr [OF p] assms(2) have "wf_project p" by (auto simp: sound_projects_def)
  with ok have "wf_project p'"
    by (auto simp: p' wf_project_def charge_project_def roll_periods_def Let_def)
  with sound_flush [OF fl] assms(2) show ?thesis by blast
qed

text \<open>A release from a sound project with the row present cannot fail: the counter only goes down.\<close>

lemma release_total:
  assumes "distinct (map pj_id (projects s))" and "sound_projects (projects s)"
    and "pid \<in> pj_id ` set (projects s)" and "0 \<le> n"
  shows "\<exists>s'. release pid n d m s = Inr s'"
proof -
  from assms(3) obtain p where p: "p \<in> set (projects s)" "pid = pj_id p" by blast
  have sel: "select_project pid s = Inr p" unfolding p(2) by (rule select_project_found [OF assms(1) p(1)])
  from assms(2) p have "wf_project p" "fits_int8 (pj_daily_tokens_used p)" "fits_int8 (pj_monthly_tokens_used p)"
    by (auto simp: sound_projects_def)
  with assms(4) have "fits_int8 (pj_daily_tokens_used (settle_project (0 - n) d m p))"
    "fits_int8 (pj_monthly_tokens_used (settle_project (0 - n) d m p))"
    by (auto simp: settle_project_def Let_def wf_project_def fits_int8_def)
  then show ?thesis by (simp add: release_def reconcile_def sel flush_project_def del: diff_0)
qed

section \<open>Steps of the queue\<close>

abbreviation key_ids :: "api_key \<Rightarrow> uuid \<times> string \<times> uuid" where
  "key_ids k \<equiv> (ak_id k, ak_key_id k, ak_project_id k)"

definition same_frame :: "db \<Rightarrow> db \<Rightarrow> bool" where
  "same_frame s s' \<longleftrightarrow> map pj_id (projects s') = map pj_id (projects s)
     \<and> map key_ids (api_keys s') = map key_ids (api_keys s)
     \<and> model_aliases s' = model_aliases s \<and> workers s' = workers s
     \<and> enrollment_tokens s' = enrollment_tokens s
     \<and> (sound_projects (projects s) \<longrightarrow> sound_projects (projects s'))"

lemma same_frameD:
  assumes "same_frame s s'"
  shows "map pj_id (projects s') = map pj_id (projects s)" and "map key_ids (api_keys s') = map key_ids (api_keys s)"
    and "model_aliases s' = model_aliases s" and "workers s' = workers s"
    and "sound_projects (projects s) \<Longrightarrow> sound_projects (projects s')"
    and "enrollment_tokens s' = enrollment_tokens s"
  using assms unfolding same_frame_def by blast+

lemma same_frame_refl [simp]: "same_frame s s"
  by (simp add: same_frame_def)

lemma same_frame_trans: "same_frame s u \<Longrightarrow> same_frame u v \<Longrightarrow> same_frame s v"
  by (simp add: same_frame_def)

lemma same_frame_requests [simp]: "same_frame s (s\<lparr>requests := rows\<rparr>)" "same_frame s (set_request r s)"
  by (simp_all add: same_frame_def)

lemma same_frame_reconcile: "reconcile pid r a d m s = Inr s' \<Longrightarrow> same_frame s s'"
proof -
  assume rec: "reconcile pid r a d m s = Inr s'"
  obtain ps where s': "s' = s\<lparr>projects := ps\<rparr>" using reconcile_frame(1) [OF rec] by blast
  have "map pj_id ps = map pj_id (projects s)" using reconcile_frame(2) [OF rec] by (simp add: s')
  moreover have "sound_projects (projects s) \<longrightarrow> sound_projects ps"
    using sound_reconcile [OF rec] by (simp add: s')
  ultimately show "same_frame s s'" by (simp add: same_frame_def s')
qed

lemma same_frame_release: "bs_release budget_service_impl pid r d m s = Inr s' \<Longrightarrow> same_frame s s'"
  by (simp add: budget_service_impl_def release_def same_frame_reconcile)

lemma count_completion_Inr:
  "count_completion i n s = Inr s' \<longleftrightarrow>
     (\<exists>keys. keys = update_where (\<lambda>k. ak_id k = i) (\<lambda>k. k\<lparr>ak_total_requests := ak_total_requests k + 1,
                          ak_total_tokens := ak_total_tokens k + n\<rparr>) (api_keys s)
        \<and> list_all (\<lambda>k. fits_int8 (ak_total_requests k) \<and> fits_int8 (ak_total_tokens k)) keys
        \<and> s' = s\<lparr>api_keys := keys\<rparr>)"
  by (auto simp: count_completion_def Let_def)

lemma same_frame_count: "count_completion i n s = Inr s' \<Longrightarrow> same_frame s s'"
  by (auto simp: count_completion_Inr same_frame_def intro!: map_update_where)

lemma same_frame_usage: "insert_usage u s = Inr s' \<Longrightarrow> same_frame s s'"
  by (auto simp: insert_usage_Inr same_frame_def)

lemma queue_step_frame: "queue_step s s' \<Longrightarrow> same_frame s s'"
proof (induction rule: queue_step.induct)
  case (claim contained_in locked now worker lease s c s')
  then show ?case by (cases c) (auto simp: claim_next_None claim_next_Some)
next
  case (commit now uid rec req worker result i n lat s b s')
  show ?case
  proof (cases b)
    case False
    with commit show ?thesis by (simp add: commit_result_False)
  next
    case True
    with commit obtain row s2 s3 where
      rec: "reconcile (rq_project_id row) (rq_reserved_tokens row) (i + n) (rq_budget_day row) (rq_budget_month row)
        (s\<lparr>requests := update_where (held_by req worker) (complete_request now result i n) (requests s)\<rparr>) = Inr s2"
      and cnt: "count_completion (rq_api_key_id row) (i + n) s2 = Inr s3"
      and ins: "insert_usage (usage_row uid rec req worker row i n lat) s3 = Inr s'"
      by (auto simp: commit_result_True budget_service_impl_def)
    show ?thesis
      using same_frame_reconcile [OF rec] same_frame_count [OF cnt] same_frame_usage [OF ins]
        same_frame_requests(1) same_frame_trans by blast
  qed
next
  case (error req worker retryable code m s b s')
  show ?case
  proof (cases b)
    case False
    with error show ?thesis by (simp add: record_error_False)
  next
    case True
    with error obtain row where "if retryable \<and> retry_left row
         then s' = set_request ((errored_row code m row)
                \<lparr>rq_retry_count := rq_retry_count row + 1, rq_status := QUEUED\<rparr>) s
         else bs_release budget_service_impl (rq_project_id row) (rq_reserved_tokens row)
                (rq_budget_day row) (rq_budget_month row)
                (set_request ((errored_row code m row)\<lparr>rq_status := FAILED_FINAL\<rparr>) s) = Inr s'"
      by (auto simp: record_error_True)
    then show ?thesis
      using same_frame_requests(2) same_frame_trans same_frame_release by (metis (full_types))
  qed
next
  case (recover now s k s')
  then have "fold_result (release_row budget_service_impl) (released_rows now (requests s))
      (s\<lparr>requests := recovered_rows now (requests s)\<rparr>) = Inr s'"
    by (simp add: recover_Inr)
  then show ?case
    by (rule fold_result_invariant [where P = "same_frame s"])
      (auto simp: release_row_def intro: same_frame_trans same_frame_release)
qed

lemma key_ids_columns:
  assumes "map key_ids ks' = map key_ids ks"
  shows "map ak_id ks' = map ak_id ks" and "map ak_key_id ks' = map ak_key_id ks"
    and "map ak_project_id ks' = map ak_project_id ks"
  using arg_cong [OF assms, of "map fst"] arg_cong [OF assms, of "map (\<lambda>x. fst (snd x))"]
    arg_cong [OF assms, of "map (\<lambda>x. snd (snd x))"]
  by (simp_all add: comp_def)

lemma image_from_map: "map f xs = map f ys \<Longrightarrow> f ` set xs = f ` set ys"
  by (metis list.set_map)

lemma same_frame_ids:
  assumes "same_frame s s'"
  shows "pj_id ` set (projects s') = pj_id ` set (projects s)" and "ak_id ` set (api_keys s') = ak_id ` set (api_keys s)"
    and "ak_project_id ` set (api_keys s') = ak_project_id ` set (api_keys s)"
  using image_from_map [of pj_id "projects s'" "projects s"]
    image_from_map [OF key_ids_columns(1) [OF same_frameD(2) [OF assms]]]
    image_from_map [OF key_ids_columns(3) [OF same_frameD(2) [OF assms]]] same_frameD(1) [OF assms]
  by simp_all

lemma same_frame_keys_ok:
  assumes "same_frame s s'" and "keys_ok s" and "sound_projects (projects s)"
    and "idempotency_unique (requests s')"
  shows "keys_ok s'"
proof -
  have cover: "(\<forall>k\<in>set (api_keys u). ak_project_id k \<in> P) \<longleftrightarrow> ak_project_id ` set (api_keys u) \<subseteq> P" for u P
    by (rule image_subset_iff [symmetric])
  note frame = same_frameD [OF assms(1)] and columns = key_ids_columns [OF same_frameD(2) [OF assms(1)]]
  have "\<forall>p\<in>set (projects s'). wf_project p"
    using frame(5) [OF assms(3)] unfolding sound_projects_def by blast
  then show ?thesis
    using assms(2,4) unfolding keys_ok_def cover same_frame_ids [OF assms(1)] frame(1,3) columns(1,2) by blast
qed

lemma linked_identity:
  assumes "map request_identity (requests s') = map request_identity (requests s)" and "same_frame s s'" and "linked s"
  shows "linked s'"
proof -
  have by_identity: "(\<forall>r\<in>set rows. rq_project_id r \<in> P \<and> rq_api_key_id r \<in> K) \<longleftrightarrow>
      (\<forall>(i, key, p, a, x)\<in>set (map request_identity rows). p \<in> P \<and> a \<in> K)" for rows P K
    by (auto simp: request_identity_def)
  show ?thesis
    using assms(3) unfolding linked_def by_identity same_frame_ids [OF assms(2)] assms(1) .
qed

lemma idempotency_identity:
  assumes "map request_identity rows' = map request_identity rows" and "idempotency_unique rows"
  shows "idempotency_unique rows'"
  using assms(2) unfolding idempotency_unique_def length_filter_identity [OF assms(1)] .

lemma ledger_queue_step:
  assumes "queue_step s s'" and "ledger t s" and wf: "wf_requests (requests s)"
  shows "ledger t s'"
proof -
  from assms(2) have bal: "daily.balanced (projects s) (postings (requests s))"
      "monthly.balanced (projects s) (postings (requests s))"
    and upto: "daily.current_up_to t (projects s) (postings (requests s))"
      "monthly.current_up_to t (projects s) (postings (requests s))"
    by (simp_all add: ledger_def)
  from assms(1) show ?thesis
  proof cases
  case (claim contained_in locked now worker lease c)
  show ?thesis
    unfolding ledger_def
    using daily.claim_balanced [OF claim bal(1) wf] monthly.claim_balanced [OF claim bal(2) wf]
      daily.claim_current_up_to [OF claim wf upto(1)] monthly.claim_current_up_to [OF claim wf upto(2)] by simp
  next
  case (commit now uid rec req worker result i n lat b)
  show ?thesis
    unfolding ledger_def
    using daily.commit_balanced [OF commit(1) bal(1) wf commit(2,3)] monthly.commit_balanced [OF commit(1) bal(2) wf commit(2,3)]
      daily.commit_current_up_to [OF commit(1) wf commit(2,3) upto(1)]
      monthly.commit_current_up_to [OF commit(1) wf commit(2,3) upto(2)] by simp
  next
  case (error req worker retryable code m b)
  show ?thesis
    unfolding ledger_def
    using daily.error_balanced [OF error bal(1) wf] monthly.error_balanced [OF error bal(2) wf]
      daily.error_current_up_to [OF error wf upto(1)] monthly.error_current_up_to [OF error wf upto(2)] by simp
  next
  case (recover now k)
  show ?thesis
    unfolding ledger_def
    using daily.recover_balanced [OF recover bal(1) wf] monthly.recover_balanced [OF recover bal(2) wf]
      daily.recover_current_up_to [OF recover wf upto(1)] monthly.recover_current_up_to [OF recover wf upto(2)] by simp
  qed
qed

end
