(* ===== verification/Gateway_Bills.thy ===== *)
theory Gateway_Bills
  imports Gateway_Invariant
begin

text \<open>
  The usage records and the totals of the keys follow the completed rows: an operation of the queue
  either leaves the completed rows as they are, or (a committed result) adds one, together with its
  usage record and its share of the key's totals.
\<close>

lemma done_rows_update:
  assumes "\<And>r. r \<in> set rows \<Longrightarrow> P r \<Longrightarrow> rq_status r \<noteq> COMPLETED \<and> rq_status (f r) \<noteq> COMPLETED"
  shows "done_rows (update_where P f rows) = done_rows rows"
  using assms by (induction rows) (auto simp: done_rows_def update_where_def)

lemma done_rows_complete:
  assumes "\<And>r. P r \<Longrightarrow> rq_status r \<noteq> COMPLETED \<and> rq_status (f r) = COMPLETED"
  shows "mset (done_rows (update_where P f rows)) = mset (done_rows rows) + mset (map f (filter P rows))"
  using assms by (induction rows) (auto simp: done_rows_def update_where_def)

lemma done_rows_set_request:
  assumes "wf_requests (requests s)" and "q \<in> set (requests s)" and "rq_id r = rq_id q"
    and "rq_status q \<noteq> COMPLETED" and "rq_status r \<noteq> COMPLETED"
  shows "done_rows (requests (set_request r s)) = done_rows (requests s)"
  unfolding requests_set_request
proof (rule done_rows_update)
  fix p assume "p \<in> set (requests s)" and "rq_id p = rq_id r"
  with assms(1-3) have "p = q" by (auto simp: wf_requests_def dest: distinct_key_eq)
  with assms(4,5) show "rq_status p \<noteq> COMPLETED \<and> rq_status r \<noteq> COMPLETED" by simp
qed

lemma done_rows_recovered: "done_rows (recovered_rows now rows) = done_rows rows"
proof -
  have "done_rows (update_where (queue_expired now) expire_row rows') = done_rows rows'" for rows'
    by (rule done_rows_update) (simp add: queue_expired_def expire_row_def)
  moreover have "done_rows (update_where (\<lambda>r. lease_expired now r \<and> \<not> retry_left r) exhaust_row rows') =
      done_rows rows'" for rows'
    by (rule done_rows_update) (auto simp: lease_expired_def in_flight_def exhaust_row_def)
  moreover have "done_rows (update_where (\<lambda>r. lease_expired now r \<and> retry_left r) requeue_row rows') =
      done_rows rows'" for rows'
    by (rule done_rows_update) (auto simp: lease_expired_def in_flight_def requeue_row_def)
  ultimately show ?thesis by (simp only: recovered_rows_def)
qed

text \<open>What a step of the queue does to the completed rows and their accounts.\<close>

definition quiet :: "db \<Rightarrow> db \<Rightarrow> bool" where
  "quiet s s' \<longleftrightarrow> done_rows (requests s') = done_rows (requests s) \<and> usage_records s' = usage_records s
     \<and> api_keys s' = api_keys s"

definition one_more :: "db \<Rightarrow> db \<Rightarrow> bool" where
  "one_more s s' \<longleftrightarrow> (\<exists>row u. mset (done_rows (requests s')) = add_mset row (mset (done_rows (requests s)))
     \<and> usage_records s' = usage_records s @ [u] \<and> bill_of_usage u = bill_of row
     \<and> api_keys s' = update_where (\<lambda>k. ak_id k = rq_api_key_id row)
         (\<lambda>k. k\<lparr>ak_total_requests := ak_total_requests k + 1, ak_total_tokens := ak_total_tokens k + charge row\<rparr>)
         (api_keys s))"

lemma quiet_release:
  assumes "bs_release budget_service_impl pid r d m s = Inr s'" and "quiet s0 s"
  shows "quiet s0 s'"
  using budget.release_same_tables(1-3) [OF assms(1)] assms(2) by (simp add: quiet_def)

lemma commit_one_more:
  assumes "commit_result budget_service_impl now uid rec req worker result i n lat s = Inr (True, s')"
  shows "one_more s s'"
proof -
  let ?f = "complete_request now result i n"
  from assms obtain row s2 s3 where row: "filter (held_by req worker) (requests s) = [row]"
    and rec: "bs_reconcile budget_service_impl (rq_project_id row) (rq_reserved_tokens row) (i + n)
        (rq_budget_day row) (rq_budget_month row)
        (s\<lparr>requests := update_where (held_by req worker) ?f (requests s)\<rparr>) = Inr s2"
    and cnt: "count_completion (rq_api_key_id row) (i + n) s2 = Inr s3"
    and ins: "insert_usage (usage_row uid rec req worker row i n lat) s3 = Inr s'"
    by (auto simp: commit_result_True)
  let ?u = "usage_row uid rec req worker row i n lat"
  have s': "s' = s3\<lparr>usage_records := usage_records s3 @ [?u]\<rparr>" using ins by (simp add: insert_usage_Inr)
  note tables = budget.reconcile_same_tables(1-3) [OF rec] count_completion_tables(1,3) [OF cnt]
  from filter_eq_singletonD(2) [OF row] have id: "rq_id row = req" by (simp add: held_by_def)
  have rows: "requests s' = update_where (held_by req worker) ?f (requests s)"
    using tables by (simp add: s')
  have "mset (done_rows (requests s')) = mset (done_rows (requests s))
      + mset (map ?f (filter (held_by req worker) (requests s)))"
    unfolding rows by (rule done_rows_complete) (auto simp: held_by_def complete_request_def in_flight_def)
  then have "mset (done_rows (requests s')) = add_mset (?f row) (mset (done_rows (requests s)))"
    by (simp add: row)
  moreover have "usage_records s' = usage_records s @ [?u]" using tables by (simp add: s')
  moreover have "bill_of_usage ?u = bill_of (?f row)"
    by (simp add: bill_of_usage_def bill_of_def usage_row_def complete_request_def id)
  moreover have f: "charge (?f row) = i + n" "rq_api_key_id (?f row) = rq_api_key_id row"
    by (simp_all add: charge_def complete_request_def)
  moreover have "api_keys s' = update_where (\<lambda>k. ak_id k = rq_api_key_id (?f row))
      (\<lambda>k. k\<lparr>ak_total_requests := ak_total_requests k + 1, ak_total_tokens := ak_total_tokens k + charge (?f row)\<rparr>)
      (api_keys s)"
    unfolding f using cnt tables by (auto simp: s' count_completion_Inr)
  ultimately show ?thesis unfolding one_more_def by blast
qed

lemma queue_step_accounts:
  assumes "queue_step s s'" and wf: "wf_requests (requests s)"
  shows "quiet s s' \<or> one_more s s'"
  using assms(1)
proof cases
  case (claim contained_in locked now worker lease c)
  show ?thesis
  proof (cases c)
    case None
    with claim show ?thesis by (simp add: claim_next_None quiet_def)
  next
    case (Some r')
    with claim obtain r rs where r: "claim_candidates contained_in locked now worker s = r # rs"
      and r': "r' = assign_row now worker lease r" and s': "s' = set_request r' s"
      by (auto simp: claim_next_Some)
    from claim_candidates_hd(1,2) [OF r] have "done_rows (requests s') = done_rows (requests s)"
      unfolding s' by (intro done_rows_set_request [OF wf]) (auto simp: r' assign_row_def claimable_def)
    then show ?thesis by (simp add: quiet_def s')
  qed
next
  case (commit now uid rec req worker result i n lat b)
  then show ?thesis
    by (cases b) (auto simp: commit_result_False quiet_def dest: commit_one_more)
next
  case (error req worker retryable code m b)
  show ?thesis
  proof (cases b)
    case False
    with error show ?thesis by (simp add: record_error_False quiet_def)
  next
    case True
    with error obtain row where row: "filter (held_by req worker) (requests s) = [row]"
      and eff: "if retryable \<and> retry_left row
         then s' = set_request ((errored_row code m row)
                \<lparr>rq_retry_count := rq_retry_count row + 1, rq_status := QUEUED\<rparr>) s
         else bs_release budget_service_impl (rq_project_id row) (rq_reserved_tokens row)
                (rq_budget_day row) (rq_budget_month row)
                (set_request ((errored_row code m row)\<lparr>rq_status := FAILED_FINAL\<rparr>) s) = Inr s'"
      by (auto simp: record_error_True)
    from filter_eq_singletonD [OF row] have open_row: "row \<in> set (requests s)" "rq_status row \<noteq> COMPLETED"
      by (auto simp: held_by_def in_flight_def)
    have "quiet s (set_request q s)" if "rq_id q = rq_id row" "rq_status q \<noteq> COMPLETED" for q
      using done_rows_set_request [OF wf open_row(1) that(1) open_row(2) that(2)] by (simp add: quiet_def)
    then have "quiet s s'"
      using eff by (cases "retryable \<and> retry_left row") (auto simp: errored_row_def intro: quiet_release)
    then show ?thesis ..
  qed
next
  case (recover now k)
  then have "fold_result (release_row budget_service_impl) (released_rows now (requests s))
      (s\<lparr>requests := recovered_rows now (requests s)\<rparr>) = Inr s'"
    by (simp add: recover_Inr)
  then have "quiet s s'"
    by (rule fold_result_invariant [where P = "quiet s"])
      (auto simp: quiet_def done_rows_recovered release_row_def dest: budget.release_same_tables)
  then show ?thesis ..
qed

section \<open>Accounts\<close>

lemma rows_of_key_more:
  assumes "mset (done_rows rows') = add_mset row (mset (done_rows rows))"
  shows "length (rows_of_key i rows') = length (rows_of_key i rows) + (if rq_api_key_id row = i then 1 else 0)"
    and "sum_list (map charge (rows_of_key i rows')) =
      sum_list (map charge (rows_of_key i rows)) + (if rq_api_key_id row = i then charge row else 0)"
proof -
  have "mset (rows_of_key i rows') = (if rq_api_key_id row = i then add_mset row (mset (rows_of_key i rows))
      else mset (rows_of_key i rows))"
    using assms by (simp add: rows_of_key_def)
  then show "length (rows_of_key i rows') = length (rows_of_key i rows) + (if rq_api_key_id row = i then 1 else 0)"
    and "sum_list (map charge (rows_of_key i rows')) =
      sum_list (map charge (rows_of_key i rows)) + (if rq_api_key_id row = i then charge row else 0)"
    by (simp_all flip: size_mset sum_mset_sum_list add: mset_map split: if_splits)
qed

lemma accounts_quiet:
  assumes "quiet s s'" and "billed s" and "totals s"
  shows "billed s'" and "totals s'"
  using assms by (simp_all add: quiet_def billed_def totals_def rows_of_key_def)

lemma accounts_one_more:
  assumes "one_more s s'" and "billed s" and "totals s"
  shows "billed s'" and "totals s'"
proof -
  from assms(1) obtain row u where more: "mset (done_rows (requests s')) = add_mset row (mset (done_rows (requests s)))"
    and u: "usage_records s' = usage_records s @ [u]" "bill_of_usage u = bill_of row"
    and keys: "api_keys s' = update_where (\<lambda>k. ak_id k = rq_api_key_id row)
         (\<lambda>k. k\<lparr>ak_total_requests := ak_total_requests k + 1, ak_total_tokens := ak_total_tokens k + charge row\<rparr>)
         (api_keys s)"
    unfolding one_more_def by blast
  show "billed s'" using assms(2) more u by (simp add: billed_def mset_map)
  show "totals s'"
    unfolding totals_def
  proof
    fix k' assume "k' \<in> set (api_keys s')"
    then obtain k where "k \<in> set (api_keys s)" and k': "k' = (if ak_id k = rq_api_key_id row
        then k\<lparr>ak_total_requests := ak_total_requests k + 1, ak_total_tokens := ak_total_tokens k + charge row\<rparr> else k)"
      unfolding keys by (blast dest: update_where_in)
    moreover have "ak_total_requests k = int (length (rows_of_key (ak_id k) (requests s)))"
      "ak_total_tokens k = sum_list (map charge (rows_of_key (ak_id k) (requests s)))"
      using assms(3) calculation(1) by (simp_all add: totals_def)
    ultimately show "ak_total_requests k' = int (length (rows_of_key (ak_id k') (requests s')))
        \<and> ak_total_tokens k' = sum_list (map charge (rows_of_key (ak_id k') (requests s')))"
      by (simp add: rows_of_key_more [OF more])
  qed
qed

lemma gateway_ok_queue_step:
  assumes "queue_step s s'" and ok: "gateway_ok t s"
  shows "gateway_ok t s'"
proof -
  from ok have parts: "keys_ok s" "sound_projects (projects s)" "wf_requests (requests s)" "linked s"
    "ledger t s" "billed s" "totals s"
    by (simp_all add: gateway_ok_def)
  note frame = queue_step_frame [OF assms(1)] and same = queue_step_identity [OF assms(1) parts(3)]
  have "idempotency_unique (requests s)" using parts(1) by (simp add: keys_ok_def)
  then have "keys_ok s'" using same_frame_keys_ok [OF frame parts(1,2)] idempotency_identity [OF same] by blast
  moreover have "billed s' \<and> totals s'"
    using queue_step_accounts [OF assms(1) parts(3)] accounts_quiet accounts_one_more parts(6,7) by blast
  ultimately show ?thesis
    unfolding gateway_ok_def
    using same_frameD(5) [OF frame parts(2)] queue_step_wf [OF assms(1) parts(3)] linked_identity [OF same frame parts(4)]
      ledger_queue_step [OF assms(1) parts(5,3)] by blast
qed

end
