(* ===== verification/Gateway_Reachable.thy ===== *)
theory Gateway_Reachable
  imports Gateway_Bills
begin

text \<open>
  Every change that a step of the gateway makes keeps the invariant, so it holds in every state
  that the gateway reaches from an empty database, at the time of that state.
\<close>

section \<open>Keys\<close>

abbreviation key_totals :: "api_key \<Rightarrow> uuid \<times> int \<times> int" where
  "key_totals k \<equiv> (ak_id k, ak_total_requests k, ak_total_tokens k)"

lemma key_totals_all:
  "(\<forall>k\<in>set ks. Q (ak_id k) (ak_total_requests k) (ak_total_tokens k)) \<longleftrightarrow>
     (\<forall>(i, n, m)\<in>set (map key_totals ks). Q i n m)"
  by auto

lemma gateway_ok_keys:
  assumes ok: "gateway_ok t s" and keys: "keys_ok (s\<lparr>api_keys := ks\<rparr>)"
    and same: "map key_totals ks = map key_totals (api_keys s)"
  shows "gateway_ok t (s\<lparr>api_keys := ks\<rparr>)"
proof -
  have "map ak_id ks = map ak_id (api_keys s)"
    using same by (rule map_determined) simp
  then have ids: "ak_id ` set ks = ak_id ` set (api_keys s)" by (rule image_from_map)
  have "linked (s\<lparr>api_keys := ks\<rparr>)"
    using ok by (simp add: gateway_ok_def linked_def ids)
  moreover have "totals (s\<lparr>api_keys := ks\<rparr>)"
  proof -
    let ?Q = "\<lambda>i n m. n = int (length (rows_of_key i (requests s)))
      \<and> m = sum_list (map charge (rows_of_key i (requests s)))"
    have "\<forall>k\<in>set (api_keys s). ?Q (ak_id k) (ak_total_requests k) (ak_total_tokens k)"
      using ok by (simp add: gateway_ok_def totals_def)
    then have "\<forall>k\<in>set ks. ?Q (ak_id k) (ak_total_requests k) (ak_total_tokens k)"
      unfolding key_totals_all [of _ ?Q] same .
    then show ?thesis by (simp add: totals_def)
  qed
  ultimately show ?thesis
    using ok keys by (simp add: gateway_ok_def ledger_def billed_def)
qed

lemma replace_key_totals:
  assumes "keys_ok s" and "k \<in> set (api_keys s)" and "key_totals k' = key_totals k"
  shows "map key_totals (update_where (\<lambda>q. ak_id q = ak_id k') (\<lambda>_. k') (api_keys s)) =
    map key_totals (api_keys s)"
proof (rule map_update_where)
  fix q assume q: "q \<in> set (api_keys s)" "ak_id q = ak_id k'"
  with assms have "q = k" by (auto simp: keys_ok_def dest: distinct_key_eq)
  with assms(3) show "key_totals k' = key_totals q" by simp
qed

lemma gateway_ok_count_key:
  assumes "gateway_ok t s" and "k \<in> set (api_keys s)"
  shows "gateway_ok t (replace_key (counted now k) s)"
proof -
  from assms(1) have keys: "keys_ok s" by (simp add: gateway_ok_def)
  show ?thesis
    using keys_ok_counted [OF keys assms(2), of now] unfolding replace_key_def
    by (rule gateway_ok_keys [OF assms(1)]) (rule replace_key_totals [OF keys assms(2)], simp add: counted_def)
qed

lemma gateway_ok_retire_key:
  assumes "revoke_api_key now i s = Inr (u, s')" and "gateway_ok t s"
  shows "gateway_ok t s'"
proof -
  from assms(1) obtain k where k: "filter (\<lambda>k. ak_id k = i) (api_keys s) = [k]"
    and s': "s' = (if ak_revoked_at k = None then replace_key (k\<lparr>ak_revoked_at := Some now\<rparr>) s else s)"
    unfolding revoke_api_key_Inr by blast
  from assms(2) have keys: "keys_ok s" by (simp add: gateway_ok_def)
  show ?thesis
  proof (cases "ak_revoked_at k = None")
    case True
    then have eq: "s' = replace_key (k\<lparr>ak_revoked_at := Some now\<rparr>) s" by (simp add: s')
    have "keys_ok (replace_key (k\<lparr>ak_revoked_at := Some now\<rparr>) s)"
      using keys_ok_revoke [OF assms(1) keys] by (simp add: eq)
    then show ?thesis
      unfolding eq replace_key_def
      by (rule gateway_ok_keys [OF assms(2)])
        (rule replace_key_totals [OF keys filter_eq_singletonD(1) [OF k]], simp)
  next
    case False
    with assms(2) show ?thesis by (simp only: s' if_False)
  qed
qed

text \<open>A new key has a new identifier, so no stored request is its own.\<close>

lemma rows_of_key_none: "i \<notin> rq_api_key_id ` set rows \<Longrightarrow> rows_of_key i rows = []"
  by (auto simp: rows_of_key_def done_rows_def filter_empty_conv)

lemma gateway_ok_add_key:
  assumes ins: "insert_key k s = Inr s'" and "ak_total_requests k = 0" and "ak_total_tokens k = 0"
    and ok: "gateway_ok t s"
  shows "gateway_ok t s'"
proof -
  from ins have s': "s' = s\<lparr>api_keys := api_keys s @ [k]\<rparr>" and fresh: "ak_id k \<notin> ak_id ` set (api_keys s)"
    by (simp_all add: insert_key_Inr)
  from ok have parts: "keys_ok s" "linked s" "totals s" by (simp_all add: gateway_ok_def)
  from parts(2) fresh have "ak_id k \<notin> rq_api_key_id ` set (requests s)" by (auto simp: linked_def)
  then have "totals s'" using parts(3) assms(2,3) by (auto simp: s' totals_def rows_of_key_none)
  moreover have "linked s'" using parts(2) by (auto simp: s' linked_def)
  ultimately show ?thesis
    using ok keys_ok_insert_key [OF ins parts(1)] by (simp add: s' gateway_ok_def ledger_def billed_def)
qed

section \<open>Projects\<close>

context accounting_period
begin

lemma posted_absent: "pid \<notin> fst ` set xs \<Longrightarrow> posted pick pid d xs = 0"
  by (intro posted_eq_0) force

lemma new_project_balanced:
  "balanced ps xs \<Longrightarrow> used p = 0 \<Longrightarrow> pj_id p \<notin> fst ` set xs \<Longrightarrow> balanced (ps @ [p]) xs"
  by (auto simp: balanced_def posted_absent)

lemma new_project_current:
  "current_up_to t ps xs \<Longrightarrow> pj_id p \<notin> fst ` set xs \<Longrightarrow> current_up_to t (ps @ [p]) xs"
  by (force simp: current_up_to_def)

end

lemma fst_postings: "fst ` set (postings rows) = rq_project_id ` set rows"
  by (force simp: postings_def posting_of_def)

lemma gateway_ok_add_project:
  assumes new: "create_project pid created current_date p s = Inr (response, s')" and ok: "gateway_ok t s"
  shows "gateway_ok t s'"
proof -
  let ?p = "new_project pid created current_date p"
  from new have s': "s' = s\<lparr>projects := projects s @ [?p]\<rparr>"
    and fits: "fits_int8 (pj_daily_token_limit ?p)" "fits_int8 (pj_monthly_token_limit ?p)"
    and fresh: "pj_id ?p \<notin> pj_id ` set (projects s)"
    by (auto simp: create_project_Inr insert_project_Inr)
  from ok have parts: "keys_ok s" "linked s" "ledger t s" "sound_projects (projects s)"
    by (simp_all add: gateway_ok_def)
  from parts(2) fresh have none: "pj_id ?p \<notin> fst ` set (postings (requests s))"
    by (auto simp: linked_def fst_postings)
  have zero: "pj_daily_tokens_used ?p = 0" "pj_monthly_tokens_used ?p = 0" by (simp_all add: new_project_def)
  from parts(3) none have "ledger t s'"
    by (simp add: ledger_def s' zero daily.new_project_balanced monthly.new_project_balanced
        daily.new_project_current monthly.new_project_current)
  moreover have "sound_projects (projects s')"
    using parts(4) fits by (auto simp: s' sound_projects_def wf_project_def zero fits_int8_def)
  moreover have "linked s'" using parts(2) by (auto simp: s' linked_def)
  ultimately show ?thesis
    using ok keys_ok_create_project [OF new parts(1)] by (simp add: gateway_ok_def s' billed_def totals_def)
qed

lemma gateway_ok_add_alias:
  assumes "create_model_alias p s = Inr (response, s')" and "gateway_ok t s"
  shows "gateway_ok t s'"
proof -
  from assms(1) have s': "s' = s\<lparr>model_aliases := model_aliases s @ [new_alias p]\<rparr>"
    by (simp add: create_model_alias_Inr insert_alias_Inr)
  from assms have "keys_ok s'" by (auto simp: gateway_ok_def intro: keys_ok_create_model_alias)
  with assms(2) show ?thesis by (simp add: gateway_ok_def s' linked_def ledger_def billed_def totals_def)
qed

lemma gateway_ok_other_tables:
  "gateway_ok t s \<Longrightarrow> gateway_ok t (s\<lparr>workers := ws\<rparr>)"
  "gateway_ok t s \<Longrightarrow> gateway_ok t (s\<lparr>enrollment_tokens := ets\<rparr>)"
  by (simp_all add: gateway_ok_def keys_ok_def linked_def ledger_def billed_def totals_def)

lemma gateway_ok_db_step: "db_step s s' \<Longrightarrow> gateway_ok t s \<Longrightarrow> gateway_ok t s'"
proof (induction rule: db_step_induct)
  case (add_worker w s s')
  then show ?case by (auto simp: insert_worker_def gateway_ok_other_tables split: if_splits)
next
  case (add_enrollment e s s')
  then show ?case by (auto simp: insert_enrollment_Inr gateway_ok_other_tables)
next
  case (use_enrollment s now e)
  then show ?case by (simp add: consume_token_def gateway_ok_other_tables)
qed (auto intro: gateway_ok_count_key gateway_ok_retire_key gateway_ok_add_key gateway_ok_add_project
    gateway_ok_add_alias gateway_ok_queue_step gateway_ok_other_tables)

section \<open>Admission\<close>

lemma ledger_later: "ledger t s \<Longrightarrow> t \<le> t' \<Longrightarrow> ledger t' s"
  by (auto simp: ledger_def intro: daily.current_up_to_later monthly.current_up_to_later)

lemma gateway_ok_later: "gateway_ok t s \<Longrightarrow> t \<le> t' \<Longrightarrow> gateway_ok t' s"
  by (auto simp: gateway_ok_def intro: ledger_later)

lemma gateway_ok_admit:
  assumes "admit_step t t' s s'" and "gateway_ok t s"
  shows "gateway_ok t' s'"
  using assms(1)
proof cases
  case (admit t_reserve t_expires rid created_at p header k i)
  from gateway_ok_later [OF assms(2) admit(3)] have ok: "gateway_ok t_reserve s" .
  from admit(1) obtain al project d m s1
    where res: "reserve t_reserve (ak_project_id k) (reserved_tokens p) s = Inr ((project, d, m), s1)"
      and ins: "insert_request (queued_request rid created_at header project k al p
          (t_expires + seconds 300) d m) s1 = Inr s'"
    by (auto simp: create_chat_Inr enqueue_Inr)
  let ?row = "queued_request rid created_at header project k al p (t_expires + seconds 300) d m"
  have frame: "s1 = s\<lparr>projects := projects s1\<rparr>" by (rule reserve_frame(1) [OF res])
  have ids: "pj_id ` set (projects s1) = pj_id ` set (projects s)"
    by (rule image_from_map [OF reserve_frame(2) [OF res]])
  obtain ps where s1: "s1 = s\<lparr>projects := ps\<rparr>" using frame by blast
  from ins have s': "s' = s\<lparr>projects := ps, requests := requests s @ [?row]\<rparr>"
    and fk: "rq_project_id ?row \<in> pj_id ` set ps" "rq_api_key_id ?row \<in> ak_id ` set (api_keys s)"
    by (simp_all add: insert_request_Inr s1)
  have "pj_id project = ak_project_id k" using reserve_charged [OF res] by (auto simp: charged_def)
  then have posting: "posting_of ?row = (ak_project_id k, (d, m), reserved_tokens p)"
    and queued: "rq_status ?row = QUEUED"
    by (simp_all add: posting_of_def charge_def queued_request_def)
  from ok have parts: "keys_ok s" "sound_projects (projects s)" "wf_requests (requests s)" "linked s"
    "ledger t_reserve s" "billed s" "totals s"
    by (simp_all add: gateway_ok_def)
  have sound: "sound_projects ps" using sound_reserve [OF res parts(2)] by (simp add: s1)
  have "ledger t_reserve s'"
    using daily.reserve_balanced [OF res] monthly.reserve_balanced [OF res]
      daily.reserve_current_up_to [OF res] monthly.reserve_current_up_to [OF res] parts(5)
    by (simp add: ledger_def s' s1 postings_def posting)
  then have "ledger t' s'" using admit(4) by (rule ledger_later)
  moreover have "keys_ok s'"
  proof -
    have "idempotency_unique (requests s')"
      by (rule insert_request_unique [OF ins]) (use parts(1) in \<open>simp add: s1 keys_ok_def\<close>)
    moreover have "same_frame s s'"
      using reserve_frame(2) [OF res] sound by (simp add: same_frame_def s' s1)
    ultimately show ?thesis using same_frame_keys_ok [OF _ parts(1,2)] by blast
  qed
  moreover have "wf_requests (requests s')"
    using chat_row_wf [OF admit(1) [simplified]] parts(3) reserved_tokens_bounds [OF admit(2)] by fastforce
  moreover have "linked s'"
    using parts(4) fk ids by (auto simp: linked_def s' s1)
  moreover have "done_rows (requests s') = done_rows (requests s)"
    by (simp add: s' done_rows_def queued)
  then have "billed s'" "totals s'" using parts(6,7) by (simp_all add: billed_def totals_def rows_of_key_def s')
  ultimately show ?thesis using sound by (simp add: gateway_ok_def s')
qed

section \<open>All steps\<close>

text \<open>What every change keeps, every step of the gateway keeps, and every reachable state has.\<close>

lemma gateway_step_preserves:
  assumes step: "gateway_step app (t, s, r) (t', s', r')" and impl: "app_budget_service app = budget_service_impl"
    and "P t s"
    and change: "\<And>s s'. db_step s s' \<Longrightarrow> P t s \<Longrightarrow> P t s'"
    and admit: "\<And>s s'. admit_step t t' s s' \<Longrightarrow> P t s \<Longrightarrow> P t' s'"
    and later: "\<And>s. P t s \<Longrightarrow> t \<le> t' \<Longrightarrow> P t' s"
  shows "P t' s'"
proof -
  from gateway_step_db [OF step impl] obtain u where "t \<le> t'" and "db_steps s u"
    and last: "u = s' \<or> admit_step t t' u s'" by blast
  from \<open>db_steps s u\<close> have "P t u" by (induction rule: rtranclp_induct) (auto intro: assms(3) change)
  with last \<open>t \<le> t'\<close> show ?thesis by (auto intro: later admit)
qed

abbreviation gateway_runs where
  "gateway_runs app \<equiv> (gateway_step app)\<^sup>*\<^sup>*"

lemma gateway_run_step: "gateway_step app x y \<Longrightarrow> gateway_runs app x y"
  by (rule r_into_rtranclp)

lemma gateway_runs_preserve:
  assumes runs: "gateway_runs app (t, s, r) (t', s', r')" and impl: "app_budget_service app = budget_service_impl"
    and "P t s"
    and change: "\<And>t s s'. db_step s s' \<Longrightarrow> P t s \<Longrightarrow> P t s'"
    and admit: "\<And>t t' s s'. admit_step t t' s s' \<Longrightarrow> P t s \<Longrightarrow> P t' s'"
    and later: "\<And>t t' s. P t s \<Longrightarrow> t \<le> t' \<Longrightarrow> P t' s"
  shows "P t' s'"
proof -
  have "case (t', s', r') of (t, s, r) \<Rightarrow> P t s"
    using runs
  proof (induction rule: rtranclp_induct)
    case base
    with assms(3) show ?case by simp
  next
    case (step y z)
    obtain t1 s1 r1 t2 s2 r2 where y: "y = (t1, s1, r1)" "z = (t2, s2, r2)" by (metis prod_cases3)
    with step have "P t2 s2"
      by (auto intro: gateway_step_preserves [OF _ impl, of t1 s1 r1 t2 s2 r2 P] change admit later)
    then show ?case by (simp add: y)
  qed
  then show ?thesis by simp
qed

lemma gateway_ok_runs:
  assumes "gateway_runs app (t, s, r) (t', s', r')" and "app_budget_service app = budget_service_impl"
    and "gateway_ok t s"
  shows "gateway_ok t' s'"
  using assms by (rule gateway_runs_preserve) (auto intro: gateway_ok_db_step gateway_ok_admit gateway_ok_later)

end
