(* ===== verification/Gateway_Board.thy ===== *)
theory Gateway_Board
  imports Gateway_Reachable
begin

text \<open>
  The abstract specification of the gateway's queue: a board that maps the identifier of every
  accepted request to its phase. A request is posted once, may be taken and handed back, and ends
  answered or failed. The request table with all of its columns refines the board.
\<close>

section \<open>The board\<close>

datatype phase = Waiting_Phase | Held (holder: uuid) | Answered_Phase json | Failed

inductive phase_step :: "phase \<Rightarrow> phase \<Rightarrow> bool" where
  take_job: "phase_step Waiting_Phase (Held w)"
| give_back: "phase_step (Held w) Waiting_Phase"
| answer: "phase_step (Held w) (Answered_Phase v)"
| give_up: "phase_step (Held w) Failed"
| run_out: "phase_step Waiting_Phase Failed"

inductive_simps phase_step_simps [simp]:
  "phase_step (Answered_Phase v) q" "phase_step Failed q" "phase_step p Waiting_Phase"

type_synonym board = "uuid \<Rightarrow> phase option"

inductive board_step :: "board \<Rightarrow> board \<Rightarrow> bool" where
  post: "b i = None \<Longrightarrow> board_step b (b(i \<mapsto> Waiting_Phase))"
| advance: "b i = Some p \<Longrightarrow> phase_step p q \<Longrightarrow> board_step b (b(i \<mapsto> q))"

abbreviation board_steps :: "board \<Rightarrow> board \<Rightarrow> bool" where
  "board_steps \<equiv> board_step\<^sup>*\<^sup>*"

text \<open>On the board an ended request stays as it is, and no request disappears.\<close>

definition ended :: "phase \<Rightarrow> bool" where
  "ended p \<longleftrightarrow> (case p of Answered_Phase _ \<Rightarrow> True | Failed \<Rightarrow> True | _ \<Rightarrow> False)"

lemma board_step_ended: "board_step b b' \<Longrightarrow> b i = Some p \<Longrightarrow> ended p \<Longrightarrow> b' i = Some p"
  by (induction rule: board_step.induct) (auto simp: ended_def split: phase.splits if_splits)

lemma board_steps_ended: "board_steps b b' \<Longrightarrow> b i = Some p \<Longrightarrow> ended p \<Longrightarrow> b' i = Some p"
  by (induction rule: rtranclp_induct) (auto intro: board_step_ended)

lemma board_step_dom: "board_step b b' \<Longrightarrow> dom b \<subseteq> dom b'"
  by (induction rule: board_step.induct) auto

lemma board_steps_advance:
  "phase_step\<^sup>*\<^sup>* p q \<Longrightarrow> b i = Some p \<Longrightarrow> board_steps b (b(i \<mapsto> q))"
proof (induction rule: rtranclp_induct)
  case base
  then have "b(i \<mapsto> p) = b" by (rule map_upd_triv)
  then show ?case by simp
next
  case (step q r)
  from step.hyps(2) have "board_step (b(i \<mapsto> q)) (b(i \<mapsto> q, i \<mapsto> r))"
    by (intro advance) simp_all
  then have "board_step (b(i \<mapsto> q)) (b(i \<mapsto> r))" by (simp only: fun_upd_upd)
  moreover have "board_steps b (b(i \<mapsto> q))" using step.prems by (rule step.IH)
  ultimately show ?case by (meson rtranclp.rtrancl_into_rtrancl)
qed

section \<open>The request table as a board\<close>

definition phase_of :: "orbi_request \<Rightarrow> phase" where
  "phase_of r =
     (case rq_status r of
        QUEUED \<Rightarrow> Waiting_Phase
      | COMPLETED \<Rightarrow> Answered_Phase (the (rq_result r))
      | FAILED_FINAL \<Rightarrow> Failed
      | CANCELLED \<Rightarrow> Failed
      | EXPIRED \<Rightarrow> Failed
      | _ \<Rightarrow> Held (the (rq_assigned_to r)))"

definition board_of :: "orbi_request list \<Rightarrow> board" where
  "board_of rows = map_of (map (\<lambda>r. (rq_id r, phase_of r)) rows)"

lemma board_of_Nil [simp]: "board_of [] = Map.empty"
  by (simp add: board_of_def)

lemma board_of_Cons [simp]: "board_of (r # rows) = (board_of rows)(rq_id r \<mapsto> phase_of r)"
  by (simp add: board_of_def)

lemma dom_board_of: "dom (board_of rows) = rq_id ` set rows"
  by (simp add: board_of_def dom_map_of_conv_image_fst image_image)

lemma board_of_row:
  "distinct (map rq_id rows) \<Longrightarrow> r \<in> set rows \<Longrightarrow> board_of rows (rq_id r) = Some (phase_of r)"
  unfolding board_of_def by (rule map_of_is_SomeI) (auto simp: comp_def)

text \<open>A transition of a row is a step of its phase.\<close>

lemma request_step_phase: "request_step r r' \<Longrightarrow> phase_step (phase_of r) (phase_of r')"
  by (induction rule: request_step.induct)
    (auto simp: phase_of_def in_flight_def intro: phase_step.intros)

lemma request_steps_phase: "request_steps r r' \<Longrightarrow> phase_step\<^sup>*\<^sup>* (phase_of r) (phase_of r')"
  by (induction rule: rtranclp_induct) (auto dest: request_step_phase intro: rtranclp.rtrancl_into_rtrancl)

text \<open>Row by row transitions of a table are steps of its board, in any order of the rows.\<close>

lemma map_add_upd_absent: "i \<notin> dom c \<Longrightarrow> (b ++ c)(i \<mapsto> q) = b(i \<mapsto> q) ++ c"
  by (rule ext) (auto simp: map_add_def split: option.splits)

lemma rows_board_steps:
  assumes "list_all2 request_steps rows rows'" and "distinct (map rq_id rows)"
  shows "board_steps (b ++ board_of rows) (b ++ board_of rows')"
  using assms
proof (induction arbitrary: b rule: list_all2_induct)
  case (Cons r rows r' rows')
  from Cons.hyps have id: "rq_id r' = rq_id r"
    by (auto dest: request_steps_identity request_identity_id)
  from Cons.prems have absent: "rq_id r \<notin> dom (board_of rows)" by (simp add: dom_board_of)
  have "board_steps (b ++ board_of (r # rows)) ((b ++ board_of (r # rows))(rq_id r \<mapsto> phase_of r'))"
    by (rule board_steps_advance [OF request_steps_phase [OF Cons.hyps(1)]]) simp
  moreover have "(b ++ board_of (r # rows))(rq_id r \<mapsto> phase_of r') = b(rq_id r \<mapsto> phase_of r') ++ board_of rows"
    using map_add_upd_absent [OF absent] by simp
  moreover have "board_steps (b(rq_id r \<mapsto> phase_of r') ++ board_of rows) (b(rq_id r \<mapsto> phase_of r') ++ board_of rows')"
    using Cons.prems by (intro Cons.IH) simp
  moreover have "b(rq_id r \<mapsto> phase_of r') ++ board_of rows' = b ++ board_of (r' # rows')"
  proof -
    have "map rq_id rows' = map rq_id rows"
      using Cons.hyps(2) by (induction rule: list_all2_induct)
        (auto dest: request_steps_identity request_identity_id)
    then have "rq_id r \<notin> dom (board_of rows')" using absent unfolding dom_board_of by (metis list.set_map)
    then show ?thesis using map_add_upd_absent [of "rq_id r" "board_of rows'" b "phase_of r'"] by (simp add: id)
  qed
  ultimately show ?case by (metis rtranclp_trans)
qed simp

section \<open>Refinement\<close>

lemma queue_step_rows:
  assumes "queue_step s s'" and "wf_requests (requests s)"
  shows "list_all2 request_steps (requests s) (requests s')"
  using assms
proof (induction rule: queue_step.induct)
  case (claim contained_in locked now worker lease s c s')
  then show ?case using claims.follows_machine [of "requests s" "requests s'"] unfolding claim_rows_def by blast
next
  case (commit now uid rec req worker result i n lat s b s')
  then show ?case using commits.follows_machine [of "requests s" "requests s'"] unfolding commit_rows_def by blast
next
  case (error req worker retryable code m s b s')
  then show ?case using worker_errors.follows_machine [of "requests s" "requests s'"] unfolding error_rows_def by blast
next
  case (recover now s k s')
  then show ?case using recovery.follows_machine [of "requests s" "requests s'"] unfolding recover_rows_def by blast
qed

lemma db_step_board:
  assumes "db_step s s'" and "wf_requests (requests s)"
  shows "board_steps (board_of (requests s)) (board_of (requests s'))"
  using assms
proof (induction rule: db_step_induct)
  case (queue s s')
  then have "distinct (map rq_id (requests s))" by (simp add: wf_requests_def)
  from rows_board_steps [OF queue_step_rows [OF queue] this, of Map.empty] show ?case by simp
next
  case (retire_key now i s u s')
  then show ?case by (auto simp: revoke_api_key_Inr replace_key_def)
qed (auto simp: replace_key_def insert_key_Inr create_project_Inr insert_project_Inr create_model_alias_Inr
    insert_alias_Inr insert_worker_def insert_enrollment_Inr consume_token_def split: if_splits)

lemma admit_step_board:
  assumes "admit_step t t' s s'"
  shows "board_steps (board_of (requests s)) (board_of (requests s'))"
  using assms
proof cases
  case (admit t_reserve t_expires rid created_at p header k i)
  from chat_row_added [OF admit(1)] obtain row where row: "requests s' = requests s @ [row]"
    "rq_status row = QUEUED" "rq_id row \<notin> rq_id ` set (requests s)"
    by blast
  then have absent: "board_of (requests s) (rq_id row) = None"
    using dom_board_of [of "requests s"] by (auto simp: domIff)
  have "board_of (requests s') = (board_of (requests s))(rq_id row \<mapsto> Waiting_Phase)"
    unfolding row(1) using absent row(2)
    by (auto simp: board_of_def map_add_def phase_of_def split: option.splits)
  with post [of "board_of (requests s)" "rq_id row"] absent show ?thesis by (simp add: r_into_rtranclp)
qed

end
