(* ===== verification/Gateway_Liveness.thy ===== *)
theory Gateway_Liveness
  imports Gateway_Reachable
begin

text \<open>
  What the maintenance loop guarantees of the states that the gateway reaches: a cycle never fails,
  and one that comes after every deadline ends every open request and leaves no reservation held.
\<close>

section \<open>Recovery succeeds\<close>

lemma released_rows_from:
  assumes "q \<in> set (released_rows now rows)"
  shows "\<exists>r\<in>set rows. rq_project_id q = rq_project_id r \<and> rq_reserved_tokens q = rq_reserved_tokens r"
proof -
  have same: "\<exists>r\<in>set rows. rq_project_id q = rq_project_id r \<and> rq_reserved_tokens q = rq_reserved_tokens r"
    if "q \<in> set (update_where P f rows)"
      and "\<And>r. rq_project_id (f r) = rq_project_id r \<and> rq_reserved_tokens (f r) = rq_reserved_tokens r"
    for q P f and rows :: "orbi_request list"
    using update_where_in [OF that(1)] that(2) by force
  let ?rows1 = "update_where (\<lambda>r. lease_expired now r \<and> retry_left r) requeue_row rows"
  have one: "\<exists>r\<in>set rows. rq_project_id q = rq_project_id r \<and> rq_reserved_tokens q = rq_reserved_tokens r"
    if "q \<in> set ?rows1" for q
    using that by (rule same) (simp add: requeue_row_def)
  from assms consider "q \<in> set ?rows1"
    | "q \<in> set (update_where (\<lambda>r. lease_expired now r \<and> \<not> retry_left r) exhaust_row ?rows1)"
    by (auto simp: released_rows_def Let_def)
  then show ?thesis
  proof cases
    case 1
    then show ?thesis by (rule one)
  next
    case 2
    then have "\<exists>r\<in>set ?rows1. rq_project_id q = rq_project_id r \<and> rq_reserved_tokens q = rq_reserved_tokens r"
      by (rule same) (simp add: exhaust_row_def)
    then show ?thesis using one by fastforce
  qed
qed

lemma release_rows_total:
  assumes "distinct (map pj_id (projects s))" and "sound_projects (projects s)"
    and "\<And>r. r \<in> set rs \<Longrightarrow> rq_project_id r \<in> pj_id ` set (projects s) \<and> 0 \<le> rq_reserved_tokens r"
  shows "\<exists>s'. fold_result (release_row budget_service_impl) rs s = Inr s'"
  using assms
proof (induction rs arbitrary: s)
  case (Cons r rs)
  have "\<exists>s1. release (rq_project_id r) (rq_reserved_tokens r) (rq_budget_day r) (rq_budget_month r) s = Inr s1"
    by (rule release_total [OF Cons.prems(1,2)]) (use Cons.prems(3) [of r] in simp_all)
  then obtain s1 where s1: "release_row budget_service_impl r s = Inr s1"
    by (auto simp: release_row_def budget_service_impl_def)
  then have frame: "same_frame s s1" by (auto simp: release_row_def intro: same_frame_release)
  have "\<exists>s'. fold_result (release_row budget_service_impl) rs s1 = Inr s'"
  proof (rule Cons.IH)
    show "distinct (map pj_id (projects s1))" using Cons.prems(1) by (simp only: same_frameD(1) [OF frame])
    show "sound_projects (projects s1)" using frame Cons.prems(2) by (rule same_frameD(5))
    show "rq_project_id q \<in> pj_id ` set (projects s1) \<and> 0 \<le> rq_reserved_tokens q" if "q \<in> set rs" for q
      using Cons.prems(3) [of q] that by (simp add: same_frame_ids(1) [OF frame])
  qed
  with s1 show ?case by simp
qed simp

lemma recovery_total:
  assumes "gateway_ok t s"
  shows "\<exists>k s'. recover_expired_leases budget_service_impl now s = Inr (k, s')"
proof -
  from assms have parts: "keys_ok s" "sound_projects (projects s)" "wf_requests (requests s)" "linked s"
    by (simp_all add: gateway_ok_def)
  have "\<exists>s'. fold_result (release_row budget_service_impl) (released_rows now (requests s))
      (s\<lparr>requests := recovered_rows now (requests s)\<rparr>) = Inr s'"
  proof (rule release_rows_total)
    fix q assume "q \<in> set (released_rows now (requests s))"
    then obtain r where r: "r \<in> set (requests s)" "rq_project_id q = rq_project_id r"
      "rq_reserved_tokens q = rq_reserved_tokens r" by (blast dest: released_rows_from)
    from wf_requestsD [OF parts(3) r(1)] have "0 \<le> rq_reserved_tokens r" by (simp add: wf_request_def)
    with r parts(4) show "rq_project_id q \<in> pj_id ` set (projects (s\<lparr>requests := recovered_rows now (requests s)\<rparr>))
        \<and> 0 \<le> rq_reserved_tokens q"
      by (simp add: linked_def)
  qed (use parts(1,2) in \<open>simp_all add: keys_ok_def\<close>)
  then show ?thesis by (auto simp: recover_Inr)
qed

section \<open>Recovery after every deadline\<close>

lemma recovered_terminal:
  assumes "wf_requests rows" and "\<And>r. r \<in> set rows \<Longrightarrow> rq_expires_at r < now \<and> pred_option (\<lambda>l. l < now) (rq_lease_expires r)"
    and "q \<in> set (recovered_rows now rows)"
  shows "terminal (rq_status q)"
proof -
  obtain r where r: "r \<in> set rows" and q: "q = (let r1 = if lease_expired now r \<and> retry_left r then requeue_row r else r;
      r2 = if lease_expired now r1 \<and> \<not> retry_left r1 then exhaust_row r1 else r1
    in if queue_expired now r2 then expire_row r2 else r2)"
    using assms(3) by (auto simp: recovered_rows_def update_where_def Let_def)
  note wf = wf_requestsD [OF assms(1) r] and late = assms(2) [OF r]
  show ?thesis
  proof (cases "rq_status r")
    case QUEUED
    with wf late show ?thesis
      by (simp add: q Let_def lease_expired_def in_flight_def queue_expired_def expire_row_def wf_request_def)
  next
    case ASSIGNED
    with wf late show ?thesis
      by (cases "retry_left r") (auto simp: q Let_def lease_expired_def in_flight_def queue_expired_def
          requeue_row_def exhaust_row_def expire_row_def wf_request_def)
  qed (use wf in \<open>auto simp: q Let_def lease_expired_def in_flight_def queue_expired_def wf_request_def\<close>)
qed

text \<open>With every row ended, what is posted is what the completed rows used.\<close>

lemma posted_terminal:
  assumes "\<And>r. r \<in> set rows \<Longrightarrow> terminal (rq_status r)"
  shows "posted pick pid d (postings rows) =
    sum_list (map charge (filter (\<lambda>r. rq_project_id r = pid \<and> pick (rq_budget_day r, rq_budget_month r) = d) (done_rows rows)))"
  using assms
proof (induction rows)
  case (Cons r rows)
  then have "terminal (rq_status r)" by simp
  then have "rq_status r = COMPLETED \<or> charge r = 0"
    by (auto simp: charge_def terminal_def split: request_status.splits)
  with Cons show ?case by (auto simp: postings_def posting_of_def done_rows_def)
qed (simp add: postings_def done_rows_def)

lemma maintenance_terminal:
  assumes ok: "gateway_ok t s" and impl: "app_budget_service app = budget_service_impl"
    and late: "\<And>r. r \<in> set (requests s) \<Longrightarrow> rq_expires_at r < now \<and> pred_option (\<lambda>l. l < now) (rq_lease_expires r)"
    and cycle: "maintenance_cycle app now t_health s = (Inr u, s')"
  shows "\<forall>r\<in>set (requests s'). terminal (rq_status r)" and "map rq_id (requests s') = map rq_id (requests s)"
    and "gateway_ok t s'"
proof -
  from cycle obtain k s1 where rec: "recover_expired_leases budget_service_impl now s = Inr (k, s1)"
    and s': "s' = snd (mark_stale_workers_offline (app_worker_health app) t_health s1)"
    by (auto simp: maintenance_cycle_Inr impl)
  have rows: "requests s' = recovered_rows now (requests s)"
    using budget.recover_requests [OF rec] by (simp add: s' mark_stale_workers_offline_def Let_def)
  show "\<forall>r\<in>set (requests s'). terminal (rq_status r)"
    using recovered_terminal [OF _ late] ok by (auto simp: rows gateway_ok_def)
  show "map rq_id (requests s') = map rq_id (requests s)"
    unfolding rows recovered_rows_def
    by (simp add: map_update_where requeue_row_def exhaust_row_def expire_row_def)
  from maintenance_steps [OF cycle impl] ok show "gateway_ok t s'"
    by (induction rule: rtranclp_induct) (auto intro: gateway_ok_db_step quiet)
qed

section \<open>A running application\<close>

definition sample_services :: "((string \<Rightarrow> int) \<times> (string \<Rightarrow> bool)) services" where
  "sample_services = app_state.extend (sample_app sample_codec)
     (services.fields 90 \<lparr>cb_threshold = 5, cb_cooldown = 30\<rparr>)"

lemma sample_services [simp]:
  "base sample_services = sample_app sample_codec" "app_worker_health sample_services = 90"
  "app_budget_service sample_services = budget_service_impl"
  by (simp_all add: sample_services_def app_state.truncate_def app_state.extend_def services.fields_def
      app_state.defs sample_app_def)

lemma sample_admin: "with_admin (sample_app codec) (Some ''Bearer admin-token'') handler s = session_scope handler s"
proof -
  have "bearer_token (Some ''Bearer admin-token'') = Some ''admin-token''" by code_simp
  moreover have "app_admin_verifier (sample_app codec) ''admin-token'' = Inr True"
    by (simp add: sample_app_def verify_admin_def default_settings_def verify_guarded_def plain_hasher_def peppered_def)
  ultimately have "require_admin (sample_app codec) (Some ''Bearer admin-token'') = Inr ()"
    by (simp add: require_admin_def)
  then show ?thesis by (simp add: with_admin_def)
qed

text \<open>The sample database with one request under way is a consistent state.\<close>

lemma sample_gateway_ok: "gateway_ok 0 (sample_db [assigned_request i 3 lease])"
proof -
  have "posting_of (assigned_request i 3 lease) = (5, (utc_date 0, utc_month 0), 70)"
    by (simp add: posting_of_def charge_def assigned_request_def sample_request_def)
  then have ledger: "ledger 0 (sample_db [assigned_request i 3 lease])"
    by (simp add: ledger_def daily.balanced_def monthly.balanced_def daily.current_up_to_def
        monthly.current_up_to_def sample_db_def postings_def sample_project_def)
  have "keys_ok (sample_db [assigned_request i 3 lease])"
    using sample_db_ok by (simp add: keys_ok_def sample_db_def idempotency_unique_def assigned_request_def sample_request_def)
  with ledger show ?thesis
    by (simp add: gateway_ok_def sound_projects_def wf_project_def fits_int8_def wf_requests_def wf_request_def
        linked_def billed_def done_rows_def totals_def rows_of_key_def sample_db_def sample_project_def
        sample_key_def assigned_request_def sample_request_def empty_db_def)
qed

lemmas sample_state_ok = sample_gateway_ok [of 1 100]

lemma recovery_cycle:
  assumes "gateway_ok t s" and "app_budget_service app = budget_service_impl"
  shows "\<exists>s'. maintenance_cycle app now t_health s = (Inr (), s')"
  using recovery_total [OF assms(1), of now] assms(2) by (auto simp: maintenance_cycle_Inr)

lemma sample_maintained:
  "\<exists>s' q. gateway_step sample_services (0, sample_db [assigned_request 1 3 100], r) (1, s', r)
     \<and> requests s' = [q] \<and> rq_id q = 1 \<and> terminal (rq_status q)"
proof -
  let ?s = "sample_db [assigned_request 1 3 100]"
  obtain s' where cycle: "maintenance_cycle sample_services 400000000 0 ?s = (Inr (), s')"
    using recovery_cycle [OF sample_state_ok, of sample_services] by auto
  have row: "requests ?s = [assigned_request 1 3 100]" by (simp add: sample_db_def)
  have late: "rq_expires_at q < 400000000 \<and> pred_option (\<lambda>l. l < 400000000) (rq_lease_expires q)"
    if "q \<in> set (requests ?s)" for q
    using that unfolding row by (simp add: assigned_request_def sample_request_def)
  note after = maintenance_terminal(1,2) [OF sample_state_ok sample_services(3) late cycle]
  have "map rq_id (requests s') = [1]"
    using after(2) unfolding row by (simp add: assigned_request_def sample_request_def)
  then obtain q where q: "requests s' = [q]" "rq_id q = 1" by auto
  with after(1) have "terminal (rq_status q)" by simp
  moreover have "gateway_step sample_services (0, ?s, r) (1, s', r)" using cycle by (rule maintain) simp
  ultimately show ?thesis using q by blast
qed

section \<open>Properties\<close>

text \<open>C3. Liveness of the maintenance loop: in every state that the gateway reaches from a
  consistent one a cycle succeeds, whatever the time. When it runs after the expiry and the lease of
  every request, it ends every request that was still open, loses none, and afterwards the counters of
  every project are exactly what its completed requests of the current periods used: no reservation
  stays held.\<close>

theorem maintenance_ends_everything:
  assumes "gateway_runs app (t0, s0, r0) (t, s, r)" and "gateway_ok t0 s0"
    and impl: "app_budget_service app = budget_service_impl"
  shows "\<exists>s'. maintenance_cycle app now t_health s = (Inr (), s')
    \<and> map rq_id (requests s') = map rq_id (requests s)
    \<and> ((\<forall>r\<in>set (requests s). rq_expires_at r < now \<and> pred_option (\<lambda>l. l < now) (rq_lease_expires r)) \<longrightarrow>
       (\<forall>r\<in>set (requests s'). terminal (rq_status r))
       \<and> (\<forall>p\<in>set (projects s').
            pj_daily_tokens_used p = sum_list (map charge (filter (\<lambda>r. rq_project_id r = pj_id p
              \<and> rq_budget_day r = pj_daily_usage_date p) (done_rows (requests s'))))
            \<and> pj_monthly_tokens_used p = sum_list (map charge (filter (\<lambda>r. rq_project_id r = pj_id p
              \<and> rq_budget_month r = pj_monthly_usage_month p) (done_rows (requests s'))))))"
proof -
  have ok: "gateway_ok t s" using assms(1) impl assms(2) by (rule gateway_ok_runs)
  obtain k s1 where rec: "recover_expired_leases budget_service_impl now s = Inr (k, s1)"
    using recovery_total [OF ok] by blast
  then obtain s' where cycle: "maintenance_cycle app now t_health s = (Inr (), s')"
    using maintenance_cycle_Inr [of app now t_health s "()"] impl by metis
  have ids: "map rq_id (requests s') = map rq_id (requests s)"
    using cycle maintenance_cycle_Inr [of app now t_health s "()" s'] impl
    by (auto simp: mark_stale_workers_offline_def Let_def recovered_rows_def map_update_where requeue_row_def
        exhaust_row_def expire_row_def dest!: budget.recover_requests)
  have drained: "(\<forall>r\<in>set (requests s'). terminal (rq_status r)) \<and> (\<forall>p\<in>set (projects s').
        pj_daily_tokens_used p = sum_list (map charge (filter (\<lambda>r. rq_project_id r = pj_id p
          \<and> rq_budget_day r = pj_daily_usage_date p) (done_rows (requests s'))))
        \<and> pj_monthly_tokens_used p = sum_list (map charge (filter (\<lambda>r. rq_project_id r = pj_id p
          \<and> rq_budget_month r = pj_monthly_usage_month p) (done_rows (requests s')))))"
    if late: "\<forall>r\<in>set (requests s). rq_expires_at r < now \<and> pred_option (\<lambda>l. l < now) (rq_lease_expires r)"
  proof -
    have ended: "\<forall>r\<in>set (requests s'). terminal (rq_status r)" and ok': "gateway_ok t s'"
      using maintenance_terminal(1,3) [OF ok impl _ cycle] late by blast+
    have "daily.balanced (projects s') (postings (requests s'))" "monthly.balanced (projects s') (postings (requests s'))"
      using ok' by (simp_all add: gateway_ok_def ledger_def)
    with ended show ?thesis
      by (simp add: daily.balanced_def monthly.balanced_def posted_terminal)
  qed
  show ?thesis using cycle ids drained by blast
qed

theorem maintenance_ends_everything_witness:
  "\<exists>s' q. maintenance_cycle sample_services 400000000 0 (sample_db [assigned_request 1 3 100]) = (Inr (), s')
     \<and> requests s' = [q] \<and> rq_id q = 1 \<and> terminal (rq_status q)"
proof -
  let ?s = "sample_db [assigned_request 1 3 100]"
  have idle: "gateway_runs sample_services (0, ?s, sample_redis) (0, ?s, sample_redis)" by simp
  have row: "requests ?s = [assigned_request 1 3 100]" by (simp add: sample_db_def)
  have late: "\<forall>r\<in>set (requests ?s). rq_expires_at r < 400000000 \<and> pred_option (\<lambda>l. l < 400000000) (rq_lease_expires r)"
    unfolding row by (simp add: assigned_request_def sample_request_def)
  obtain s' where s': "maintenance_cycle sample_services 400000000 0 ?s = (Inr (), s')"
    "map rq_id (requests s') = map rq_id (requests ?s)" "\<forall>r\<in>set (requests s'). terminal (rq_status r)"
    using maintenance_ends_everything [OF idle sample_state_ok, where now = 400000000 and t_health = 0] late by auto
  from s'(2) have "map rq_id (requests s') = [1]"
    unfolding row by (simp add: assigned_request_def sample_request_def)
  then obtain q where "requests s' = [q]" "rq_id q = 1" by auto
  with s'(1,3) show ?thesis by auto
qed

end
