(* ===== verification/Gateway_Safety.thy ===== *)
theory Gateway_Safety
  imports Gateway_Board Gateway_Liveness
begin

text \<open>
  What stays true whatever the gateway does next: consistency of the database, the refinement of
  the board, ended requests, and revocations.
\<close>

section \<open>Revoked keys and workers\<close>

definition key_retired :: "uuid \<Rightarrow> db \<Rightarrow> bool" where
  "key_retired i s \<longleftrightarrow> i \<in> ak_id ` set (api_keys s)
     \<and> (\<forall>k\<in>set (api_keys s). ak_id k = i \<longrightarrow> ak_revoked_at k \<noteq> None)"

definition worker_retired :: "uuid \<Rightarrow> db \<Rightarrow> bool" where
  "worker_retired i s \<longleftrightarrow> i \<in> wk_id ` set (workers s)
     \<and> (\<forall>w\<in>set (workers s). wk_id w = i \<longrightarrow> wk_revoked_at w \<noteq> None)"

lemma id_kept_by_update:
  assumes "x \<in> set xs" and "k x = i" and "\<And>y. k y = i \<Longrightarrow> k (f y) = i"
  shows "i \<in> k ` set (update_where (\<lambda>y. k y = i) f xs)"
proof -
  have "f x \<in> set (update_where (\<lambda>y. k y = i) f xs)"
    unfolding set_update_where using assms(1,2) by (intro image_eqI [where x = x]) simp_all
  with assms(3) [OF assms(2)] show ?thesis by blast
qed

lemma retired_by_update:
  "(\<And>y. revoked (f y) \<noteq> None) \<Longrightarrow>
   \<forall>y\<in>set (update_where (\<lambda>y. k y = i) f xs). k y = i \<longrightarrow> revoked y \<noteq> None"
  by (auto simp: set_update_where)

lemma key_retired_update:
  assumes "key_retired i s" and "api_keys s' = update_where P f (api_keys s)"
    and "\<And>k. k \<in> set (api_keys s) \<Longrightarrow> P k \<Longrightarrow> ak_id (f k) = ak_id k \<and> (ak_revoked_at k \<noteq> None \<longrightarrow> ak_revoked_at (f k) \<noteq> None)"
  shows "key_retired i s'"
proof -
  have "map ak_id (api_keys s') = map ak_id (api_keys s)"
    unfolding assms(2) using assms(3) by (intro map_update_where) simp
  then have "ak_id ` set (api_keys s') = ak_id ` set (api_keys s)" by (rule image_from_map)
  moreover have "ak_revoked_at q \<noteq> None" if q: "q \<in> set (api_keys s')" "ak_id q = i" for q
  proof -
    obtain k where "k \<in> set (api_keys s)" "q = (if P k then f k else k)"
      using q(1) update_where_in [of q P f "api_keys s"] unfolding assms(2) by blast
    with assms(1,3) q(2) show ?thesis unfolding key_retired_def by (cases "P k") auto
  qed
  ultimately show ?thesis using assms(1) unfolding key_retired_def by blast
qed

lemma key_retired_keys: "api_keys s' = api_keys s \<Longrightarrow> key_retired i s' \<longleftrightarrow> key_retired i s"
  by (simp add: key_retired_def)

lemma key_retired_replace:
  assumes "key_retired i s" and "keys_ok s" and "k \<in> set (api_keys s)" and "ak_id k' = ak_id k"
    and "ak_revoked_at k \<noteq> None \<longrightarrow> ak_revoked_at k' \<noteq> None"
  shows "key_retired i (replace_key k' s)"
proof (rule key_retired_update [OF assms(1)])
  show "api_keys (replace_key k' s) = update_where (\<lambda>q. ak_id q = ak_id k') (\<lambda>_. k') (api_keys s)"
    by (simp add: replace_key_def)
  fix q assume "q \<in> set (api_keys s)" "ak_id q = ak_id k'"
  with assms(2-4) have "q = k" by (auto simp: keys_ok_def dest: distinct_key_eq)
  with assms(4,5) show "ak_id k' = ak_id q \<and> (ak_revoked_at q \<noteq> None \<longrightarrow> ak_revoked_at k' \<noteq> None)" by simp
qed

lemma key_retired_db_step: "db_step s s' \<Longrightarrow> gateway_ok t s \<Longrightarrow> key_retired i s \<Longrightarrow> key_retired i s'"
proof (induction rule: db_step_induct)
  case (count_key k s now)
  then show ?case by (intro key_retired_replace) (auto simp: gateway_ok_def counted_def)
next
  case (add_key k s s')
  then show ?case by (auto simp: insert_key_Inr key_retired_def)
next
  case (retire_key now j s u s')
  then obtain k where k: "filter (\<lambda>k. ak_id k = j) (api_keys s) = [k]"
    and s': "s' = (if ak_revoked_at k = None then replace_key (k\<lparr>ak_revoked_at := Some now\<rparr>) s else s)"
    unfolding revoke_api_key_Inr by blast
  have "key_retired i (replace_key (k\<lparr>ak_revoked_at := Some now\<rparr>) s)"
    using retire_key.prems filter_eq_singletonD(1) [OF k]
    by (intro key_retired_replace) (auto simp: gateway_ok_def)
  with retire_key.prems show ?case by (simp add: s' split: if_split)
next
  case (queue s s')
  then consider "quiet s s'" | "one_more s s'" using queue_step_accounts by (auto simp: gateway_ok_def)
  then show ?case
  proof cases
    case 1
    with queue.prems show ?thesis by (simp add: quiet_def key_retired_def)
  next
    case 2
    then obtain row where "api_keys s' = update_where (\<lambda>k. ak_id k = rq_api_key_id row)
         (\<lambda>k. k\<lparr>ak_total_requests := ak_total_requests k + 1, ak_total_tokens := ak_total_tokens k + charge row\<rparr>)
         (api_keys s)" unfolding one_more_def by blast
    then show ?thesis by (rule key_retired_update [OF queue.prems(2)]) simp
  qed
qed (auto simp: create_project_Inr insert_project_Inr create_model_alias_Inr insert_alias_Inr insert_worker_def
    insert_enrollment_Inr consume_token_def key_retired_def split: if_splits)

lemma admit_step_frame:
  assumes "admit_step t t' s s'"
  shows "api_keys s' = api_keys s" and "workers s' = workers s" and "\<exists>row. requests s' = requests s @ [row]"
    and "enrollment_tokens s' = enrollment_tokens s"
proof -
  from assms obtain t_reserve t_expires rid created_at p header k i al project d m s1
    where res: "reserve t_reserve (ak_project_id k) (reserved_tokens p) s = Inr ((project, d, m), s1)"
      and ins: "insert_request (queued_request rid created_at header project k al p
          (t_expires + seconds 300) d m) s1 = Inr s'"
    by (auto simp: admit_step.simps create_chat_Inr enqueue_Inr)
  obtain ps where "s1 = s\<lparr>projects := ps\<rparr>" using reserve_frame(1) [OF res] by blast
  with ins show "api_keys s' = api_keys s" "workers s' = workers s" "\<exists>row. requests s' = requests s @ [row]"
      "enrollment_tokens s' = enrollment_tokens s"
    by (auto simp: insert_request_Inr)
qed

lemma worker_retired_db_step: "db_step s s' \<Longrightarrow> worker_retired i s \<Longrightarrow> worker_retired i s'"
proof (induction rule: db_step_induct)
  case (queue s s')
  then show ?case using same_frameD(4) [OF queue_step_frame] by (auto simp: worker_retired_def)
next
  case (add_worker w s s')
  then show ?case by (auto simp: worker_retired_def insert_worker_def insert_enrollment_Inr consume_token_def split: if_splits)
next
  case (update_workers f s P)
  then have "map wk_id (update_where P f (workers s)) = map wk_id (workers s)"
    by (intro map_update_where) simp
  then have "wk_id ` set (update_where P f (workers s)) = wk_id ` set (workers s)" by (rule image_from_map)
  moreover have "wk_revoked_at q \<noteq> None" if q: "q \<in> set (update_where P f (workers s))" "wk_id q = i" for q
  proof -
    obtain w where "w \<in> set (workers s)" "q = (if P w then f w else w)"
      using update_where_in [OF q(1)] by blast
    with update_workers q(2) show ?thesis unfolding worker_retired_def by (cases "P w") auto
  qed
  ultimately show ?case using update_workers.prems by (simp add: worker_retired_def)
qed (auto simp: replace_key_def insert_key_Inr revoke_api_key_Inr create_project_Inr insert_project_Inr
    create_model_alias_Inr insert_alias_Inr insert_enrollment_Inr consume_token_def worker_retired_def split: if_splits)

lemma key_retired_admit: "admit_step t t' s s' \<Longrightarrow> key_retired i s \<Longrightarrow> key_retired i s'"
  by (simp add: key_retired_def admit_step_frame(1))

lemma worker_retired_admit: "admit_step t t' s s' \<Longrightarrow> worker_retired i s \<Longrightarrow> worker_retired i s'"
  by (simp add: worker_retired_def admit_step_frame(2))

section \<open>Ended requests\<close>

lemma ended_row_db_step:
  assumes "db_step s s'" and "wf_requests (requests s)" and "q \<in> set (requests s)" and "terminal (rq_status q)"
  shows "q \<in> set (requests s')"
  using assms
proof (induction rule: db_step_induct)
  case (queue s s')
  then show ?case by (blast intro: queue_step_terminal)
qed (auto simp: replace_key_def insert_key_Inr revoke_api_key_Inr create_project_Inr insert_project_Inr
    create_model_alias_Inr insert_alias_Inr insert_worker_def insert_enrollment_Inr consume_token_def split: if_splits)

text \<open>Along a run, together with the invariant.\<close>

lemma gateway_runs_preserve_ok:
  assumes "gateway_runs app (t, s, r) (t', s', r')" and "app_budget_service app = budget_service_impl"
    and "gateway_ok t s" and "Q s"
    and "\<And>t s s'. db_step s s' \<Longrightarrow> gateway_ok t s \<Longrightarrow> Q s \<Longrightarrow> Q s'"
    and "\<And>t t' s s'. admit_step t t' s s' \<Longrightarrow> Q s \<Longrightarrow> Q s'"
  shows "Q s'"
proof -
  have "gateway_ok t' s' \<and> Q s'"
    by (rule gateway_runs_preserve [OF assms(1,2), where P = "\<lambda>t s. gateway_ok t s \<and> Q s"])
      (use assms(3-6) in \<open>auto intro: gateway_ok_db_step gateway_ok_admit gateway_ok_later\<close>)
  then show ?thesis ..
qed

lemma ended_row_runs:
  assumes "gateway_runs app (t, s, r) (t', s', r')" and "app_budget_service app = budget_service_impl"
    and "gateway_ok t s" and "q \<in> set (requests s)" and "terminal (rq_status q)"
  shows "filter (\<lambda>x. rq_id x = rq_id q) (requests s') = [q]"
proof -
  have "q \<in> set (requests s')"
    using assms(1-4)
  proof (rule gateway_runs_preserve_ok)
    fix t s s' assume "db_step s s'" "gateway_ok t s" "q \<in> set (requests s)"
    then show "q \<in> set (requests s')" using ended_row_db_step assms(5) unfolding gateway_ok_def by blast
  next
    fix t t' s s' assume "admit_step t t' s s'" "q \<in> set (requests s)"
    then show "q \<in> set (requests s')" using admit_step_frame(3) by fastforce
  qed
  moreover have "distinct (map rq_id (requests s'))"
    using gateway_ok_runs [OF assms(1-3)] by (simp add: gateway_ok_def wf_requests_def)
  ultimately show ?thesis by (intro filter_key_unique)
qed

section \<open>Properties\<close>

text \<open>C1. Consistency of every reachable state: from an empty database, whatever requests,
  credentials, random values, clocks and interleavings come, the keys are unique and the foreign keys
  hold, every row of the queue is well formed, the counters of every project are its open
  reservations and used tokens of the current periods, and the usage records and the totals of the
  keys are those of the completed requests.\<close>

theorem reachable_states_consistent:
  assumes "gateway_runs app (t0, empty_db, r0) (t, s, r)" and "app_budget_service app = budget_service_impl"
  shows "gateway_ok t s"
  by (rule gateway_ok_runs [OF assms gateway_ok_empty])

definition sample_project_request :: project_create_request where
  "sample_project_request = \<lparr>pc_name = ''demo'', pc_slug = ''demo'', pc_owner_id = 9,
     pc_daily_token_limit = 100, pc_monthly_token_limit = 1000\<rparr>"

theorem reachable_states_consistent_witness:
  "\<exists>s. gateway_runs sample_services (0, empty_db, sample_redis) (1, s, sample_redis)
     \<and> map pj_slug (projects s) = [''demo''] \<and> gateway_ok 1 s"
proof -
  let ?p = "new_project 5 0 (utc_date 0) sample_project_request"
  let ?s = "empty_db\<lparr>projects := [?p]\<rparr>"
  have "create_project 5 0 (utc_date 0) sample_project_request empty_db =
      Inr (\<lparr>pr_id = 5, pr_name = ''demo'', pr_slug = ''demo''\<rparr>, ?s)"
    by (simp add: create_project_Inr insert_project_Inr empty_db_def new_project_def sample_project_request_def fits_int8_def)
  then have "with_admin (base sample_services) (Some ''Bearer admin-token'')
      (create_project 5 0 (utc_date 0) sample_project_request) empty_db =
      (Inr \<lparr>pr_id = 5, pr_name = ''demo'', pr_slug = ''demo''\<rparr>, ?s)"
    by (simp add: sample_admin session_scope_commit)
  then have "gateway_step sample_services (0, empty_db, sample_redis) (1, ?s, sample_redis)"
    by (rule gateway_step.new_project) simp
  then have run: "gateway_runs sample_services (0, empty_db, sample_redis) (1, ?s, sample_redis)"
    by (rule r_into_rtranclp)
  have "map pj_slug (projects ?s) = [''demo'']" by (simp add: new_project_def sample_project_request_def)
  with run reachable_states_consistent [OF run] show ?thesis by auto
qed

text \<open>C2. Refinement: on a consistent database every run of the gateway is a run of the board, on
  which requests are posted once, taken and handed back, and end answered or failed.\<close>

theorem gateway_refines_board:
  assumes "gateway_runs app (t, s, r) (t', s', r')" and "app_budget_service app = budget_service_impl"
    and "gateway_ok t s"
  shows "board_steps (board_of (requests s)) (board_of (requests s'))"
  using assms
  by (rule gateway_runs_preserve_ok)
    (auto simp: gateway_ok_def intro: rtranclp_trans db_step_board admit_step_board)

theorem gateway_refines_board_witness:
  "\<exists>s' :: db. board_steps (board_of (requests (sample_db [assigned_request 1 3 100]))) (board_of (requests s'))
     \<and> board_of (requests (sample_db [assigned_request 1 3 100])) 1 = Some (Held 3) \<and> pred_option ended (board_of (requests s') 1)
     \<and> board_of (requests s') 1 \<noteq> None"
proof -
  let ?s = "sample_db [assigned_request 1 3 100]"
  obtain s' q where step: "gateway_step sample_services (0, ?s, sample_redis) (1, s', sample_redis)"
    and q: "requests s' = [q]" "rq_id q = 1" "terminal (rq_status q)"
    using sample_maintained by blast
  have "board_steps (board_of (requests ?s)) (board_of (requests s'))"
    by (rule gateway_refines_board [OF gateway_run_step [OF step] _ sample_state_ok]) simp
  moreover have "board_of (requests ?s) 1 = Some (Held 3)"
    by (simp add: sample_db_def assigned_request_def sample_request_def phase_of_def)
  moreover have "ended (phase_of q)" using q(3) by (cases "rq_status q") (auto simp: phase_of_def ended_def)
  then have "pred_option ended (board_of (requests s') 1)" "board_of (requests s') 1 \<noteq> None" using q by simp_all
  ultimately show ?thesis by (intro exI [of _ s'] conjI)
qed

text \<open>C8. Ended requests never change: the row of a completed, failed or expired request is in every
  later state of the gateway exactly as it was, result, token counts and charge included, and under
  its identifier there is no other row.\<close>

theorem ended_requests_never_change:
  assumes "gateway_runs app (t, s, r) (t', s', r')" and "app_budget_service app = budget_service_impl"
    and "gateway_ok t s" and "q \<in> set (requests s)" and "terminal (rq_status q)"
  shows "filter (\<lambda>x. rq_id x = rq_id q) (requests s') = [q]"
  using assms by (rule ended_row_runs)

theorem ended_requests_never_change_witness:
  "\<exists>s1 s2 q. gateway_step sample_services (1, s1, sample_redis) (2, s2, sample_redis)
     \<and> requests s1 = [q] \<and> filter (\<lambda>x. rq_id x = 1) (requests s2) = [q]"
proof -
  let ?s = "sample_db [assigned_request 1 3 100]"
  obtain s1 q where step: "gateway_step sample_services (0, ?s, sample_redis) (1, s1, sample_redis)"
    and q: "requests s1 = [q]" "rq_id q = 1" "terminal (rq_status q)"
    using sample_maintained by blast
  have ok: "gateway_ok 1 s1"
    by (rule gateway_ok_runs [OF gateway_run_step [OF step] _ sample_state_ok]) simp
  obtain s2 where "maintenance_cycle sample_services 500000000 0 s1 = (Inr (), s2)"
    using recovery_cycle [OF ok, of sample_services] by auto
  then have step2: "gateway_step sample_services (1, s1, sample_redis) (2, s2, sample_redis)"
    by (rule maintain) simp
  have "filter (\<lambda>x. rq_id x = rq_id q) (requests s2) = [q]"
    by (rule ended_requests_never_change [OF gateway_run_step [OF step2] _ ok]) (simp_all add: q)
  with step2 q show ?thesis by auto
qed

text \<open>C17. Revocation of a key is final: after an administrator has revoked it, in no later state of
  the gateway does any header authenticate as that key, at any time.\<close>

theorem revoked_key_never_returns:
  assumes "with_admin (base app) authorization (revoke_api_key now i) s = (Inr u, s1)"
    and "gateway_ok t s" and "gateway_runs app (t, s1, r) (t', s', r')"
    and "app_budget_service app = budget_service_impl"
  shows "\<not> (\<exists>k s''. fst (require_api_key (base app) t_active clock t_rate header s' redis) = Inr (k, s'') \<and> ak_id k = i)"
proof
  assume "\<exists>k s''. fst (require_api_key (base app) t_active clock t_rate header s' redis) = Inr (k, s'') \<and> ak_id k = i"
  then obtain k s'' where accepted: "fst (require_api_key (base app) t_active clock t_rate header s' redis) = Inr (k, s'')"
    and i: "ak_id k = i" by blast
  from assms(1) have revoked: "revoke_api_key now i s = Inr (u, s1)" by (simp add: with_admin_Inr)
  then obtain k0 where k0: "filter (\<lambda>k. ak_id k = i) (api_keys s) = [k0]"
    and s1: "s1 = (if ak_revoked_at k0 = None then replace_key (k0\<lparr>ak_revoked_at := Some now\<rparr>) s else s)"
    unfolding revoke_api_key_Inr by blast
  have "key_retired i s1"
  proof (cases "ak_revoked_at k0 = None")
    case True
    have keys: "api_keys s1 = update_where (\<lambda>q. ak_id q = i) (\<lambda>_. k0\<lparr>ak_revoked_at := Some now\<rparr>) (api_keys s)"
      using True filter_eq_singletonD(2) [OF k0] by (simp add: s1 replace_key_def)
    show ?thesis
      unfolding key_retired_def keys
      by (intro conjI retired_by_update id_kept_by_update [where k = ak_id, OF filter_eq_singletonD [OF k0]])
        (use filter_eq_singletonD(2) [OF k0] in simp_all)
  next
    case False
    have "ak_revoked_at q \<noteq> None" if q: "q \<in> set (api_keys s)" "ak_id q = i" for q
    proof -
      from q have "q \<in> set (filter (\<lambda>k. ak_id k = i) (api_keys s))" by simp
      then have "q = k0" by (simp only: k0 list.set insert_iff empty_iff simp_thms)
      with False show ?thesis by blast
    qed
    moreover have "s1 = s" using False by (simp only: s1 if_False)
    ultimately show ?thesis using filter_eq_singletonD [OF k0] unfolding key_retired_def by blast
  qed
  then have "key_retired i s'"
    by (rule gateway_runs_preserve_ok [where Q = "key_retired i", OF assms(3,4) gateway_ok_retire_key [OF revoked assms(2)]
          _ key_retired_db_step key_retired_admit])
  moreover from accepted obtain key_id k1 where found: "select_key key_id s' = Inr (Some k1)"
    and k: "k = counted clock k1" and active: "is_record_active t_active (ak_expires_at k1) (ak_revoked_at k1)"
    by (auto simp only: require_api_key_Inr)
  moreover have "ak_id k1 = i" using i by (simp add: k counted_def)
  ultimately have "ak_revoked_at k1 \<noteq> None" using select_key_Some(1) [OF found] by (simp add: key_retired_def)
  with active show False by (simp add: is_record_active_def)
qed

theorem revoked_key_never_returns_witness:
  "\<exists>s1 s'. gateway_step sample_services (0, s1, sample_redis) (1, s', sample_redis)
     \<and> map ak_revoked_at (api_keys s1) = [Some 7]
     \<and> \<not> (\<exists>k s''. fst (require_api_key (sample_app sample_codec) 9 9 9 (Some ''Bearer t'') s' sample_redis) =
            Inr (k, s'') \<and> ak_id k = 2)"
proof -
  let ?s = "sample_db [assigned_request 1 3 100]"
  let ?s1 = "?s\<lparr>api_keys := [sample_key\<lparr>ak_revoked_at := Some 7\<rparr>]\<rparr>"
  have "revoke_api_key 7 2 ?s = Inr ((), ?s1)"
    by (simp add: revoke_api_key_Inr replace_key_def update_where_def sample_db_def sample_key_def)
  then have revoked: "with_admin (base sample_services) (Some ''Bearer admin-token'') (revoke_api_key 7 2) ?s =
      (Inr (), ?s1)"
    by (simp add: sample_admin session_scope_commit)
  have ok: "gateway_ok 0 ?s1"
    by (rule gateway_ok_db_step [OF _ sample_state_ok]) (rule quiet, rule retire_key, fact)
  obtain s' where "maintenance_cycle sample_services 500000000 0 ?s1 = (Inr (), s')"
    using recovery_cycle [OF ok, of sample_services] by auto
  then have step: "gateway_step sample_services (0, ?s1, sample_redis) (1, s', sample_redis)"
    by (rule maintain) simp
  have "\<not> (\<exists>k s''. fst (require_api_key (base sample_services) 9 9 9 (Some ''Bearer t'') s' sample_redis) =
      Inr (k, s'') \<and> ak_id k = 2)"
    by (rule revoked_key_never_returns [OF revoked sample_state_ok gateway_run_step [OF step]]) simp
  then show ?thesis
    using step unfolding sample_services(1) by (intro exI [of _ ?s1] exI [of _ s'] conjI) simp_all
qed

text \<open>C18. Revocation of a worker is final as well: no token authenticates as it in any later state,
  so it can neither pull requests nor commit results, and its enrollment cannot be reused for it.\<close>

theorem revoked_worker_never_returns:
  assumes "with_admin (base app) authorization (revoke_worker now i) s = (Inr u, s1)"
    and "gateway_ok t s" and "gateway_runs app (t, s1, r) (t', s', r')"
    and "app_budget_service app = budget_service_impl"
  shows "\<not> (\<exists>w claims. require_worker (base app) clock header s' = Inr (w, claims) \<and> wk_id w = i)"
proof
  assume "\<exists>w claims. require_worker (base app) clock header s' = Inr (w, claims) \<and> wk_id w = i"
  then obtain w claims where accepted: "require_worker (base app) clock header s' = Inr (w, claims)"
    and i: "wk_id w = i" by blast
  from assms(1) have revoked: "revoke_worker now i s = Inr (u, s1)" by (simp add: with_admin_Inr)
  then obtain w0 where w0: "filter (\<lambda>w. wk_id w = i) (workers s) = [w0]"
    and s1: "s1 = change_worker i (\<lambda>w. w\<lparr>
      wk_revoked_at := (case wk_revoked_at w of None \<Rightarrow> Some now | Some t \<Rightarrow> Some t),
      wk_status := SUSPENDED, wk_token_jti := None\<rparr>) s"
    by (auto simp: revoke_worker_Inr)
  have workers: "workers s1 = update_where (\<lambda>w. wk_id w = i) (\<lambda>w. w\<lparr>
      wk_revoked_at := (case wk_revoked_at w of None \<Rightarrow> Some now | Some t \<Rightarrow> Some t),
      wk_status := SUSPENDED, wk_token_jti := None\<rparr>) (workers s)"
    by (simp add: s1 change_worker_def)
  have retired: "worker_retired i s1"
    unfolding worker_retired_def workers
    by (intro conjI retired_by_update id_kept_by_update [where k = wk_id, OF filter_eq_singletonD [OF w0]])
      (simp_all split: option.split)
  have ok: "gateway_ok t s1" using assms(2) by (simp add: s1 change_worker_def gateway_ok_other_tables)
  have "worker_retired i s'"
    by (rule gateway_runs_preserve_ok [where Q = "worker_retired i", OF assms(3,4) ok retired
          worker_retired_db_step worker_retired_admit])
  moreover have "w \<in> set (workers s')" "wk_revoked_at w = None"
    using accepted by (auto simp: require_worker_Inr dest: filter_eq_singletonD(1))
  ultimately show False using i by (auto simp: worker_retired_def)
qed

theorem revoked_worker_never_returns_witness:
  "\<exists>s1 s'. gateway_step sample_services (0, s1, sample_redis) (1, s', sample_redis)
     \<and> map wk_revoked_at (workers s1) = [Some 7, None]
     \<and> \<not> (\<exists>w claims. require_worker (sample_app sample_codec) 0 (Some ''Bearer t'') s' = Inr (w, claims) \<and> wk_id w = 3)"
proof -
  let ?s = "sample_db [assigned_request 1 3 100]"
  let ?s1 = "?s\<lparr>workers := [(sample_worker 3)\<lparr>wk_revoked_at := Some 7, wk_status := SUSPENDED, wk_token_jti := None\<rparr>,
      sample_worker 4]\<rparr>"
  have "revoke_worker 7 3 ?s = Inr ((), ?s1)"
    by (simp add: revoke_worker_Inr change_worker_def update_where_def sample_db_def sample_worker_def)
  then have revoked: "with_admin (base sample_services) (Some ''Bearer admin-token'') (revoke_worker 7 3) ?s =
      (Inr (), ?s1)"
    by (simp add: sample_admin session_scope_commit)
  have ok: "gateway_ok 0 ?s1" by (rule gateway_ok_other_tables(1) [OF sample_state_ok])
  obtain s' where "maintenance_cycle sample_services 500000000 0 ?s1 = (Inr (), s')"
    using recovery_cycle [OF ok, of sample_services] by auto
  then have step: "gateway_step sample_services (0, ?s1, sample_redis) (1, s', sample_redis)"
    by (rule maintain) simp
  have "\<not> (\<exists>w claims. require_worker (base sample_services) 0 (Some ''Bearer t'') s' = Inr (w, claims) \<and> wk_id w = 3)"
    by (rule revoked_worker_never_returns [OF revoked sample_state_ok gateway_run_step [OF step]]) simp
  then show ?thesis
    using step unfolding sample_services(1)
    by (intro exI [of _ ?s1] exI [of _ s'] conjI) (simp_all add: sample_worker_def)
qed

end
