(* ===== verification/Gateway_Service.thy ===== *)
theory Gateway_Service
  imports Gateway_Safety
begin

text \<open>
  The service a client gets, across the endpoints: what becomes of a result that a worker submitted,
  from its commit to the answer and the bill.
\<close>

text \<open>An accepted submission is an accepted commit of the stored row.\<close>

lemma post_result_committed:
  assumes "post_result app t_auth authorization now uid rec p s = (Inr u, s1)"
    and impl: "app_budget_service app = budget_service_impl"
  shows "\<exists>row. row \<in> set (requests s) \<and> rq_id row = ws_request_id p
    \<and> complete_request now (ws_result p) (ws_input_tokens p) (ws_output_tokens p) row \<in> set (requests s1)"
proof -
  from assms obtain w where "commit_result budget_service_impl now uid rec (ws_request_id p) w
      (ws_result p) (ws_input_tokens p) (ws_output_tokens p) (ws_latency_ms p) s = Inr (True, s1)"
    by (auto simp: post_result_def with_worker_Inr submit_result_def bind_result_eq_Inr split: if_splits)
  note committed = this
  then obtain row where row: "filter (held_by (ws_request_id p) w) (requests s) = [row]"
    by (auto simp: commit_result_True)
  note held = filter_eq_singletonD [OF row]
  have "complete_request now (ws_result p) (ws_input_tokens p) (ws_output_tokens p) row \<in> set (requests s1)"
    unfolding budget.commit_requests [OF committed] set_update_where
    using held by (intro image_eqI [where x = row]) simp_all
  with held show ?thesis by (auto simp: held_by_def)
qed

text \<open>The bill of a completed request is the only one under its identifier.\<close>

lemma single_bill:
  assumes "billed s" and "filter (\<lambda>x. rq_id x = i) (requests s) = [q]" and "rq_status q = COMPLETED"
  shows "map bill_of_usage (filter (\<lambda>u. ur_request_id u = i) (usage_records s)) = [bill_of q]"
proof -
  have usage: "map bill_of_usage (filter (\<lambda>u. ur_request_id u = i) us) = filter (\<lambda>b. fst b = i) (map bill_of_usage us)"
    for us by (simp add: filter_map comp_def bill_of_usage_def)
  have rows: "filter (\<lambda>b. fst b = i) (map bill_of (done_rows rows)) = map bill_of (filter (\<lambda>r. rq_status r = COMPLETED)
      (filter (\<lambda>x. rq_id x = i) rows))" for rows
    by (simp add: filter_map comp_def bill_of_def done_rows_def conj_commute)
  have "mset (filter (\<lambda>b. fst b = i) (map bill_of_usage (usage_records s))) =
      mset (filter (\<lambda>b. fst b = i) (map bill_of (done_rows (requests s))))"
    using assms(1) by (simp add: billed_def)
  also have "\<dots> = {#bill_of q#}" unfolding rows assms(2) using assms(3) by simp
  finally show ?thesis unfolding usage by (simp only: mset_single_iff)
qed

text \<open>C4. A submitted result that is accepted is the answer, and the bill: in every later state of the
  gateway the request is completed with exactly this result, every client that polls it before its
  deadline and every repetition under its idempotency key get exactly this result, the project is charged what the
  worker reported, and there is one usage record for the request, with the project, the key and the token
  counts of the row.\<close>

theorem accepted_result_is_served:
  assumes "post_result (base app) t_auth authorization now uid rec p s = (Inr u, s1)"
    and "valid_worker_result_request p" and "gateway_ok t s"
    and impl: "app_budget_service app = budget_service_impl"
    and runs: "gateway_runs app (t, s1, r) (t', s', r')"
  shows "\<exists>q. filter (\<lambda>x. rq_id x = ws_request_id p) (requests s') = [q] \<and> rq_status q = COMPLETED
    \<and> replay q = ws_result p \<and> charge q = ws_input_tokens p + ws_output_tokens p
    \<and> map bill_of_usage (filter (\<lambda>u. ur_request_id u = ws_request_id p) (usage_records s')) = [bill_of q]
    \<and> (\<forall>started clock lookup n deadline.
        deadline = started + of_int (st_request_wait_timeout_seconds (app_settings (base app)))
        \<and> (\<forall>j<n. clock j < deadline \<and> poll (lookup j) = None) \<and> clock n < deadline \<and> lookup n = Some q \<longrightarrow>
        wait_for_result (app_settings (base app)) (ws_request_id p) started clock lookup = Some (Inr (ws_result p)))"
proof -
  obtain row where row: "rq_id row = ws_request_id p"
    and stored: "complete_request now (ws_result p) (ws_input_tokens p) (ws_output_tokens p) row \<in> set (requests s1)"
    using post_result_committed [OF assms(1)] impl by auto
  let ?q = "complete_request now (ws_result p) (ws_input_tokens p) (ws_output_tokens p) row"
  have q: "rq_id ?q = ws_request_id p" "rq_status ?q = COMPLETED" "rq_result ?q = Some (ws_result p)"
    "charge ?q = ws_input_tokens p + ws_output_tokens p"
    using row by (simp_all add: complete_request_def charge_def)
  have "gateway_step app (t, s, r) (t, s1, r)"
    using assms(1,2) by (rule gateway_step.result) simp
  then have ok1: "gateway_ok t s1" using impl assms(3) by (rule gateway_ok_runs [OF gateway_run_step])
  have ended: "terminal (rq_status ?q)" by (simp add: q(2))
  from ended_row_runs [OF runs impl ok1 stored ended]
  have found: "filter (\<lambda>x. rq_id x = ws_request_id p) (requests s') = [?q]" by (simp add: q(1))
  have "billed s'" using gateway_ok_runs [OF runs impl ok1] by (simp add: gateway_ok_def)
  from single_bill [OF this found q(2)]
  have bill: "map bill_of_usage (filter (\<lambda>u. ur_request_id u = ws_request_id p) (usage_records s')) = [bill_of ?q]" .
  have answer: "poll (Some ?q) = Some (Inr (ws_result p))" using q(2,3) by (simp add: poll_def)
  have wait: "wait_for_result (app_settings (base app)) (ws_request_id p) started clock lookup = Some (Inr (ws_result p))"
    if "deadline = started + of_int (st_request_wait_timeout_seconds (app_settings (base app)))"
      and "\<forall>j<n. clock j < deadline \<and> poll (lookup j) = None" and "clock n < deadline" and "lookup n = Some ?q"
    for started clock lookup n deadline
  proof -
    have "\<not> undecided deadline clock lookup n" "\<forall>j<n. undecided deadline clock lookup j"
      using that answer by (simp_all add: undecided_def)
    from wait_loop_stops [OF this(2,1)] show ?thesis
      using that answer by (simp add: wait_for_result_def)
  qed
  have "replay ?q = ws_result p" using q(2,3) by (simp add: replay_def)
  with found q(2,4) bill wait show ?thesis by (intro exI [of _ ?q]) blast
qed

theorem accepted_result_is_served_witness:
  "\<exists>s1 q.
     post_result (sample_app sample_codec) 9 (Some ''Bearer T'') 9 50 9
       \<lparr>ws_request_id = 6, ws_result = JObj [], ws_input_tokens = 10, ws_output_tokens = 20, ws_latency_ms = 5\<rparr>
       (sample_db [assigned_request 6 3 120000000]) = (Inr (), s1)
     \<and> filter (\<lambda>x. rq_id x = 6) (requests s1) = [q] \<and> replay q = JObj [] \<and> charge q = 30
     \<and> map bill_of_usage (filter (\<lambda>u. ur_request_id u = 6) (usage_records s1)) = [bill_of q]
     \<and> wait_for_result (app_settings (sample_app sample_codec)) 6 0 (\<lambda>_. 1) (\<lambda>_. Some q) = Some (Inr (JObj []))"
proof -
  let ?s = "sample_db [assigned_request 6 3 120000000]"
  let ?p = "\<lparr>ws_request_id = 6, ws_result = JObj [], ws_input_tokens = 10, ws_output_tokens = 20, ws_latency_ms = 5\<rparr>"
  obtain s1 where commit: "commit_result budget_service_impl 9 50 9 6 (sample_worker 3) (JObj []) 10 20 5 ?s = Inr (True, s1)"
    using sample_commit by blast
  obtain claims where auth: "require_worker (sample_app sample_codec) 9 (Some ''Bearer T'') ?s = Inr (sample_worker 3, claims)"
    and scopes: "\<And>scope. require_worker_scope scope claims = Inr () \<longleftrightarrow> scope \<in> set worker_scopes"
    using sample_worker_token [of ?s "sample_worker 3" 9] by (auto simp: sample_db_def sample_worker_def)
  have "app_budget_service (sample_app sample_codec) = budget_service_impl" by (simp add: sample_app_def)
  with commit have post: "post_result (sample_app sample_codec) 9 (Some ''Bearer T'') 9 50 9 ?p ?s = (Inr (), s1)"
    using scopes [of "''worker:result''"]
    by (simp add: post_result_def with_worker_def session_scope_def auth submit_result_def worker_scopes_def)
  then have accepted: "post_result (base sample_services) 9 (Some ''Bearer T'') 9 50 9 ?p ?s = (Inr (), s1)" by simp
  have "valid_worker_result_request ?p" by (simp add: valid_worker_result_request_def)
  note served = accepted_result_is_served [OF accepted this sample_gateway_ok sample_services(3) rtranclp.rtrancl_refl,
      unfolded sample_services(1) worker_result_request.simps]
  obtain q where q: "filter (\<lambda>x. rq_id x = 6) (requests s1) = [q]" "replay q = JObj []" "charge q = 10 + 20"
    "map bill_of_usage (filter (\<lambda>u. ur_request_id u = 6) (usage_records s1)) = [bill_of q]"
    and wait: "\<forall>started clock lookup n deadline.
        deadline = started + of_int (st_request_wait_timeout_seconds (app_settings (sample_app sample_codec)))
        \<and> (\<forall>j<n. clock j < deadline \<and> poll (lookup j) = None) \<and> clock n < deadline \<and> lookup n = Some q \<longrightarrow>
        wait_for_result (app_settings (sample_app sample_codec)) 6 started clock lookup = Some (Inr (JObj []))"
    using served by (elim exE conjE) (rule that; assumption)
  have "wait_for_result (app_settings (sample_app sample_codec)) 6 0 (\<lambda>_. 1) (\<lambda>_. Some q) = Some (Inr (JObj []))"
    using wait [rule_format, where started = 0 and clock = "\<lambda>_. 1" and n = 0 and lookup = "\<lambda>_. Some q"]
    by (simp add: sample_app_def default_settings_def)
  with post q show ?thesis by auto
qed

end
