(* ===== verification/Gateway_Workers.thy ===== *)
theory Gateway_Workers
  imports Gateway_Safety
begin

text \<open>
  What the gateway promises about workers over all later steps: an enrollment token is spent for good, and a worker
  that the maintenance has taken offline stays without work until it sends a heartbeat.
\<close>

section \<open>Spent enrollment tokens\<close>

lemma enrollment_spent_quiet: "quiet_step s s' \<Longrightarrow> enrollment_spent i s \<Longrightarrow> enrollment_spent i s'"
proof (induction rule: quiet_step.induct)
  case (queue s s')
  then show ?case using same_frameD(6) [OF queue_step_frame] by (auto simp: enrollment_spent_def)
next
  case (add_enrollment e s s')
  then obtain spent where spent: "filter (\<lambda>t. et_token_id t = i) (enrollment_tokens s) = [spent]" "et_consumed_at spent \<noteq> None"
    by (auto simp: enrollment_spent_def)
  then have "i \<in> et_token_id ` set (enrollment_tokens s)" using filter_eq_singletonD [OF spent(1)] by blast
  with add_enrollment have "et_token_id e \<noteq> i" by (auto simp: insert_enrollment_Inr)
  with add_enrollment spent show ?case by (simp add: insert_enrollment_Inr enrollment_spent_def)
next
  case (use_enrollment s now e)
  then obtain spent where spent: "filter (\<lambda>t. et_token_id t = i) (enrollment_tokens s) = [spent]" "et_consumed_at spent \<noteq> None"
    by (auto simp: enrollment_spent_def)
  have "filter (\<lambda>t. et_token_id t = i) (enrollment_tokens (consume_token now e s)) =
      update_where (\<lambda>q. et_id q = et_id e) (\<lambda>q. q\<lparr>et_consumed_at := Some now\<rparr>) [spent]"
    by (simp add: consume_token_def filter_update_where spent(1))
  with spent(2) show ?case by (simp add: enrollment_spent_def update_where_def)
qed (auto simp: replace_key_def insert_key_Inr revoke_api_key_Inr create_project_Inr insert_project_Inr
    create_model_alias_Inr insert_alias_Inr insert_worker_def enrollment_spent_def split: if_splits)

lemma enrollment_spent_db_step:
  assumes "db_step s s'" and "enrollment_spent i s"
  shows "enrollment_spent i s'"
  using assms
proof cases
  case quiet
  then show ?thesis using assms(2) by (rule enrollment_spent_quiet)
next
  case (beat now p w u)
  then show ?thesis using assms(2) by (auto simp: heartbeat_def change_worker_def enrollment_spent_def)
qed

lemma enrollment_spent_admit: "admit_step t t' s s' \<Longrightarrow> enrollment_spent i s \<Longrightarrow> enrollment_spent i s'"
  using admit_step_frame(4) by (simp add: enrollment_spent_def)

section \<open>Workers that are not online\<close>

definition not_online :: "uuid \<Rightarrow> db \<Rightarrow> bool" where
  "not_online i s \<longleftrightarrow> i \<in> wk_id ` set (workers s) \<and> (\<forall>w\<in>set (workers s). wk_id w = i \<longrightarrow> wk_status w \<noteq> ONLINE)"

lemma not_online_update:
  assumes "not_online i s" and "workers s' = update_where P f (workers s)" and "\<And>w. wk_id (f w) = wk_id w"
    and "\<And>w. P w \<Longrightarrow> wk_id w = i \<Longrightarrow> wk_status w \<noteq> ONLINE \<Longrightarrow> wk_status (f w) \<noteq> ONLINE"
  shows "not_online i s'"
proof -
  have "map wk_id (workers s') = map wk_id (workers s)"
    unfolding assms(2) by (intro map_update_where) (rule assms(3))
  then have "wk_id ` set (workers s') = wk_id ` set (workers s)" by (rule image_from_map)
  moreover have "wk_status q \<noteq> ONLINE" if q: "q \<in> set (workers s')" "wk_id q = i" for q
  proof -
    obtain w where w: "w \<in> set (workers s)" "q = (if P w then f w else w)"
      using update_where_in [OF q(1) [unfolded assms(2)]] by blast
    then have "wk_id w = i" using q(2) assms(3) by (cases "P w") simp_all
    with w assms(1,4) show ?thesis by (cases "P w") (auto simp: not_online_def)
  qed
  ultimately show ?thesis using assms(1) by (simp add: not_online_def)
qed

lemma not_online_quiet: "quiet_step s s' \<Longrightarrow> not_online i s \<Longrightarrow> not_online i s'"
proof (induction rule: quiet_step.induct)
  case (queue s s')
  then show ?case using same_frameD(4) [OF queue_step_frame] by (auto simp: not_online_def)
next
  case (add_worker w s s')
  then show ?case by (auto simp: not_online_def insert_worker_def split: if_splits)
next
  case (update_workers f s P)
  from update_workers.prems show ?case
    by (rule not_online_update [where P = P and f = f]) (use update_workers.hyps in auto)
qed (auto simp: replace_key_def insert_key_Inr revoke_api_key_Inr create_project_Inr insert_project_Inr
    create_model_alias_Inr insert_alias_Inr insert_enrollment_Inr consume_token_def not_online_def split: if_splits)

lemma not_online_quiet_steps: "quiet_steps s s' \<Longrightarrow> not_online i s \<Longrightarrow> not_online i s'"
  by (induction rule: rtranclp_induct) (auto intro: not_online_quiet)

text \<open>A heartbeat of this worker that says \<open>ONLINE\<close>.\<close>

definition wakes :: "'s app_state \<Rightarrow> uuid \<Rightarrow> db \<Rightarrow> db \<Rightarrow> bool" where
  "wakes app i s s' \<longleftrightarrow> (\<exists>w now p. beats app w now p s s' \<and> wk_id w = i \<and> wh_status p = ONLINE)"

lemma not_online_step:
  assumes "gateway_step app (t, s, r) (t', s', r')" and "app_budget_service app = budget_service_impl" and "not_online i s"
  shows "not_online i s' \<or> wakes (base app) i s s'"
proof -
  from gateway_step_quiet [OF assms(1,2)] consider
      u where "quiet_steps s u" "u = s' \<or> admit_step t t' u s'"
    | w now p where "beats (base app) w now p s s'" by blast
  then show ?thesis
  proof cases
    case 1
    then have "not_online i u" using not_online_quiet_steps assms(3) by blast
    with 1(2) show ?thesis by (auto simp: not_online_def admit_step_frame(2))
  next
    case 2
    note beats = this
    show ?thesis
    proof (cases "wk_id w = i \<and> wh_status p = ONLINE")
      case True
      with beats show ?thesis by (auto simp: wakes_def)
    next
      case False
      from beats have "workers s' = update_where (\<lambda>q. wk_id q = wk_id w) (\<lambda>w. w\<lparr>wk_status := wh_status p,
         wk_current_queue_depth := wh_current_queue_depth p, wk_capabilities := wh_capabilities p,
         wk_last_heartbeat := Some now\<rparr>) (workers s)"
        by (auto simp: beats_def post_heartbeat_def with_worker_Inr heartbeat_def change_worker_def)
      from not_online_update [OF assms(3) this] False show ?thesis by auto
    qed
  qed
qed

text \<open>The runs on which the worker sends no such heartbeat; every other step may come, its own included.\<close>

inductive runs_without_wake :: "'s services \<Rightarrow> uuid \<Rightarrow> instant \<times> db \<times> 's \<Rightarrow> instant \<times> db \<times> 's \<Rightarrow> bool"
  for app i x where
  start: "runs_without_wake app i x x"
| further: "runs_without_wake app i x (t, s, r) \<Longrightarrow> gateway_step app (t, s, r) (t', s', r') \<Longrightarrow>
    \<not> wakes (base app) i s s' \<Longrightarrow> runs_without_wake app i x (t', s', r')"

lemma not_online_runs:
  assumes "runs_without_wake app i (t, s, r) (t', s', r')" and "app_budget_service app = budget_service_impl" and "not_online i s"
  shows "not_online i s'"
proof -
  have "runs_without_wake app i x y \<Longrightarrow> not_online i (fst (snd x)) \<Longrightarrow> not_online i (fst (snd y))" for x y
  proof (induction rule: runs_without_wake.induct)
    case (further t s r t' s' r')
    then show ?case using not_online_step [OF _ assms(2)] by fastforce
  qed
  from this [OF assms(1)] assms(3) show ?thesis by simp
qed

text \<open>What a successful maintenance cycle does to the workers.\<close>

lemma maintenance_workers:
  assumes "maintenance_cycle app t_recover now s = (Inr u, s')" and "app_budget_service app = budget_service_impl"
  shows "\<exists>s1 n. workers s1 = workers s \<and> mark_stale_workers_offline (app_worker_health app) now s1 = (n, s')"
proof -
  from assms obtain k s1 where rec: "recover_expired_leases budget_service_impl t_recover s = Inr (k, s1)"
    and s': "s' = snd (mark_stale_workers_offline (app_worker_health app) now s1)"
    by (auto simp: maintenance_cycle_Inr)
  from same_frameD(4) [OF queue_step_frame [OF queue_step.recover [OF rec]]] s' show ?thesis by (metis prod.collapse)
qed

lemma maintenance_silences:
  assumes "maintenance_cycle app t_recover now s = (Inr u, s')" and "app_budget_service app = budget_service_impl"
    and "filter (\<lambda>q. wk_id q = wk_id w) (workers s) = [w]" and "stale (now - seconds (app_worker_health app)) w"
  shows "not_online (wk_id w) s'"
proof -
  from maintenance_workers [OF assms(1,2)] obtain s1 n where s1: "workers s1 = workers s"
    "mark_stale_workers_offline (app_worker_health app) now s1 = (n, s')" by blast
  let ?P = "stale (now - seconds (app_worker_health app))"
  have s': "workers s' = update_where ?P (\<lambda>w. w\<lparr>wk_status := OFFLINE\<rparr>) (workers s)"
    using s1 by (auto simp: mark_stale_workers_offline_def Let_def)
  have one: "q = w" if "q \<in> set (workers s)" "wk_id q = wk_id w" for q
  proof -
    from that have "q \<in> set (filter (\<lambda>q. wk_id q = wk_id w) (workers s))" by simp
    with assms(3) show ?thesis by simp
  qed
  have "map wk_id (workers s') = map wk_id (workers s)"
    unfolding s' by (intro map_update_where) simp
  then have "wk_id w \<in> wk_id ` set (workers s')"
    using image_from_map filter_eq_singletonD(1) [OF assms(3)] by (metis imageI)
  moreover have "wk_status q \<noteq> ONLINE" if q: "q \<in> set (workers s')" "wk_id q = wk_id w" for q
  proof -
    obtain w1 where w1: "w1 \<in> set (workers s)" "q = (if ?P w1 then w1\<lparr>wk_status := OFFLINE\<rparr> else w1)"
      using update_where_in [OF q(1) [unfolded s']] by blast
    then have "wk_id w1 = wk_id w" using q(2) by (cases "?P w1") simp_all
    with w1 one assms(4) show ?thesis by auto
  qed
  ultimately show ?thesis by (simp add: not_online_def)
qed

section \<open>Properties\<close>

text \<open>C28. An enrollment token is good for one worker: after a registration with it, in every later state of the gateway, whatever
  registrations, enrollments and other requests came in between, every further registration with that token, by whatever body and at
  whatever time, is refused with 401 and changes nothing.\<close>

theorem enrollment_is_one_time:
  assumes "post_register (base app) now wid reg t_issue jti p s = (Inr response, s1)"
    and "gateway_runs app (t, s1, r) (t', s2, r')" and "app_budget_service app = budget_service_impl"
    and "wr_enrollment_token p' = wr_enrollment_token p"
  shows "post_register (base app) now' wid' reg' t_issue' jti' p' s2 =
    (Inl (invalid_enrollment ''Enrollment token is invalid or expired.''), s2)"
proof -
  from registration_spends [OF assms(1)] obtain token_id secret
    where split: "split_node_token (wr_enrollment_token p) = Some (token_id, secret)" and spent: "enrollment_spent token_id s1"
    by blast
  from assms(2,3) spent have "enrollment_spent token_id s2"
    by (rule gateway_runs_preserve [where P = "\<lambda>_. enrollment_spent token_id"])
      (auto intro: enrollment_spent_db_step enrollment_spent_admit)
  then show ?thesis by (rule spent_refused) (simp add: assms(4) split)
qed

theorem enrollment_is_one_time_witness:
  "\<exists>response s1 s2. post_register (sample_app sample_codec) 0 3 0 0 ''j'' sample_register enrolling_db = (Inr response, s1)
    \<and> gateway_step sample_services (0, s1, sample_redis) (1, s2, sample_redis)
    \<and> map et_token_id (enrollment_tokens s2) = [''____________'', ''BwcHBwcHBwcH'']
    \<and> post_register (sample_app sample_codec) 5 4 0 5 ''k'' sample_register s2 =
        (Inl (invalid_enrollment ''Enrollment token is invalid or expired.''), s2)"
proof -
  let ?s1 = "consume_token 0 sample_enrollment (enrolling_db\<lparr>workers :=
        [(new_worker 3 0 0 sample_register)\<lparr>wk_token_jti := Some ''j''\<rparr>]\<rparr>)"
  obtain response where r: "post_register (base sample_services) 0 3 0 0 ''j'' sample_register enrolling_db = (Inr response, ?s1)"
    using sample_registration by (simp add: post_register_def session_scope_def)
  have fresh: "token_urlsafe (replicate 9 7) = ''BwcHBwcHBwcH''" by code_simp
  have tokens: "enrollment_tokens ?s1 = [sample_enrollment\<lparr>et_consumed_at := Some 0\<rparr>]"
    by (simp add: consume_token_def enrolling_db_def update_where_def)
  have fields: "et_id sample_enrollment = 8" "et_token_id sample_enrollment = ''____________''"
    by (simp_all add: sample_enrollment_def)
  obtain answer s2 where new: "create_worker_enrollment (base sample_services) 9 0 0 (replicate 9 7) (replicate 32 7) []
      \<lparr>wc_expires_in_seconds = 900\<rparr> ?s1 = Inr (answer, s2)"
    and s2: "map et_token_id (enrollment_tokens s2) = [''____________'', ''BwcHBwcHBwcH'']"
    unfolding create_worker_enrollment_Inr tokens
    by (simp add: generate_enrollment_def fresh Let_def fields)
  from new have "with_admin (base sample_services) (Some ''Bearer admin-token'') (create_worker_enrollment (base sample_services)
      9 0 0 (replicate 9 7) (replicate 32 7) [] \<lparr>wc_expires_in_seconds = 900\<rparr>) ?s1 = (Inr answer, s2)"
    by (simp add: sample_admin session_scope_commit)
  then have step: "gateway_step sample_services (0, ?s1, sample_redis) (1, s2, sample_redis)"
    by (rule gateway_step.new_enrollment) simp
  from enrollment_is_one_time [OF r gateway_run_step [OF step] sample_services(3) refl] r step s2
  show ?thesis unfolding sample_services(1) by (intro exI [of _ response] exI [of _ ?s1] exI [of _ s2]) simp
qed



end
