(* ===== verification/Serial_Runs.thy ===== *)
theory Serial_Runs
  imports Prelude
begin

text \<open>
  Concurrent transactions under row locks, and why one may think of them as running one after another. A
  program is what a transaction does to rows: it locks a row, reads it, writes it and goes on with what it has read. What
  it has written is visible to itself only until it commits; it keeps its locks until it ends, and it may be
  rolled back at any time. The theorem of this theory is about any such programs; \<open>Serial_Gateway\<close> has those of the
  gateway.
\<close>

datatype ('x, 'v, 'r) row_program =
    Return 'r
  | Raise exn
  | Access 'x "'v \<Rightarrow> 'v" "'v \<Rightarrow> ('x, 'v, 'r) row_program"

text \<open>A program on its own.\<close>

primrec run_program :: "('x, 'v, 'r) row_program \<Rightarrow> ('x \<Rightarrow> 'v) \<Rightarrow> 'r result \<times> ('x \<Rightarrow> 'v)" where
  "run_program (Return r) store = (Inr r, store)"
| "run_program (Raise e) store = (Inl e, store)"
| "run_program (Access x w k) store = run_program (k (store x)) (store(x := w (store x)))"

text \<open>The rows that it locks on its way.\<close>

primrec accesses :: "('x, 'v, 'r) row_program \<Rightarrow> ('x \<Rightarrow> 'v) \<Rightarrow> 'x list" where
  "accesses (Return r) store = []"
| "accesses (Raise e) store = []"
| "accesses (Access x w k) store = x # accesses (k (store x)) (store(x := w (store x)))"

text \<open>Several of them: the committed rows, the transactions, each with what it still has to do and its own
  versions of the rows it has locked, and who has committed with which answer.\<close>

datatype ('x, 'v, 'r) running =
    Running "('x, 'v, 'r) row_program" "'x \<Rightarrow> 'v option"
  | Ended

fun locked_by :: "('x, 'v, 'r) running \<Rightarrow> 'x set" where
  "locked_by (Running p own) = dom own"
| "locked_by Ended = {}"

type_synonym ('x, 'v, 'r) concurrent = "('x \<Rightarrow> 'v) \<times> ('x, 'v, 'r) running list \<times> (nat \<times> 'r) list"

definition overlay :: "('x \<Rightarrow> 'v) \<Rightarrow> ('x \<Rightarrow> 'v option) \<Rightarrow> 'x \<Rightarrow> 'v" where
  "overlay store own x = (case own x of None \<Rightarrow> store x | Some v \<Rightarrow> v)"

inductive row_step :: "('x, 'v, 'r) concurrent \<Rightarrow> ('x, 'v, 'r) concurrent \<Rightarrow> bool" where
  row_access: "i < length ts \<Longrightarrow> ts ! i = Running (Access x w k) own \<Longrightarrow>
    (\<forall>j<length ts. j \<noteq> i \<longrightarrow> x \<notin> locked_by (ts ! j)) \<Longrightarrow> v = overlay store own x \<Longrightarrow>
    row_step (store, ts, commits) (store, ts[i := Running (k v) (own(x \<mapsto> w v))], commits)"
| row_commit: "i < length ts \<Longrightarrow> ts ! i = Running (Return r) own \<Longrightarrow>
    row_step (store, ts, commits) (overlay store own, ts[i := Ended], commits @ [(i, r)])"
| row_rollback: "i < length ts \<Longrightarrow> ts ! i = Running p own \<Longrightarrow> row_step (store, ts, commits) (store, ts[i := Ended], commits)"

abbreviation row_steps :: "('x, 'v, 'r) concurrent \<Rightarrow> ('x, 'v, 'r) concurrent \<Rightarrow> bool" where
  "row_steps \<equiv> row_step\<^sup>*\<^sup>*"

definition start_all :: "('x, 'v, 'r) row_program list \<Rightarrow> ('x \<Rightarrow> 'v) \<Rightarrow> ('x, 'v, 'r) concurrent" where
  "start_all ps store = (store, map (\<lambda>p. Running p Map.empty) ps, [])"

text \<open>The serial run: one after another, with the same answers.\<close>

fun run_serially :: "('x, 'v, 'r) row_program list \<Rightarrow> (nat \<times> 'r) list \<Rightarrow> ('x \<Rightarrow> 'v) \<Rightarrow> ('x \<Rightarrow> 'v) option" where
  "run_serially ps [] store = Some store"
| "run_serially ps ((i, r) # commits) store =
     (case run_program (ps ! i) store of
        (Inr r', store') \<Rightarrow> if r' = r then run_serially ps commits store' else None
      | (Inl e, _) \<Rightarrow> None)"

lemma run_serially_append:
  "run_serially ps (commits @ commits') store =
     (case run_serially ps commits store of None \<Rightarrow> None | Some store' \<Rightarrow> run_serially ps commits' store')"
  by (induction ps commits store rule: run_serially.induct) (auto split: prod.split sum.split)

section \<open>The invariant\<close>

text \<open>A transaction resumes its program: on any committed rows that agree with the present ones where it
  has locks, the whole program comes to the same as its rest on its own versions.\<close>

definition resumes ::
  "('x, 'v, 'r) row_program \<Rightarrow> ('x \<Rightarrow> 'v) \<Rightarrow> ('x, 'v, 'r) row_program \<Rightarrow> ('x \<Rightarrow> 'v option) \<Rightarrow> bool" where
  "resumes p0 store p own \<longleftrightarrow>
     (\<forall>store'. (\<forall>x\<in>dom own. store' x = store x) \<longrightarrow> run_program p0 store' = run_program p (overlay store' own))"

lemma overlay_empty [simp]: "overlay store Map.empty = store"
  by (simp add: overlay_def fun_eq_iff)

lemma overlay_update: "overlay store (own(x \<mapsto> v)) = (overlay store own)(x := v)"
  by (simp add: overlay_def fun_eq_iff)

lemma overlay_outside: "x \<notin> dom own \<Longrightarrow> overlay store own x = store x"
  by (simp add: overlay_def domIff)

lemma resumes_start: "resumes p store p Map.empty"
  by (simp add: resumes_def)

lemma resumes_access:
  assumes "resumes p0 store (Access x w k) own"
  shows "resumes p0 store (k (overlay store own x)) (own(x \<mapsto> w (overlay store own x)))"
  unfolding resumes_def
proof (intro allI impI)
  fix store' assume agree: "\<forall>y\<in>dom (own(x \<mapsto> w (overlay store own x))). store' y = store y"
  then have "run_program p0 store' = run_program (Access x w k) (overlay store' own)"
    using assms by (simp add: resumes_def)
  moreover have "overlay store' own x = overlay store own x"
    using agree by (simp add: overlay_def split: option.split)
  ultimately show "run_program p0 store' =
      run_program (k (overlay store own x)) (overlay store' (own(x \<mapsto> w (overlay store own x))))"
    by (simp add: overlay_update)
qed

lemma resumes_other:
  assumes "resumes p0 store p own" and "dom own \<inter> dom own' = {}"
  shows "resumes p0 (overlay store own') p own"
proof -
  have "overlay store own' x = store x" if "x \<in> dom own" for x
    using assms(2) that by (intro overlay_outside) blast
  with assms(1) show ?thesis by (simp add: resumes_def)
qed

definition exclusive :: "('x, 'v, 'r) running list \<Rightarrow> bool" where
  "exclusive ts \<longleftrightarrow> (\<forall>i<length ts. \<forall>j<length ts. i \<noteq> j \<longrightarrow> locked_by (ts ! i) \<inter> locked_by (ts ! j) = {})"

lemma exclusive_update:
  assumes "exclusive ts" and "i < length ts"
    and "\<And>j. j < length ts \<Longrightarrow> j \<noteq> i \<Longrightarrow> locked_by t \<inter> locked_by (ts ! j) = {}"
  shows "exclusive (ts[i := t])"
  unfolding exclusive_def
proof (intro allI impI)
  fix a b assume ab: "a < length (ts[i := t])" "b < length (ts[i := t])" "a \<noteq> b"
  consider "a = i" | "b = i" "a \<noteq> i" | "a \<noteq> i" "b \<noteq> i" by blast
  then show "locked_by (ts[i := t] ! a) \<inter> locked_by (ts[i := t] ! b) = {}"
  proof cases
    case 1
    then show ?thesis using assms(3) [of b] ab by simp
  next
    case 2
    then show ?thesis using assms(3) [of a] ab by (simp add: Int_commute)
  next
    case 3
    then show ?thesis using assms(1) ab by (simp add: exclusive_def)
  qed
qed

lemma exclusiveD:
  "exclusive ts \<Longrightarrow> i < length ts \<Longrightarrow> j < length ts \<Longrightarrow> j \<noteq> i \<Longrightarrow> ts ! i = Running p own \<Longrightarrow>
     dom own \<inter> locked_by (ts ! j) = {}"
  unfolding exclusive_def by (metis locked_by.simps(1))

definition resuming :: "('x, 'v, 'r) row_program list \<Rightarrow> ('x \<Rightarrow> 'v) \<Rightarrow> ('x, 'v, 'r) running list \<Rightarrow> bool" where
  "resuming ps store ts \<longleftrightarrow> (\<forall>i<length ts. \<forall>p own. ts ! i = Running p own \<longrightarrow> resumes (ps ! i) store p own)"

lemma resuming_update:
  assumes "resuming ps store ts" and "\<And>p own. t = Running p own \<Longrightarrow> resumes (ps ! i) store p own"
  shows "resuming ps store (ts[i := t])"
  unfolding resuming_def
proof (intro allI impI)
  fix a p own assume a: "a < length (ts[i := t])" "ts[i := t] ! a = Running p own"
  show "resumes (ps ! a) store p own"
  proof (cases "a = i")
    case True
    then show ?thesis using a assms(2) by simp
  next
    case False
    then show ?thesis using a assms(1) by (simp add: resuming_def)
  qed
qed

definition recorded :: "('x, 'v, 'r) running list \<Rightarrow> (nat \<times> 'r) list \<Rightarrow> bool" where
  "recorded ts commits \<longleftrightarrow> distinct (map fst commits) \<and> (\<forall>i\<in>fst ` set commits. i < length ts \<and> ts ! i = Ended)"

lemma recorded_update:
  assumes "recorded ts commits" and "ts ! i = Running p own"
  shows "recorded (ts[i := t]) commits" and "i < length ts \<Longrightarrow> recorded (ts[i := Ended]) (commits @ [(i, r)])"
proof -
  have "i \<notin> fst ` set commits" using assms by (auto simp: recorded_def)
  then have "ts[i := t'] ! a = ts ! a" if "a \<in> fst ` set commits" for a t' using that by (metis nth_list_update_neq)
  with \<open>i \<notin> fst ` set commits\<close> show "recorded (ts[i := t]) commits" "i < length ts \<Longrightarrow> recorded (ts[i := Ended]) (commits @ [(i, r)])"
    using assms(1) by (auto simp: recorded_def nth_list_update)
qed

definition serializing :: "('x, 'v, 'r) row_program list \<Rightarrow> ('x \<Rightarrow> 'v) \<Rightarrow> ('x, 'v, 'r) concurrent \<Rightarrow> bool" where
  "serializing ps store0 c \<longleftrightarrow>
     (case c of (store, ts, commits) \<Rightarrow>
        length ts = length ps \<and> run_serially ps commits store0 = Some store
        \<and> recorded ts commits \<and> exclusive ts \<and> resuming ps store ts)"

lemma start_serializing: "serializing ps store (start_all ps store)"
  by (simp add: serializing_def start_all_def resumes_start recorded_def exclusive_def resuming_def)

lemma row_step_serializing:
  assumes "row_step c c'" and "serializing ps store0 c"
  shows "serializing ps store0 c'"
  using assms
proof (induction rule: row_step.induct)
  case (row_access i ts x w k own v store commits)
  let ?t = "Running (k v) (own(x \<mapsto> w v))"
  from row_access(5) have inv: "length ts = length ps" "run_serially ps commits store0 = Some store"
    "recorded ts commits" "exclusive ts" "resuming ps store ts" by (simp_all add: serializing_def)
  have "exclusive (ts[i := ?t])"
    using inv(4) row_access(1)
  proof (rule exclusive_update)
    fix j assume "j < length ts" "j \<noteq> i"
    then show "locked_by ?t \<inter> locked_by (ts ! j) = {}"
      using exclusiveD [OF inv(4) row_access(1) _ _ row_access(2)] row_access(3) by simp
  qed
  moreover have "resumes (ps ! i) store (Access x w k) own"
    using inv(5) row_access(1,2) by (simp add: resuming_def)
  from resumes_access [OF this] have "resuming ps store (ts[i := ?t])"
    using inv(5) row_access(4) by (intro resuming_update) auto
  ultimately show ?case
    using inv(1,2) recorded_update(1) [OF inv(3) row_access(2)] by (simp add: serializing_def)
next
  case (row_commit i ts r own store commits)
  from row_commit(3) have inv: "length ts = length ps" "run_serially ps commits store0 = Some store"
    "recorded ts commits" "exclusive ts" "resuming ps store ts" by (simp_all add: serializing_def)
  have "resumes (ps ! i) store (Return r) own" using inv(5) row_commit(1,2) by (simp add: resuming_def)
  then have "run_program (ps ! i) store = (Inr r, overlay store own)" by (simp add: resumes_def)
  then have "run_serially ps (commits @ [(i, r)]) store0 = Some (overlay store own)"
    using inv(2) by (simp add: run_serially_append)
  moreover have "resuming ps (overlay store own) (ts[i := Ended])"
    unfolding resuming_def
  proof (intro allI impI)
    fix a p' own' assume a: "a < length (ts[i := Ended])" "ts[i := Ended] ! a = Running p' own'"
    then have "a \<noteq> i" "a < length ts" by (auto simp: row_commit(1))
    moreover from this have "ts ! a = Running p' own'" using a(2) by simp
    moreover from calculation have "resumes (ps ! a) store p' own'" using inv(5) by (simp add: resuming_def)
    ultimately show "resumes (ps ! a) (overlay store own) p' own'"
      using exclusiveD [OF inv(4) row_commit(1) _ _ row_commit(2), of a] by (intro resumes_other) auto
  qed
  moreover have "exclusive (ts[i := Ended])" using inv(4) row_commit(1) by (rule exclusive_update) simp
  ultimately show ?case
    using inv(1) recorded_update(2) [OF inv(3) row_commit(2,1)] by (simp add: serializing_def)
next
  case (row_rollback i ts p own store commits)
  from row_rollback(3) have inv: "length ts = length ps" "run_serially ps commits store0 = Some store"
    "recorded ts commits" "exclusive ts" "resuming ps store ts" by (simp_all add: serializing_def)
  have "exclusive (ts[i := Ended])" using inv(4) row_rollback(1) by (rule exclusive_update) simp
  moreover have "resuming ps store (ts[i := Ended])" using inv(5) by (rule resuming_update) simp
  ultimately show ?case
    using inv(1,2) recorded_update(1) [OF inv(3) row_rollback(2)] by (simp add: serializing_def)
qed

text \<open>Strict two-phase locking: whatever the interleaving, and whoever is rolled back, the committed rows are
  those of the serial run of the committed transactions in the order of their commits.\<close>

lemma row_steps_serializable:
  assumes "row_steps (start_all ps store0) (store, ts, commits)"
  shows "run_serially ps commits store0 = Some store \<and> distinct (map fst commits) \<and> fst ` set commits \<subseteq> {..<length ps}"
proof -
  have "serializing ps store0 (store, ts, commits)"
    using assms
  proof (induction rule: rtranclp_induct)
    case base
    show ?case by (rule start_serializing)
  qed (rule row_step_serializing)
  then show ?thesis by (auto simp: serializing_def recorded_def)
qed

text \<open>A transaction whose rows nobody else holds can run to its end.\<close>

lemma runs_alone:
  assumes "run_program p (overlay store own) = (Inr r, store')" and "i < length ts" and "ts ! i = Running p own"
    and "\<forall>j<length ts. j \<noteq> i \<longrightarrow> locked_by (ts ! j) = {}"
  shows "row_steps (store, ts, commits) (store', ts[i := Ended], commits @ [(i, r)])"
  using assms
proof (induction p arbitrary: own ts)
  case (Access x w k)
  let ?v = "overlay store own x"
  let ?ts = "ts[i := Running (k ?v) (own(x \<mapsto> w ?v))]"
  have "row_step (store, ts, commits) (store, ?ts, commits)"
    using Access.prems by (intro row_access) auto
  moreover have "row_steps (store, ?ts, commits) (store', ?ts[i := Ended], commits @ [(i, r)])"
    using Access.prems by (intro Access.IH) (auto simp: overlay_update simp del: fun_upd_apply)
  ultimately show ?case by (simp add: converse_rtranclp_into_rtranclp)
qed (auto intro!: r_into_rtranclp row_commit)

section \<open>The interface of the operations\<close>

text \<open>Operations on a whole database, and their serial run.\<close>

fun apply_serially :: "('o \<Rightarrow> 'd \<Rightarrow> ('r \<times> 'd) result) \<Rightarrow> 'o list \<Rightarrow> (nat \<times> 'r) list \<Rightarrow> 'd \<Rightarrow> 'd option" where
  "apply_serially apply_op qs [] d = Some d"
| "apply_serially apply_op qs ((i, r) # commits) d =
     (case apply_op (qs ! i) d of
        Inr (r', d') \<Rightarrow> if r' = r then apply_serially apply_op qs commits d' else None
      | Inl e \<Rightarrow> None)"

text \<open>
  An operation is implemented by a program on the rows of the database when the program, alone,
  comes to the same answer and the same rows.
\<close>

locale row_operations =
  fixes program :: "'o \<Rightarrow> ('x, 'v, 'r) row_program"
    and apply_op :: "'o \<Rightarrow> 'd \<Rightarrow> ('r \<times> 'd) result"
    and view :: "'d \<Rightarrow> 'x \<Rightarrow> 'v"
    and good :: "'d \<Rightarrow> bool"
  assumes implements: "good d \<Longrightarrow> apply_op q d = Inr (r, d') \<Longrightarrow> run_program (program q) (view d) = (Inr r, view d')"
    and refuses: "good d \<Longrightarrow> apply_op q d = Inl e \<Longrightarrow> fst (run_program (program q) (view d)) = Inl e"
    and keeps_good: "good d \<Longrightarrow> apply_op q d = Inr (r, d') \<Longrightarrow> good d'"
begin

lemma serial_operations:
  assumes "run_serially (map program qs) commits (view d) = Some store" and "good d"
    and "fst ` set commits \<subseteq> {..<length qs}"
  shows "\<exists>d'. apply_serially apply_op qs commits d = Some d' \<and> good d' \<and> store = view d'"
  using assms
proof (induction commits arbitrary: d)
  case (Cons c commits)
  obtain i r where c: "c = (i, r)" by fastforce
  have i: "i < length qs" using Cons.prems(3) by (simp add: c)
  show ?case
  proof (cases "apply_op (qs ! i) d")
    case (Inl e)
    from refuses [OF Cons.prems(2) this] Cons.prems(1) i show ?thesis
      by (cases "run_program (program (qs ! i)) (view d)") (auto simp: c)
  next
    case (Inr rd)
    obtain r' d' where rd: "rd = (r', d')" by fastforce
    with Inr have op: "apply_op (qs ! i) d = Inr (r', d')" by simp
    from implements [OF Cons.prems(2) op] Cons.prems(1) i
    have "r' = r" "run_serially (map program qs) commits (view d') = Some store"
      by (auto simp: c split: if_splits)
    with Cons.IH [OF this(2) keeps_good [OF Cons.prems(2) op]] Cons.prems(3) op show ?thesis by (simp add: c)
  qed
qed simp

lemma concurrent_serial:
  assumes "row_steps (start_all (map program qs) (view d)) (store, ts, commits)" and "good d"
  shows "\<exists>d'. apply_serially apply_op qs commits d = Some d' \<and> good d' \<and> store = view d' \<and> distinct (map fst commits)"
  using row_steps_serializable [OF assms(1)] serial_operations [of qs commits d store] assms(2) by simp

end

end
