(* ===== verification/Locking.thy ===== *)
theory Locking
  imports Prelude
begin

text \<open>
  Row locks. A transaction is the sequence of the rows that its statements lock, in the order of the
  statements (\<open>SELECT ... FOR UPDATE\<close> and \<open>UPDATE\<close>); it waits for a row that another transaction
  holds, and gives up its rows when it ends. The general facts of this theory are about any such
  transactions; \<open>Locking_Gateway\<close> reads the sequences off the services and the endpoints.
\<close>

datatype lock_target = RequestRow uuid | ProjectRow uuid | KeyRow uuid

text \<open>What a running transaction holds, and what it still has to lock.\<close>

type_synonym transaction = "lock_target list \<times> lock_target list"

definition begin_all :: "lock_target list list \<Rightarrow> transaction list" where
  "begin_all programs = map (\<lambda>p. ([], p)) programs"

inductive lock_step :: "transaction list \<Rightarrow> transaction list \<Rightarrow> bool" where
  acquire: "i < length ts \<Longrightarrow> ts ! i = (held, x # wanted) \<Longrightarrow>
    (\<forall>j<length ts. j \<noteq> i \<longrightarrow> x \<notin> set (fst (ts ! j))) \<Longrightarrow> lock_step ts (ts[i := (x # held, wanted)])"
| finish: "i < length ts \<Longrightarrow> ts ! i = (held, []) \<Longrightarrow> held \<noteq> [] \<Longrightarrow> lock_step ts (ts[i := ([], [])])"

inductive_cases lock_step_elim: "lock_step ts ts'"

abbreviation lock_steps :: "transaction list \<Rightarrow> transaction list \<Rightarrow> bool" where
  "lock_steps \<equiv> lock_step\<^sup>*\<^sup>*"

definition all_ended :: "transaction list \<Rightarrow> bool" where
  "all_ended ts \<longleftrightarrow> (\<forall>t\<in>set ts. t = ([], []))"

definition deadlocked :: "transaction list \<Rightarrow> bool" where
  "deadlocked ts \<longleftrightarrow> \<not> all_ended ts \<and> \<not> (\<exists>ts'. lock_step ts ts')"

text \<open>Every step uses up work: a row to lock, or the end of a transaction.\<close>

definition work :: "transaction list \<Rightarrow> nat" where
  "work ts = sum_list (map (\<lambda>(held, wanted). 2 * length wanted + (if held = [] then 0 else 1)) ts)"

lemma sum_list_update_nat:
  fixes g :: "'a \<Rightarrow> nat"
  assumes "i < length xs"
  shows "sum_list (map g (xs[i := y])) + g (xs ! i) = sum_list (map g xs) + g y"
  using assms
proof (induction xs arbitrary: i)
  case (Cons x xs)
  then show ?case by (cases i) auto
qed simp

lemma lock_step_work: "lock_step ts ts' \<Longrightarrow> work ts' < work ts"
proof (induction rule: lock_step.induct)
  case (acquire i ts held x wanted)
  let ?g = "\<lambda>(held, wanted). 2 * length wanted + (if held = [] then 0 else 1 :: nat)"
  have "sum_list (map ?g (ts[i := (x # held, wanted)])) + ?g (held, x # wanted) =
      sum_list (map ?g ts) + ?g (x # held, wanted)"
    using sum_list_update_nat [of i ts ?g "(x # held, wanted)"] acquire(1,2) by simp
  then show ?case by (auto simp: work_def split: if_splits)
next
  case (finish i ts held)
  let ?g = "\<lambda>(held, wanted). 2 * length wanted + (if held = [] then 0 else 1 :: nat)"
  have "sum_list (map ?g (ts[i := ([], [])])) + ?g (held, []) = sum_list (map ?g ts) + ?g ([], [])"
    using sum_list_update_nat [of i ts ?g "([], [])"] finish(1,2) by simp
  with finish(3) show ?case by (simp add: work_def)
qed

lemma lock_steps_finite: "(lock_step ^^ n) ts ts' \<Longrightarrow> n + work ts' \<le> work ts"
proof (induction n arbitrary: ts')
  case (Suc n)
  then obtain us where "(lock_step ^^ n) ts us" "lock_step us ts'" by auto
  with Suc.IH lock_step_work [of us ts'] show ?case by fastforce
qed simp

text \<open>
  The interface of an ordering discipline: the rows have ranks, and every program locks rows of
  increasing rank. Any number of transactions with such programs never deadlocks.
\<close>

locale lock_order =
  fixes rank :: "lock_target \<Rightarrow> nat"
    and program :: "lock_target list \<Rightarrow> bool"
  assumes increasing: "program p \<Longrightarrow> sorted_wrt (\<lambda>x y. rank x < rank y) p"
begin

definition disciplined :: "transaction \<Rightarrow> bool" where
  "disciplined t \<longleftrightarrow> (\<forall>x\<in>set (fst t). \<forall>y\<in>set (snd t). rank x < rank y)
     \<and> sorted_wrt (\<lambda>x y. rank x < rank y) (snd t)"

lemma begin_disciplined: "list_all program ps \<Longrightarrow> \<forall>t\<in>set (begin_all ps). disciplined t"
  by (auto simp: list_all_iff begin_all_def disciplined_def intro: increasing)

lemma step_disciplined:
  assumes "lock_step ts ts'" and "\<forall>t\<in>set ts. disciplined t"
  shows "\<forall>t\<in>set ts'. disciplined t"
  using assms
proof (induction rule: lock_step.induct)
  case (acquire i ts held x wanted)
  then have "disciplined (held, x # wanted)" by (metis nth_mem)
  then have "disciplined (x # held, wanted)" by (auto simp: disciplined_def)
  with acquire.prems show ?case by (auto dest: set_update_subset_insert [THEN subsetD])
next
  case (finish i ts held)
  have "disciplined ([], [])" by (simp add: disciplined_def)
  with finish.prems show ?case by (auto dest: set_update_subset_insert [THEN subsetD])
qed

lemma reachable_disciplined:
  "lock_steps (begin_all ps) ts \<Longrightarrow> list_all program ps \<Longrightarrow> \<forall>t\<in>set ts. disciplined t"
  by (induction rule: rtranclp_induct) (use begin_disciplined step_disciplined in blast)+

text \<open>Of the transactions that wait, the one that waits for the highest row waits for one that can end.\<close>

lemma progress:
  assumes disc: "\<forall>t\<in>set ts. disciplined t" and open_ts: "\<not> all_ended ts"
  shows "\<exists>ts'. lock_step ts ts'"
proof (cases "\<exists>i<length ts. snd (ts ! i) \<noteq> []")
  case False
  from open_ts obtain t where "t \<in> set ts" "t \<noteq> ([], [])" by (auto simp: all_ended_def)
  then obtain i held where "i < length ts" "ts ! i = (held, [])" "held \<noteq> []"
    using False by (metis in_set_conv_nth prod.collapse)
  then show ?thesis by (blast intro: finish)
next
  case True
  define waiting where "waiting = {i. i < length ts \<and> snd (ts ! i) \<noteq> []}"
  define next_rank where "next_rank i = rank (hd (snd (ts ! i)))" for i
  have "finite waiting" "waiting \<noteq> {}" using True by (auto simp: waiting_def)
  then obtain i where i: "i \<in> waiting" and top: "\<And>j. j \<in> waiting \<Longrightarrow> next_rank j \<le> next_rank i"
    using arg_max_nat_lemma [of "\<lambda>i. i \<in> waiting" _ next_rank "Suc (Max (next_rank ` waiting))"]
    by (metis (no_types, lifting) Max_ge ex_in_conv finite_imageI image_eqI le_imp_less_Suc)
  obtain held x wanted where ti: "i < length ts" "ts ! i = (held, x # wanted)"
    using i by (cases "ts ! i"; cases "snd (ts ! i)") (auto simp: waiting_def)
  show ?thesis
  proof (cases "\<exists>j<length ts. j \<noteq> i \<and> x \<in> set (fst (ts ! j))")
    case False
    with ti show ?thesis by (blast intro: acquire)
  next
    case True
    then obtain j where j: "j < length ts" "x \<in> set (fst (ts ! j))" by blast
    then have "snd (ts ! j) = []"
    proof -
      have False if "snd (ts ! j) \<noteq> []"
      proof -
        from that j(1) have "j \<in> waiting" by (simp add: waiting_def)
        with top have "rank (hd (snd (ts ! j))) \<le> rank x" by (simp add: next_rank_def ti)
        moreover have "disciplined (ts ! j)" using disc j(1) by simp
        ultimately show False
          using j(2) hd_in_set [OF that] unfolding disciplined_def by (meson leD)
      qed
      then show ?thesis by blast
    qed
    with j show ?thesis by (metis empty_iff empty_set finish prod.collapse)
  qed
qed

lemma never_deadlocked: "lock_steps (begin_all ps) ts \<Longrightarrow> list_all program ps \<Longrightarrow> \<not> deadlocked ts"
  using progress reachable_disciplined by (auto simp: deadlocked_def)

text \<open>So from every reachable state all transactions can run to their end.\<close>

lemma all_can_end:
  assumes "lock_steps (begin_all ps) ts" and "list_all program ps"
  shows "\<exists>ts'. lock_steps ts ts' \<and> all_ended ts'"
  using assms(1)
proof (induction "work ts" arbitrary: ts rule: less_induct)
  case less
  show ?case
  proof (cases "all_ended ts")
    case True
    then show ?thesis by blast
  next
    case False
    with progress reachable_disciplined [OF less.prems(1) assms(2)] obtain us where us: "lock_step ts us" by blast
    with less.prems(1) have "lock_steps (begin_all ps) us" by (rule rtranclp.rtrancl_into_rtrancl)
    with less.hyps [OF lock_step_work [OF us]] us show ?thesis by (meson converse_rtranclp_into_rtranclp)
  qed
qed

end

section \<open>Ranks\<close>

text \<open>
  Rows ordered by their table, and within a table by their place in one given program; a transaction
  with at most one row of each table needs the first only.
\<close>

definition position :: "'a list \<Rightarrow> 'a \<Rightarrow> nat" where
  "position xs x = length (takeWhile (\<lambda>y. y \<noteq> x) xs)"

definition ordered_rank :: "(lock_target \<Rightarrow> nat) \<Rightarrow> lock_target list \<Rightarrow> lock_target \<Rightarrow> nat" where
  "ordered_rank table xs x = table x * Suc (length xs) + position xs x"

lemma position_le: "position xs x \<le> length xs"
  by (simp add: position_def length_takeWhile_le)

lemma position_nth: "distinct xs \<Longrightarrow> i < length xs \<Longrightarrow> position xs (xs ! i) = i"
proof (induction xs arbitrary: i)
  case (Cons x xs)
  then show ?case by (cases i) (auto simp: position_def)
qed simp

lemma ordered_rank_tables: "table x < table y \<Longrightarrow> ordered_rank table xs x < ordered_rank table xs y"
proof -
  assume "table x < table y"
  then have "Suc (table x) * Suc (length xs) \<le> table y * Suc (length xs)" by (intro mult_le_mono1) simp
  with position_le [of xs x] show ?thesis by (simp add: ordered_rank_def)
qed

lemma ordered_rank_program:
  assumes "distinct xs" and "sorted_wrt (\<lambda>x y. table x \<le> table y) xs"
  shows "sorted_wrt (\<lambda>x y. ordered_rank table xs x < ordered_rank table xs y) xs"
  unfolding sorted_wrt_iff_nth_less
proof (intro allI impI)
  fix i j assume ij: "i < j" "j < length xs"
  then have "table (xs ! i) \<le> table (xs ! j)" using assms(2) by (simp add: sorted_wrt_iff_nth_less)
  moreover have "ordered_rank table xs (xs ! i) < ordered_rank table xs (xs ! j)" if "table (xs ! i) = table (xs ! j)"
    using ij assms(1) that by (simp add: ordered_rank_def position_nth)
  ultimately show "ordered_rank table xs (xs ! i) < ordered_rank table xs (xs ! j)"
    using ordered_rank_tables by (metis le_neq_implies_less)
qed

end
