(* ===== verification/Locking_Gateway.thy ===== *)
theory Locking_Gateway
  imports Locking Chat Admin
begin

text \<open>
  The rows that each transaction of the gateway locks, in the order of its statements, that they
  cover everything it changes, and which transactions can be in each other's way. \<open>KEY SHARE\<close> locks
  of foreign keys and the claim, which skips what is locked, never wait for these.
\<close>

section \<open>The sequences\<close>

definition key_locks :: "api_key \<Rightarrow> lock_target list" where
  "key_locks k = [KeyRow (ak_id k)]"

definition project_locks :: "uuid \<Rightarrow> lock_target list" where
  "project_locks project_id = [ProjectRow project_id]"

text \<open>A chat request: the key in \<open>require_api_key\<close>, then the project in \<open>reserve\<close>.\<close>

definition chat_locks :: "api_key \<Rightarrow> lock_target list" where
  "chat_locks k = key_locks k @ project_locks (ak_project_id k)"

text \<open>A result: the request, the project in \<open>reconcile\<close>, then the key's totals.\<close>

definition commit_locks :: "orbi_request \<Rightarrow> lock_target list" where
  "commit_locks row = [RequestRow (rq_id row)] @ project_locks (rq_project_id row) @ [KeyRow (rq_api_key_id row)]"

text \<open>An error: the request, and the project when the reservation is released.\<close>

definition error_locks :: "bool \<Rightarrow> orbi_request \<Rightarrow> lock_target list" where
  "error_locks retryable row = RequestRow (rq_id row) #
     (if retryable \<and> retry_left row then [] else project_locks (rq_project_id row))"

text \<open>A row is locked the first time it is met.\<close>

definition first_locks :: "lock_target list \<Rightarrow> lock_target list" where
  "first_locks xs = rev (remdups (rev xs))"

lemma set_first_locks [simp]: "set (first_locks xs) = set xs"
  by (simp add: first_locks_def)

lemma distinct_first_locks [simp]: "distinct (first_locks xs)"
  by (simp add: first_locks_def)

lemma first_locks_order:
  "first_locks [ProjectRow a, ProjectRow b, ProjectRow a] = (if a = b then [ProjectRow a] else [ProjectRow a, ProjectRow b])"
  by (simp add: first_locks_def)

text \<open>A recovery: the rows of its three updates, then the projects of its releases.\<close>

definition recover_locks :: "instant \<Rightarrow> orbi_request list \<Rightarrow> lock_target list" where
  "recover_locks now rows =
     (let rows1 = update_where (\<lambda>r. lease_expired now r \<and> retry_left r) requeue_row rows;
          rows2 = update_where (\<lambda>r. lease_expired now r \<and> \<not> retry_left r) exhaust_row rows1
      in first_locks (map (\<lambda>r. RequestRow (rq_id r))
             (filter (\<lambda>r. lease_expired now r \<and> retry_left r) rows
              @ filter (\<lambda>r. lease_expired now r \<and> \<not> retry_left r) rows1
              @ filter (queue_expired now) rows2)
           @ concat (map (\<lambda>r. project_locks (rq_project_id r)) (released_rows now rows))))"

section \<open>Locks cover writes\<close>

definition changed_rows :: "db \<Rightarrow> db \<Rightarrow> lock_target set" where
  "changed_rows s s' =
     (\<lambda>r. RequestRow (rq_id r)) ` (set (requests s) - set (requests s'))
     \<union> (\<lambda>p. ProjectRow (pj_id p)) ` (set (projects s) - set (projects s'))
     \<union> (\<lambda>k. KeyRow (ak_id k)) ` (set (api_keys s) - set (api_keys s'))"

lemma changed_by_update: "r \<in> set rows \<Longrightarrow> r \<notin> set (update_where P f rows) \<Longrightarrow> P r"
  by (force simp: set_update_where)

lemma changed_rowsI:
  assumes "\<And>r. r \<in> set (requests s) - set (requests s') \<Longrightarrow> RequestRow (rq_id r) \<in> L"
    and "\<And>p. p \<in> set (projects s) - set (projects s') \<Longrightarrow> ProjectRow (pj_id p) \<in> L"
    and "\<And>k. k \<in> set (api_keys s) - set (api_keys s') \<Longrightarrow> KeyRow (ak_id k) \<in> L"
  shows "changed_rows s s' \<subseteq> L"
  using assms by (auto simp: changed_rows_def)

lemma reconcile_changes:
  assumes "reconcile pid r a d m s = Inr s'" and "p \<in> set (projects s) - set (projects s')"
  shows "pj_id p = pid"
proof -
  from assms(1) obtain q where q: "select_project pid s = Inr q"
    and fl: "flush_project (settle_project (a - r) d m q) s = Inr s'" by (auto simp: reconcile_Inr)
  have "pj_id (settle_project (a - r) d m q) = pj_id q" by (simp add: settle_project_def Let_def)
  with fl assms(2) have "pj_id p = pj_id q" by (auto simp: flush_project_Inr dest: changed_by_update)
  with select_project_Inr [OF q] show ?thesis by simp
qed

lemma release_changes:
  "bs_release budget_service_impl pid r d m s = Inr s' \<Longrightarrow> p \<in> set (projects s) - set (projects s') \<Longrightarrow> pj_id p = pid"
  by (simp add: budget_service_impl_def release_def reconcile_changes)

lemma commit_locked:
  assumes "commit_result budget_service_impl now uid rec req worker result i n lat s = Inr (True, s')"
    and "filter (held_by req worker) (requests s) = [row]"
  shows "changed_rows s s' \<subseteq> set (commit_locks row)"
proof -
  let ?s1 = "s\<lparr>requests := update_where (held_by req worker) (complete_request now result i n) (requests s)\<rparr>"
  from assms obtain s2 s3 where
    rec: "reconcile (rq_project_id row) (rq_reserved_tokens row) (i + n) (rq_budget_day row) (rq_budget_month row) ?s1 = Inr s2"
    and cnt: "count_completion (rq_api_key_id row) (i + n) s2 = Inr s3"
    and ins: "insert_usage (usage_row uid rec req worker row i n lat) s3 = Inr s'"
    by (auto simp: commit_result_True budget_service_impl_def)
  have s': "requests s' = requests s3" "projects s' = projects s3" "api_keys s' = api_keys s3"
    using ins by (auto simp: insert_usage_Inr)
  obtain ps where s2: "s2 = ?s1\<lparr>projects := ps\<rparr>" using reconcile_frame(1) [OF rec] by blast
  note s3 = count_completion_tables(1,2) [OF cnt]
  show ?thesis
  proof (rule changed_rowsI)
    fix r assume "r \<in> set (requests s) - set (requests s')"
    then have "held_by req worker r" unfolding s' s3 s2 by (auto dest: changed_by_update)
    moreover have "rq_id row = req" using filter_eq_singletonD(2) [OF assms(2)] by (simp add: held_by_def)
    ultimately show "RequestRow (rq_id r) \<in> set (commit_locks row)"
      by (simp add: held_by_def commit_locks_def)
  next
    fix p assume "p \<in> set (projects s) - set (projects s')"
    then have "p \<in> set (projects ?s1) - set (projects s2)" unfolding s' s3 by simp
    then have "pj_id p = rq_project_id row" by (rule reconcile_changes [OF rec])
    then show "ProjectRow (pj_id p) \<in> set (commit_locks row)" by (simp add: commit_locks_def project_locks_def)
  next
    fix k assume "k \<in> set (api_keys s) - set (api_keys s')"
    moreover have "api_keys s2 = api_keys s" by (simp add: s2)
    ultimately have "ak_id k = rq_api_key_id row"
      using cnt unfolding s' by (auto simp: count_completion_def Let_def split: if_splits dest: changed_by_update)
    then show "KeyRow (ak_id k) \<in> set (commit_locks row)" by (simp add: commit_locks_def)
  qed
qed

lemma error_locked:
  assumes "record_error budget_service_impl req worker retryable code m s = Inr (True, s')"
    and "filter (held_by req worker) (requests s) = [row]"
  shows "changed_rows s s' \<subseteq> set (error_locks retryable row)"
proof -
  let ?r1 = "(errored_row code m row)\<lparr>rq_retry_count := rq_retry_count row + 1, rq_status := QUEUED\<rparr>"
  let ?r2 = "(errored_row code m row)\<lparr>rq_status := FAILED_FINAL\<rparr>"
  from assms have eff: "if retryable \<and> retry_left row then s' = set_request ?r1 s
      else bs_release budget_service_impl (rq_project_id row) (rq_reserved_tokens row)
             (rq_budget_day row) (rq_budget_month row) (set_request ?r2 s) = Inr s'"
    by (auto simp: record_error_True)
  have rq: "rq_id r = rq_id q" if "r \<in> set (requests s) - set (requests (set_request q s))" for r q
    using that by (auto simp: requests_set_request dest: changed_by_update)
  have ids: "rq_id ?r1 = rq_id row" "rq_id ?r2 = rq_id row" by (simp_all add: errored_row_def)
  show ?thesis
  proof (cases "retryable \<and> retry_left row")
    case True
    with eff have s': "s' = set_request ?r1 s" by simp
    show ?thesis
      unfolding s'
      by (rule changed_rowsI) (use rq [of _ ?r1] ids(1) in \<open>auto simp: error_locks_def\<close>)
  next
    case False
    with eff have rel: "bs_release budget_service_impl (rq_project_id row) (rq_reserved_tokens row)
        (rq_budget_day row) (rq_budget_month row) (set_request ?r2 s) = Inr s'" by (simp only: if_False)
    note same = budget.release_same_tables(1,2) [OF rel]
    show ?thesis
    proof (rule changed_rowsI)
      fix r assume "r \<in> set (requests s) - set (requests s')"
      then have "rq_id r = rq_id row" using rq [of r ?r2] ids(2) unfolding same by simp
      then show "RequestRow (rq_id r) \<in> set (error_locks retryable row)" by (simp add: error_locks_def)
    next
      fix p assume "p \<in> set (projects s) - set (projects s')"
      then have "pj_id p = rq_project_id row" using release_changes [OF rel] by simp
      then show "ProjectRow (pj_id p) \<in> set (error_locks retryable row)"
        using False by (auto simp: error_locks_def project_locks_def)
    next
      fix k assume "k \<in> set (api_keys s) - set (api_keys s')"
      then show "KeyRow (ak_id k) \<in> set (error_locks retryable row)" unfolding same by simp
    qed
  qed
qed

lemma releases_changes:
  assumes "fold_result (release_row budget_service_impl) rs s = Inr s'"
    and "p \<in> set (projects s) - set (projects s')"
  shows "pj_id p \<in> rq_project_id ` set rs"
  using assms
proof (induction rs arbitrary: s)
  case (Cons r rs)
  then obtain u where u: "release_row budget_service_impl r s = Inr u"
    and rest: "fold_result (release_row budget_service_impl) rs u = Inr s'"
    by (auto simp: result_simps)
  show ?case
  proof (cases "p \<in> set (projects u)")
    case True
    with Cons.IH [OF rest] Cons.prems(2) show ?thesis by auto
  next
    case False
    with Cons.prems(2) u have "pj_id p = rq_project_id r" by (auto simp: release_row_def dest: release_changes)
    then show ?thesis by simp
  qed
qed simp

lemma recover_locked:
  assumes "recover_expired_leases budget_service_impl now s = Inr (n, s')"
  shows "changed_rows s s' \<subseteq> set (recover_locks now (requests s))"
proof (rule changed_rowsI)
  from assms have rel: "fold_result (release_row budget_service_impl) (released_rows now (requests s))
      (s\<lparr>requests := recovered_rows now (requests s)\<rparr>) = Inr s'"
    by (simp add: recover_Inr)
  let ?rows1 = "update_where (\<lambda>r. lease_expired now r \<and> retry_left r) requeue_row (requests s)"
  let ?rows2 = "update_where (\<lambda>r. lease_expired now r \<and> \<not> retry_left r) exhaust_row ?rows1"
  fix r assume "r \<in> set (requests s) - set (requests s')"
  then have r: "r \<in> set (requests s)" "r \<notin> set (recovered_rows now (requests s))"
    using budget.recover_requests [OF assms] by simp_all
  consider "lease_expired now r" "retry_left r"
    | "r \<in> set ?rows1" "lease_expired now r" "\<not> retry_left r" | "r \<in> set ?rows2" "queue_expired now r"
  proof (cases "r \<in> set ?rows1")
    case True
    show ?thesis
    proof (cases "r \<in> set ?rows2")
      case True
      with r(2) have "queue_expired now r" unfolding recovered_rows_def by (auto dest: changed_by_update)
      with True that(3) show ?thesis by blast
    next
      case False
      with \<open>r \<in> set ?rows1\<close> that(2) show ?thesis by (auto dest: changed_by_update)
    qed
  next
    case False
    with r(1) that(1) show ?thesis by (auto dest: changed_by_update)
  qed
  then show "RequestRow (rq_id r) \<in> set (recover_locks now (requests s))"
    using r(1) by cases (auto simp: recover_locks_def Let_def)
next
  from assms have rel: "fold_result (release_row budget_service_impl) (released_rows now (requests s))
      (s\<lparr>requests := recovered_rows now (requests s)\<rparr>) = Inr s'"
    by (simp add: recover_Inr)
  fix p assume "p \<in> set (projects s) - set (projects s')"
  then have "pj_id p \<in> rq_project_id ` set (released_rows now (requests s))"
    using releases_changes [OF rel] by simp
  then show "ProjectRow (pj_id p) \<in> set (recover_locks now (requests s))"
    by (auto simp: recover_locks_def project_locks_def Let_def)
next
  from assms have rel: "fold_result (release_row budget_service_impl) (released_rows now (requests s))
      (s\<lparr>requests := recovered_rows now (requests s)\<rparr>) = Inr s'"
    by (simp add: recover_Inr)
  fix k assume "k \<in> set (api_keys s) - set (api_keys s')"
  moreover have "api_keys s' = api_keys s"
    using budget.release_rows_tables [OF rel] by simp
  ultimately show "KeyRow (ak_id k) \<in> set (recover_locks now (requests s))" by simp
qed

lemma key_locked:
  "changed_rows s (replace_key k s) \<subseteq> set (key_locks k)"
  by (rule changed_rowsI) (auto simp: replace_key_def key_locks_def dest: changed_by_update)

lemma chat_locked:
  assumes "post_chat app clock authorization t_reserve t_expires rid created_at p header s redis =
    (Inr (Waiting i), s', redis')"
  shows "\<exists>k\<in>set (api_keys s). changed_rows s s' \<subseteq> set (chat_locks k)"
proof -
  from assms obtain k s1 where auth: "fst (require_api_key app (fst clock) (fst (snd clock)) (snd (snd clock))
      authorization s redis) = Inr (k, s1)"
    and handled: "create_chat t_reserve t_expires rid created_at p header k s1 = Inr (Waiting i, s')"
    by (auto simp: post_chat_def with_api_key_Inr)
  from auth obtain key_id k0 where k0: "select_key key_id s = Inr (Some k0)"
    and k: "k = counted (fst (snd clock)) k0" and s1: "s1 = replace_key k s"
    by (auto simp only: require_api_key_Inr)
  from handled obtain al project' d m s2
    where res: "reserve t_reserve (ak_project_id k) (reserved_tokens p) s1 = Inr ((project', d, m), s2)"
      and ins: "insert_request (queued_request rid created_at header project' k al p
          (t_expires + seconds 300) d m) s2 = Inr s'"
    by (auto simp: create_chat_Inr enqueue_Inr)
  from reserve_charged [OF res] have s2: "s2 = replace_project project' s1" and pj: "pj_id project' = ak_project_id k"
    by (auto simp: charged_def)
  obtain row where s': "s' = s2\<lparr>requests := requests s2 @ [row]\<rparr>" using ins by (auto simp: insert_request_Inr)
  have "changed_rows s s' \<subseteq> set (chat_locks k)"
  proof (rule changed_rowsI)
    fix q assume "q \<in> set (projects s) - set (projects s')"
    then have "pj_id q = ak_project_id k"
      unfolding pj [symmetric] by (auto simp: s' s2 s1 replace_project_def replace_key_def dest: changed_by_update)
    then show "ProjectRow (pj_id q) \<in> set (chat_locks k)" by (simp add: chat_locks_def project_locks_def)
  next
    fix q assume "q \<in> set (api_keys s) - set (api_keys s')"
    then have "ak_id q = ak_id k"
      by (auto simp: s' s2 s1 replace_project_def replace_key_def dest: changed_by_update)
    then show "KeyRow (ak_id q) \<in> set (chat_locks k)" by (simp add: chat_locks_def key_locks_def)
  qed (auto simp: s' s2 s1 replace_project_def replace_key_def)
  moreover have "chat_locks k = chat_locks k0" by (simp add: k chat_locks_def key_locks_def counted_def)
  ultimately show ?thesis using select_key_Some(1) [OF k0] by auto
qed

section \<open>Disciplines\<close>

text \<open>
  Two orders of the tables. Results lock the project before the key, chat requests the key before
  the project; errors, recoveries and operations on one key fit both.
\<close>

fun project_first :: "lock_target \<Rightarrow> nat" where
  "project_first (RequestRow _) = 0"
| "project_first (ProjectRow _) = 1"
| "project_first (KeyRow _) = 2"

fun key_first :: "lock_target \<Rightarrow> nat" where
  "key_first (RequestRow _) = 0"
| "key_first (KeyRow _) = 1"
| "key_first (ProjectRow _) = 2"

text \<open>One maintenance loop runs in a process, so there is one recovery at a time.\<close>

definition common_program :: "instant \<Rightarrow> orbi_request list \<Rightarrow> lock_target list \<Rightarrow> bool" where
  "common_program now rows p \<longleftrightarrow> p = recover_locks now rows \<or> (\<exists>b row. p = error_locks b row) \<or> (\<exists>k. p = key_locks k)"

definition result_program :: "instant \<Rightarrow> orbi_request list \<Rightarrow> lock_target list \<Rightarrow> bool" where
  "result_program now rows p \<longleftrightarrow> common_program now rows p \<or> (\<exists>row. p = commit_locks row)"

definition chat_program :: "instant \<Rightarrow> orbi_request list \<Rightarrow> lock_target list \<Rightarrow> bool" where
  "chat_program now rows p \<longleftrightarrow> common_program now rows p \<or> (\<exists>k. p = chat_locks k)"

lemma sorted_wrt_remdups: "sorted_wrt R xs \<Longrightarrow> sorted_wrt R (remdups xs)"
  by (induction xs) auto

lemma sorted_wrt_first_locks: "sorted_wrt R xs \<Longrightarrow> sorted_wrt R (first_locks xs)"
  using sorted_wrt_remdups [of "\<lambda>x y. R y x" "rev xs"] by (simp add: first_locks_def sorted_wrt_rev)

lemma sorted_wrt_level: "\<forall>x\<in>set xs. table x = n \<Longrightarrow> sorted_wrt (\<lambda>x y. table x \<le> (table y :: nat)) xs"
  by (induction xs) auto

lemma recover_locks_tables:
  fixes table :: "lock_target \<Rightarrow> nat"
  assumes "\<And>i. table (RequestRow i) = 0" and "\<And>i. table (ProjectRow i) = n"
  shows "sorted_wrt (\<lambda>x y. table x \<le> table y) (recover_locks now rows)"
  unfolding recover_locks_def Let_def
  by (rule sorted_wrt_first_locks)
    (auto simp: sorted_wrt_append assms project_locks_def simp del: map_append filter_append
      intro!: sorted_wrt_level [where table = table])

lemma distinct_recover_locks: "distinct (recover_locks now rows)"
  by (simp add: recover_locks_def Let_def)

lemma common_increasing:
  fixes table :: "lock_target \<Rightarrow> nat"
  assumes "common_program now rows p" and "\<And>i. table (RequestRow i) = 0" and "\<And>i. table (ProjectRow i) = n" and "0 < n"
  shows "sorted_wrt (\<lambda>x y. ordered_rank table (recover_locks now rows) x < ordered_rank table (recover_locks now rows) y) p"
  using assms(1) unfolding common_program_def
proof (elim disjE exE)
  assume "p = recover_locks now rows"
  then show ?thesis
    using ordered_rank_program [OF distinct_recover_locks recover_locks_tables [OF assms(2,3)]] by simp
next
  fix b row assume "p = error_locks b row"
  then show ?thesis
    using assms(2-4) by (auto simp: error_locks_def project_locks_def intro: ordered_rank_tables)
next
  fix k assume "p = key_locks k"
  then show ?thesis by (simp add: key_locks_def)
qed

interpretation results: lock_order "ordered_rank project_first (recover_locks now rows)" "result_program now rows"
  for now rows
proof
  fix p assume "result_program now rows p"
  then show "sorted_wrt (\<lambda>x y. ordered_rank project_first (recover_locks now rows) x
      < ordered_rank project_first (recover_locks now rows) y) p"
    unfolding result_program_def
  proof (elim disjE exE)
    fix row assume "p = commit_locks row"
    then show ?thesis by (auto simp: commit_locks_def project_locks_def intro: ordered_rank_tables)
  qed (rule common_increasing, auto)
qed

interpretation chats: lock_order "ordered_rank key_first (recover_locks now rows)" "chat_program now rows"
  for now rows
proof
  fix p assume "chat_program now rows p"
  then show "sorted_wrt (\<lambda>x y. ordered_rank key_first (recover_locks now rows) x
      < ordered_rank key_first (recover_locks now rows) y) p"
    unfolding chat_program_def
  proof (elim disjE exE)
    fix k assume "p = chat_locks k"
    then show ?thesis by (auto simp: chat_locks_def key_locks_def project_locks_def intro: ordered_rank_tables)
  qed (rule common_increasing, auto)
qed

section \<open>Properties\<close>

text \<open>C14. Locks cover writes: every request, project and key that an operation changes is locked by
  its transaction before, for an accepted result, a recorded error, a recovery and an admitted chat
  request. So no two of them change the same row at the same time.\<close>

theorem locks_cover_writes:
  "(\<forall>now uid rec req worker result i n lat s s' row.
      commit_result budget_service_impl now uid rec req worker result i n lat s = Inr (True, s')
      \<and> filter (held_by req worker) (requests s) = [row] \<longrightarrow> changed_rows s s' \<subseteq> set (commit_locks row))
   \<and> (\<forall>req worker retryable code m s s' row.
      record_error budget_service_impl req worker retryable code m s = Inr (True, s')
      \<and> filter (held_by req worker) (requests s) = [row] \<longrightarrow> changed_rows s s' \<subseteq> set (error_locks retryable row))
   \<and> (\<forall>now s n s'. recover_expired_leases budget_service_impl now s = Inr (n, s') \<longrightarrow>
      changed_rows s s' \<subseteq> set (recover_locks now (requests s)))
   \<and> (\<forall>clock authorization t_reserve t_expires rid created_at p header s redis i s' redis'.
      post_chat app clock authorization t_reserve t_expires rid created_at p header s redis =
        (Inr (Waiting i), s', redis') \<longrightarrow>
      (\<exists>k\<in>set (api_keys s). changed_rows s s' \<subseteq> set (chat_locks k)))"
  by (intro conjI allI impI; (elim conjE)?;
      (rule commit_locked | rule error_locked | rule recover_locked | rule chat_locked); assumption)

theorem locks_cover_writes_witness:
  "\<exists>s'. record_error budget_service_impl 1 (sample_worker 3) True ''e'' ''m'' (sample_db [assigned_request 1 3 100]) =
       Inr (True, s') \<and> changed_rows (sample_db [assigned_request 1 3 100]) s' \<subseteq> {RequestRow 1}"
proof -
  let ?s = "sample_db [assigned_request 1 3 100]"
  have held: "filter (held_by 1 (sample_worker 3)) (requests ?s) = [assigned_request 1 3 100]"
    by (simp add: sample_db_def held_by_def assigned_request_def sample_request_def sample_worker_def in_flight_def)
  have left: "retry_left (assigned_request 1 3 100)"
    by (simp add: retry_left_def assigned_request_def sample_request_def)
  obtain s' where err: "record_error budget_service_impl 1 (sample_worker 3) True ''e'' ''m'' ?s = Inr (True, s')"
    using record_error_True held left by (metis (full_types))
  then have "changed_rows ?s s' \<subseteq> set (error_locks True (assigned_request 1 3 100))"
    using held by (intro locks_cover_writes [where app = "sample_app sample_codec", THEN conjunct2, THEN conjunct1,
        rule_format] conjI)
  also have "\<dots> = {RequestRow 1}"
    using left by (simp add: error_locks_def) (simp add: assigned_request_def sample_request_def)
  finally show ?thesis using err by blast
qed

text \<open>The two orders, key before project and project before key, in each other's way.\<close>

lemma chat_and_result_deadlock:
  assumes "rq_api_key_id row = ak_id k" and "rq_project_id row = ak_project_id k"
  shows "\<exists>ts. lock_steps (begin_all [chat_locks k, commit_locks row]) ts \<and> deadlocked ts"
proof -
  let ?K = "KeyRow (ak_id k)" and ?P = "ProjectRow (ak_project_id k)" and ?R = "RequestRow (rq_id row)"
  let ?t0 = "[([], [?K, ?P]), ([], [?R, ?P, ?K])]" and ?t1 = "[([?K], [?P]), ([], [?R, ?P, ?K])]"
  let ?t2 = "[([?K], [?P]), ([?R], [?P, ?K])]" and ?t3 = "[([?K], [?P]), ([?P, ?R], [?K])]"
  have start: "begin_all [chat_locks k, commit_locks row] = ?t0"
    by (simp add: begin_all_def chat_locks_def key_locks_def project_locks_def commit_locks_def assms)
  have "lock_step ?t0 ?t1" using acquire [of 0 ?t0 "[]" ?K "[?P]"] by (simp add: less_Suc_eq)
  moreover have "lock_step ?t1 ?t2" using acquire [of 1 ?t1 "[]" ?R "[?P, ?K]"] by (simp add: less_Suc_eq)
  moreover have "lock_step ?t2 ?t3" using acquire [of 1 ?t2 "[?R]" ?P "[?K]"] by (simp add: less_Suc_eq)
  ultimately have run: "lock_steps ?t0 ?t3"
    by (intro converse_rtranclp_into_rtranclp [of lock_step ?t0 ?t1] converse_rtranclp_into_rtranclp [of lock_step ?t1 ?t2]
        r_into_rtranclp)
  have "\<not> lock_step ?t3 ts'" for ts'
  proof
    assume "lock_step ?t3 ts'"
    then show False
    proof cases
      case (acquire i held x wanted)
      then consider "i = 0" "x = ?P" | "i = 1" "x = ?K" by (auto simp: less_Suc_eq)
      then show False
      proof cases
        case 1
        with acquire(4) [rule_format, of 1] show False by simp
      next
        case 2
        with acquire(4) [rule_format, of 0] show False by simp
      qed
    qed (auto simp: less_Suc_eq)
  qed
  then have "deadlocked ?t3" by (simp add: deadlocked_def all_ended_def)
  with run show ?thesis unfolding start by blast
qed

text \<open>C15. Deadlocks. Without results, chat requests do not deadlock, and without chat requests results do not: any
  number of transactions of one side, with errors, uses and revocations of keys and one recovery,
  can always run to their end, whatever they have locked so far. Together they can: a chat request that has locked its key and a
  result for an earlier request of the same key that has locked the project wait for each other for ever.\<close>

theorem one_side_never_deadlocks:
  assumes "lock_steps (begin_all programs) ts"
    and "list_all (result_program now rows) programs \<or> list_all (chat_program now rows) programs"
  shows "\<not> deadlocked ts \<and> (\<exists>ts'. lock_steps ts ts' \<and> all_ended ts')
    \<and> (\<forall>k row. rq_api_key_id row = ak_id k \<and> rq_project_id row = ak_project_id k \<longrightarrow>
        (\<exists>ts. lock_steps (begin_all [chat_locks k, commit_locks row]) ts \<and> deadlocked ts))"
  using assms(2)
proof
  assume side: "list_all (result_program now rows) programs"
  show ?thesis
    using results.never_deadlocked [OF assms(1) side] results.all_can_end [OF assms(1) side] chat_and_result_deadlock by blast
next
  assume side: "list_all (chat_program now rows) programs"
  show ?thesis
    using chats.never_deadlocked [OF assms(1) side] chats.all_can_end [OF assms(1) side] chat_and_result_deadlock by blast
qed

theorem one_side_never_deadlocks_witness:
  "\<exists>ts'. lock_steps (begin_all [commit_locks (assigned_request 1 3 100), error_locks False (assigned_request 1 3 100)]) ts'
     \<and> all_ended ts'"
proof -
  have "list_all (result_program 0 []) [commit_locks (assigned_request 1 3 100), error_locks False (assigned_request 1 3 100)]"
    by (auto simp: result_program_def common_program_def)
  then show ?thesis using one_side_never_deadlocks [OF rtranclp.rtrancl_refl disjI1] by blast
qed

end
