(* ===== verification/Serial_Programs.thy ===== *)
theory Serial_Programs
  imports Serial_Runs Locking_Gateway
begin

text \<open>
  Claims, results, errors and the admission of chat requests as programs on locked rows. The
  view of a database has the rows under each identifier, the entries of the two unique indexes of the usage
  records, and those of the unique index of idempotency keys; concurrent inserts wait for each other on an entry.
  \<open>UPDATE\<close> and \<open>SELECT ... FOR UPDATE\<close> see the last committed version of the row once they have its lock, as
  PostgreSQL's \<open>READ COMMITTED\<close> has it. An identifier is locked whether or not a row answers the condition of the
  statement; a transaction that finds none has nothing left to do.
\<close>

datatype target =
    Locked lock_target
  | UsageEntry uuid
  | UsageFor uuid
  | IdempotencyEntry uuid string

datatype stored =
    Requests "orbi_request list"
  | Projects "project list"
  | Keys "api_key list"
  | Usages "usage_record list"
  | Entries "uuid list"

fun view :: "db \<Rightarrow> target \<Rightarrow> stored" where
  "view s (Locked (RequestRow i)) = Requests (filter (\<lambda>r. rq_id r = i) (requests s))"
| "view s (Locked (ProjectRow i)) = Projects (filter (\<lambda>p. pj_id p = i) (projects s))"
| "view s (Locked (KeyRow i)) = Keys (filter (\<lambda>k. ak_id k = i) (api_keys s))"
| "view s (UsageEntry i) = Usages (filter (\<lambda>u. ur_id u = i) (usage_records s))"
| "view s (UsageFor i) = Usages (filter (\<lambda>u. ur_request_id u = i) (usage_records s))"
| "view s (IdempotencyEntry a key) =
     Entries (map rq_id (filter (\<lambda>r. rq_api_key_id r = a \<and> rq_idempotency_key r = Some key) (requests s)))"

fun on_requests :: "(orbi_request list \<Rightarrow> orbi_request list) \<Rightarrow> stored \<Rightarrow> stored" where
  "on_requests f (Requests rs) = Requests (f rs)"
| "on_requests f v = v"

fun on_projects :: "(project \<Rightarrow> project) \<Rightarrow> stored \<Rightarrow> stored" where
  "on_projects f (Projects ps) = Projects (map f ps)"
| "on_projects f v = v"

fun on_keys :: "(api_key \<Rightarrow> api_key) \<Rightarrow> stored \<Rightarrow> stored" where
  "on_keys f (Keys ks) = Keys (map f ks)"
| "on_keys f v = v"

fun add_usage :: "usage_record \<Rightarrow> stored \<Rightarrow> stored" where
  "add_usage u (Usages us) = Usages (us @ [u])"
| "add_usage u v = v"

fun add_request :: "orbi_request \<Rightarrow> stored \<Rightarrow> stored" where
  "add_request r (Requests rs) = Requests (rs @ [r])"
| "add_request r (Entries ids) = Entries (ids @ [rq_id r])"
| "add_request r v = v"

fun requests_in :: "stored \<Rightarrow> orbi_request list" where
  "requests_in (Requests rs) = rs" | "requests_in v = []"

fun projects_in :: "stored \<Rightarrow> project list" where
  "projects_in (Projects ps) = ps" | "projects_in v = []"

fun keys_in :: "stored \<Rightarrow> api_key list" where
  "keys_in (Keys ks) = ks" | "keys_in v = []"

fun usages_in :: "stored \<Rightarrow> usage_record list" where
  "usages_in (Usages us) = us" | "usages_in v = []"

fun entries_in :: "stored \<Rightarrow> uuid list" where
  "entries_in (Entries ids) = ids" | "entries_in v = []"

type_synonym gateway_program = "(target, stored, bool) row_program"

section \<open>The programs\<close>

definition continue :: "'a result \<Rightarrow> ('a \<Rightarrow> gateway_program) \<Rightarrow> gateway_program" where
  "continue m k = (case m of Inl e \<Rightarrow> Raise e | Inr v \<Rightarrow> k v)"

definition project_fits :: "project \<Rightarrow> bool" where
  "project_fits p \<longleftrightarrow> fits_int8 (pj_daily_tokens_used p) \<and> fits_int8 (pj_monthly_tokens_used p)"

text \<open>The project's row, locked, changed and flushed.\<close>

definition change_project ::
  "uuid \<Rightarrow> (project \<Rightarrow> project result) \<Rightarrow> (project \<Rightarrow> gateway_program) \<Rightarrow> gateway_program" where
  "change_project project_id change rest =
     Access (Locked (ProjectRow project_id))
       (on_projects (\<lambda>p. case change p of Inl e \<Rightarrow> p | Inr p' \<Rightarrow> p'))
       (\<lambda>v. continue (scalar_one (projects_in v)) (\<lambda>p.
            continue (change p) (\<lambda>p'. if project_fits p' then rest p' else Raise DataError)))"

definition settle_rows :: "uuid \<Rightarrow> int \<Rightarrow> int \<Rightarrow> date \<Rightarrow> date \<Rightarrow> gateway_program \<Rightarrow> gateway_program" where
  "settle_rows project_id reserved actual_tokens budget_day budget_month rest =
     change_project project_id (\<lambda>p. Inr (settle_project (actual_tokens - reserved) budget_day budget_month p))
       (\<lambda>p. rest)"

definition key_fits :: "api_key \<Rightarrow> bool" where
  "key_fits k \<longleftrightarrow> fits_int8 (ak_total_requests k) \<and> fits_int8 (ak_total_tokens k)"

definition count_key :: "int \<Rightarrow> api_key \<Rightarrow> api_key" where
  "count_key total_tokens k = k\<lparr>ak_total_requests := ak_total_requests k + 1,
     ak_total_tokens := ak_total_tokens k + total_tokens\<rparr>"

definition count_rows :: "uuid \<Rightarrow> int \<Rightarrow> gateway_program \<Rightarrow> gateway_program" where
  "count_rows api_key_id total_tokens rest =
     Access (Locked (KeyRow api_key_id)) (on_keys (count_key total_tokens))
       (\<lambda>v. if list_all key_fits (map (count_key total_tokens) (keys_in v)) then rest else Raise DataError)"

definition usage_rows :: "usage_record \<Rightarrow> gateway_program \<Rightarrow> gateway_program" where
  "usage_rows u rest =
     (if \<not> (fits_int4 (ur_input_tokens u) \<and> fits_int4 (ur_output_tokens u) \<and> pred_option fits_int4 (ur_latency_ms u))
      then Raise DataError
      else Access (UsageEntry (ur_id u)) (add_usage u) (\<lambda>v. if usages_in v \<noteq> [] then Raise IntegrityError
      else Access (UsageFor (ur_request_id u)) (add_usage u) (\<lambda>v. if usages_in v \<noteq> [] then Raise IntegrityError
      else rest)))"

definition commit_program ::
  "instant \<Rightarrow> uuid \<Rightarrow> instant \<Rightarrow> uuid \<Rightarrow> worker \<Rightarrow> json \<Rightarrow> int \<Rightarrow> int \<Rightarrow> int \<Rightarrow> gateway_program" where
  "commit_program now usage_id recorded_at request_id worker result input_tokens output_tokens latency_ms =
     (if \<not> (fits_int4 input_tokens \<and> fits_int4 output_tokens) then Raise DataError
      else Access (Locked (RequestRow request_id))
        (on_requests (update_where (held_by request_id worker) (complete_request now result input_tokens output_tokens)))
        (\<lambda>v. continue (scalar_one_or_none (filter (held_by request_id worker) (requests_in v))) (\<lambda>found.
           case found of
             None \<Rightarrow> Return False
           | Some row \<Rightarrow>
               settle_rows (rq_project_id row) (rq_reserved_tokens row) (input_tokens + output_tokens)
                 (rq_budget_day row) (rq_budget_month row)
               (count_rows (rq_api_key_id row) (input_tokens + output_tokens)
               (usage_rows (usage_row usage_id recorded_at request_id worker row input_tokens output_tokens latency_ms)
               (Return True))))))"

definition failed_row :: "bool \<Rightarrow> string \<Rightarrow> string \<Rightarrow> orbi_request \<Rightarrow> orbi_request" where
  "failed_row retryable error_code message request =
     (let r1 = request\<lparr>rq_error_detail := Some (error_detail error_code message),
                       rq_assigned_to := None, rq_lease_expires := None\<rparr>
      in if retryable \<and> rq_retry_count r1 < rq_max_retries r1
         then r1\<lparr>rq_retry_count := rq_retry_count r1 + 1, rq_status := QUEUED\<rparr>
         else r1\<lparr>rq_status := FAILED_FINAL\<rparr>)"

definition error_program :: "uuid \<Rightarrow> worker \<Rightarrow> bool \<Rightarrow> string \<Rightarrow> string \<Rightarrow> gateway_program" where
  "error_program request_id worker retryable error_code message =
     Access (Locked (RequestRow request_id))
       (on_requests (\<lambda>rs. case filter (held_by request_id worker) rs of
            [r] \<Rightarrow> map (\<lambda>_. failed_row retryable error_code message r) rs
          | _ \<Rightarrow> rs))
       (\<lambda>v. continue (scalar_one_or_none (filter (held_by request_id worker) (requests_in v))) (\<lambda>found.
          case found of
            None \<Rightarrow> Return False
          | Some r \<Rightarrow>
              if retryable \<and> rq_retry_count r < rq_max_retries r then Return True
              else settle_rows (rq_project_id r) (rq_reserved_tokens r) 0 (rq_budget_day r) (rq_budget_month r)
                     (Return True)))"

text \<open>
  The admission of a chat request that has found no earlier one. The transaction has locked the key when it
  was authenticated, so that the foreign key finds it; the alias is read without a lock from the aliases, which none of
  these transactions changes.
\<close>

definition charge_rows :: "instant \<Rightarrow> uuid \<Rightarrow> int \<Rightarrow> (project \<Rightarrow> gateway_program) \<Rightarrow> gateway_program" where
  "charge_rows now project_id requested_tokens =
     change_project project_id (\<lambda>p.
       let rolled = roll_periods (utc_date now) (replace_day_1 (utc_date now)) p
       in map_error budget_error (bind_result (enforce_budget (snapshot_of rolled) requested_tokens) (\<lambda>_.
            Inr (charge_project requested_tokens rolled))))"

definition insert_rows :: "orbi_request \<Rightarrow> bool \<Rightarrow> gateway_program \<Rightarrow> gateway_program" where
  "insert_rows r key_found rest =
     (let conflict = Raise (conflict_error IntegrityError);
          insert_entry = (if key_found then rest else conflict)
      in if \<not> fits_int4 (rq_reserved_tokens r) \<or> json_has_nul (rq_payload r) then Raise DataError
         else Access (Locked (RequestRow (rq_id r))) (add_request r) (\<lambda>v. if requests_in v \<noteq> [] then conflict else
           case rq_idempotency_key r of
             None \<Rightarrow> insert_entry
           | Some key \<Rightarrow> Access (IdempotencyEntry (rq_api_key_id r) key) (add_request r) (\<lambda>v.
               if entries_in v \<noteq> [] then conflict else insert_entry)))"

definition enqueue_program ::
  "model_alias list \<Rightarrow> instant \<Rightarrow> instant \<Rightarrow> uuid \<Rightarrow> instant \<Rightarrow> chat_completion_request \<Rightarrow> string option \<Rightarrow> api_key \<Rightarrow>
     gateway_program" where
  "enqueue_program aliases t_reserve t_expires rid created_at p key k =
     Access (Locked (KeyRow (ak_id k))) id (\<lambda>keys.
     continue (if has_nul (cc_model p) then Inl DataError
               else scalar_one_or_none (filter (\<lambda>a. ma_alias a = cc_model p \<and> ma_is_active a) aliases)) (\<lambda>found.
       case found of
         None \<Rightarrow> Raise (OrbiError ''model_not_found'' ''Requested model alias is unavailable.'' 404)
       | Some alias \<Rightarrow>
           charge_rows t_reserve (ak_project_id k) (reserved_tokens p) (\<lambda>project.
           insert_rows
             (queued_request rid created_at key project k alias p (t_expires + seconds 300)
                (utc_date t_reserve) (replace_day_1 (utc_date t_reserve)))
             (keys_in keys \<noteq> []) (Return True))))"

text \<open>
  A claim, from the moment when \<open>SKIP LOCKED\<close> has come to a row that it could lock. Which one that is
  depends on the snapshot and on the locks of the others, so it is a parameter; the conditions are checked again on
  the last committed version of the row, and the claim is empty when they no longer hold.
\<close>

definition claim_program ::
  "(json \<Rightarrow> json \<Rightarrow> bool) \<Rightarrow> instant \<Rightarrow> worker \<Rightarrow> int \<Rightarrow> uuid \<Rightarrow> gateway_program" where
  "claim_program jsonb_contained now worker lease_seconds reached =
     Access (Locked (RequestRow reached))
       (on_requests (\<lambda>rs. case sort_key claim_order (filter (claimable jsonb_contained now worker) rs) of
            [] \<Rightarrow> rs
          | r # _ \<Rightarrow> map (\<lambda>_. assign_row now worker lease_seconds r) rs))
       (\<lambda>v. Return (filter (claimable jsonb_contained now worker) (requests_in v) \<noteq> []))"

section \<open>The operations\<close>

datatype operation =
    ResultOf instant uuid instant uuid worker json int int int
  | ErrorOf uuid worker bool string string
  | EnqueueOf instant instant uuid instant chat_completion_request "string option" api_key
  | ClaimOf instant worker int uuid

fun program_of :: "(json \<Rightarrow> json \<Rightarrow> bool) \<Rightarrow> model_alias list \<Rightarrow> operation \<Rightarrow> gateway_program" where
  "program_of jc aliases (ResultOf now uid rec req w result i n lat) = commit_program now uid rec req w result i n lat"
| "program_of jc aliases (ErrorOf req w retryable code m) = error_program req w retryable code m"
| "program_of jc aliases (EnqueueOf t_reserve t_expires rid created p key k) =
     enqueue_program aliases t_reserve t_expires rid created p key k"
| "program_of jc aliases (ClaimOf now w lease reached) = claim_program jc now w lease reached"

text \<open>A claim that has come to a row is one for which all others are locked.\<close>

fun apply_operation :: "(json \<Rightarrow> json \<Rightarrow> bool) \<Rightarrow> operation \<Rightarrow> db \<Rightarrow> (bool \<times> db) result" where
  "apply_operation jc (ResultOf now uid rec req w result i n lat) s =
     commit_result budget_service_impl now uid rec req w result i n lat s"
| "apply_operation jc (ErrorOf req w retryable code m) s = record_error budget_service_impl req w retryable code m s"
| "apply_operation jc (EnqueueOf t_reserve t_expires rid created p key k) s =
     bind_result (enqueue t_reserve t_expires rid created p key k s) (\<lambda>(_, s'). Inr (True, s'))"
| "apply_operation jc (ClaimOf now w lease reached) s =
     (let (found, s') = claim_next jc (- {reached}) now w lease s in Inr (found \<noteq> None, s'))"

text \<open>The totals of the stored keys are values of their columns, identifiers are unique, and the aliases are those
  that the programs read.\<close>

definition totals_fit :: "db \<Rightarrow> bool" where
  "totals_fit s \<longleftrightarrow> list_all key_fits (api_keys s)"

definition tidy :: "model_alias list \<Rightarrow> db \<Rightarrow> bool" where
  "tidy aliases s \<longleftrightarrow> totals_fit s \<and> distinct (map rq_id (requests s)) \<and> model_aliases s = aliases"

section \<open>The view of a change\<close>

text \<open>A change of the rows under one identifier that keeps what identifies them.\<close>

definition keeps_identity :: "(orbi_request \<Rightarrow> orbi_request) \<Rightarrow> orbi_request \<Rightarrow> bool" where
  "keeps_identity f r \<longleftrightarrow> rq_id (f r) = rq_id r \<and> rq_api_key_id (f r) = rq_api_key_id r
     \<and> rq_idempotency_key (f r) = rq_idempotency_key r"

lemma update_entries:
  assumes "\<And>r. r \<in> set rows \<Longrightarrow> P r \<Longrightarrow> keeps_identity f r"
  shows "map rq_id (filter (\<lambda>r. rq_api_key_id r = a \<and> rq_idempotency_key r = Some key) (update_where P f rows)) =
    map rq_id (filter (\<lambda>r. rq_api_key_id r = a \<and> rq_idempotency_key r = Some key) rows)"
  using assms by (induction rows) (auto simp: update_where_def keeps_identity_def)

lemma update_rows:
  assumes "\<And>r. P r \<Longrightarrow> rq_id r = a" and "\<And>r. r \<in> set rows \<Longrightarrow> P r \<Longrightarrow> keeps_identity f r"
  shows "filter (\<lambda>r. rq_id r = i) (update_where P f rows) =
    (if i = a then update_where P f (filter (\<lambda>r. rq_id r = i) rows) else filter (\<lambda>r. rq_id r = i) rows)"
  using assms by (induction rows) (auto simp: update_where_def keeps_identity_def)

lemma view_requests:
  assumes "\<And>r. P r \<Longrightarrow> rq_id r = a" and "\<And>r. r \<in> set (requests s) \<Longrightarrow> P r \<Longrightarrow> keeps_identity f r"
  shows "view (s\<lparr>requests := update_where P f (requests s)\<rparr>) =
    (view s)(Locked (RequestRow a) := Requests (update_where P f (filter (\<lambda>r. rq_id r = a) (requests s))))"
proof
  note rows = update_rows [of P a "requests s" f, OF assms] update_entries [of "requests s" P f, OF assms(2)]
  fix x show "view (s\<lparr>requests := update_where P f (requests s)\<rparr>) x =
      ((view s)(Locked (RequestRow a) := Requests (update_where P f (filter (\<lambda>r. rq_id r = a) (requests s))))) x"
    by (cases "(s, x)" rule: view.cases) (auto simp: rows)
qed

lemma view_set_request:
  assumes "distinct (map rq_id (requests s))" and "q \<in> set (requests s)" and "keeps_identity (\<lambda>_. r) q"
  shows "view (set_request r s) =
    (view s)(Locked (RequestRow (rq_id q)) := Requests (map (\<lambda>_. r) (filter (\<lambda>r. rq_id r = rq_id q) (requests s))))"
proof -
  have only: "r' = q" if "r' \<in> set (requests s)" "rq_id r' = rq_id q" for r'
    using assms(1,2) that by (simp add: distinct_map inj_on_def)
  have "rq_id r = rq_id q" using assms(3) by (simp add: keeps_identity_def)
  moreover have "update_where (\<lambda>r. rq_id r = rq_id q) (\<lambda>_. r) (filter (\<lambda>r. rq_id r = rq_id q) rows) =
      map (\<lambda>_. r) (filter (\<lambda>r. rq_id r = rq_id q) rows)" for rows by (simp add: update_where_def)
  moreover have "keeps_identity (\<lambda>_. r) r'" if "r' \<in> set (requests s)" "rq_id r' = rq_id q" for r'
    using only [OF that] assms(3) by simp
  ultimately show ?thesis
    using view_requests [of "\<lambda>r. rq_id r = rq_id q" "rq_id q" s "\<lambda>_. r"] by (simp add: set_request_def)
qed

lemma view_projects:
  assumes "filter (\<lambda>q. pj_id q = a) (projects s) = [p]" and "pj_id p' = a"
  shows "view (s\<lparr>projects := update_where (\<lambda>q. pj_id q = a) (\<lambda>_. p') (projects s)\<rparr>) =
    (view s)(Locked (ProjectRow a) := Projects [p'])"
proof -
  have rows: "filter (\<lambda>q. pj_id q = i) (update_where (\<lambda>q. pj_id q = a) (\<lambda>_. p') ps) =
      (if i = a then map (\<lambda>_. p') (filter (\<lambda>q. pj_id q = a) ps) else filter (\<lambda>q. pj_id q = i) ps)" for i ps
    using assms(2) by (induction ps) (auto simp: update_where_def)
  show ?thesis
  proof
    fix x show "view (s\<lparr>projects := update_where (\<lambda>q. pj_id q = a) (\<lambda>_. p') (projects s)\<rparr>) x =
        ((view s)(Locked (ProjectRow a) := Projects [p'])) x"
      by (cases "(s, x)" rule: view.cases) (auto simp: rows assms(1))
  qed
qed

lemma view_keys:
  assumes "\<And>k. ak_id (f k) = ak_id k"
  shows "view (s\<lparr>api_keys := update_where (\<lambda>k. ak_id k = a) f (api_keys s)\<rparr>) =
    (view s)(Locked (KeyRow a) := Keys (map f (filter (\<lambda>k. ak_id k = a) (api_keys s))))"
proof -
  have rows: "filter (\<lambda>k. ak_id k = i) (update_where (\<lambda>k. ak_id k = a) f ks) =
      (if i = a then map f (filter (\<lambda>k. ak_id k = a) ks) else filter (\<lambda>k. ak_id k = i) ks)" for i ks
    using assms by (induction ks) (auto simp: update_where_def)
  show ?thesis
  proof
    fix x show "view (s\<lparr>api_keys := update_where (\<lambda>k. ak_id k = a) f (api_keys s)\<rparr>) x =
        ((view s)(Locked (KeyRow a) := Keys (map f (filter (\<lambda>k. ak_id k = a) (api_keys s))))) x"
      by (cases "(s, x)" rule: view.cases) (auto simp: rows)
  qed
qed

lemma view_usage:
  "view (s\<lparr>usage_records := usage_records s @ [u]\<rparr>) = (view s)
     (UsageEntry (ur_id u) := Usages (filter (\<lambda>v. ur_id v = ur_id u) (usage_records s) @ [u]),
      UsageFor (ur_request_id u) := Usages (filter (\<lambda>v. ur_request_id v = ur_request_id u) (usage_records s) @ [u]))"
  (is "?l = ?r")
proof
  fix x show "?l x = ?r x" by (cases "(s, x)" rule: view.cases) auto
qed

lemma view_insert:
  "view (s\<lparr>requests := requests s @ [r]\<rparr>) =
     (case rq_idempotency_key r of
        None \<Rightarrow> (view s)
          (Locked (RequestRow (rq_id r)) := add_request r (view s (Locked (RequestRow (rq_id r)))))
      | Some key \<Rightarrow> (view s)
          (Locked (RequestRow (rq_id r)) := add_request r (view s (Locked (RequestRow (rq_id r)))),
           IdempotencyEntry (rq_api_key_id r) key := add_request r (view s (IdempotencyEntry (rq_api_key_id r) key))))"
  (is "?l = ?r")
proof
  fix x show "?l x = ?r x" by (cases "(s, x)" rule: view.cases) (auto split: option.split)
qed

end
