(* ===== verification/Serial_Gateway.thy ===== *)
theory Serial_Gateway
  imports Serial_Programs Queue_Properties
begin

text \<open>
  The programs of \<open>Serial_Programs\<close> implement the operations of the model, lock the rows that \<open>Locking_Gateway\<close>
  examines, and hand requests out and back in balance; so concurrent ones are serializable.
\<close>

section \<open>The programs implement the operations\<close>

text \<open>A program and a change of the database that come to the same, followed by the same rest.\<close>

definition does :: "(gateway_program \<Rightarrow> gateway_program) \<Rightarrow> db \<Rightarrow> db result \<Rightarrow> bool" where
  "does P s m \<longleftrightarrow>
     (\<forall>rest. case m of
        Inl e \<Rightarrow> fst (run_program (P rest) (view s)) = Inl e
      | Inr s' \<Rightarrow> run_program (P rest) (view s) = run_program rest (view s'))"

lemma doesD:
  "does P s (Inr s') \<Longrightarrow> run_program (P rest) (view s) = run_program rest (view s')"
  "does P s (Inl e) \<Longrightarrow> fst (run_program (P rest) (view s)) = Inl e"
  by (simp_all add: does_def)

text \<open>The same for a change with a value, on which the rest depends.\<close>

definition gives :: "(('a \<Rightarrow> gateway_program) \<Rightarrow> gateway_program) \<Rightarrow> db \<Rightarrow> ('a \<times> db) result \<Rightarrow> bool" where
  "gives P s m \<longleftrightarrow>
     (\<forall>rest. case m of
        Inl e \<Rightarrow> fst (run_program (P rest) (view s)) = Inl e
      | Inr (v, s') \<Rightarrow> run_program (P rest) (view s) = run_program (rest v) (view s'))"

lemma change_project_gives:
  assumes "\<And>p p'. change p = Inr p' \<Longrightarrow> pj_id p' = pj_id p"
  shows "gives (change_project pid change) s
    (bind_result (select_project pid s) (\<lambda>p. bind_result (change p) (\<lambda>p'.
       bind_result (flush_project p' s) (\<lambda>s'. Inr (p', s')))))"
proof (cases "select_project pid s")
  case (Inl e)
  then show ?thesis by (simp add: gives_def change_project_def select_project_def continue_def)
next
  case (Inr p)
  then have rows: "filter (\<lambda>q. pj_id q = pid) (projects s) = [p]" by (simp add: select_project_def scalar_one_eq_Inr)
  then have pid: "pj_id p = pid" by (auto dest: filter_eq_singletonD)
  show ?thesis
  proof (cases "change p")
    case (Inl e)
    then show ?thesis using Inr rows by (simp add: gives_def change_project_def continue_def)
  next
    case (Inr p')
    then have id': "pj_id p' = pid" using assms pid by simp
    show ?thesis
      using \<open>select_project pid s = Inr p\<close> Inr rows view_projects [OF rows id'] id'
      by (cases "project_fits p'") (auto simp: gives_def change_project_def continue_def flush_project_def project_fits_def)
  qed
qed

lemma gives_does:
  assumes "gives P s (bind_result m (\<lambda>s'. Inr (h s', s')))"
  shows "does (\<lambda>rest. P (\<lambda>v. rest)) s m"
  using assms by (cases m) (simp_all add: gives_def does_def)

lemma settle_rows_does: "does (settle_rows pid reserved actual d m) s (reconcile pid reserved actual d m s)"
proof -
  let ?change = "\<lambda>p. Inr (settle_project (actual - reserved) d m p) :: project result"
  have "gives (change_project pid ?change) s (bind_result (select_project pid s) (\<lambda>p.
      bind_result (flush_project (settle_project (actual - reserved) d m p) s) (\<lambda>s'.
        Inr (settle_project (actual - reserved) d m p, s'))))"
    using change_project_gives [of ?change pid s] by simp
  then show ?thesis
    by (cases "select_project pid s")
      (auto simp: gives_def does_def reconcile_def settle_rows_def flush_project_def split: if_splits)
qed

lemma charge_rows_gives:
  "gives (charge_rows now pid n) s
    (bind_result (map_error budget_error (reserve now pid n s)) (\<lambda>((p, d, m), s'). Inr (p, s')))"
proof -
  let ?change = "\<lambda>p. let rolled = roll_periods (utc_date now) (replace_day_1 (utc_date now)) p
      in map_error budget_error (bind_result (enforce_budget (snapshot_of rolled) n) (\<lambda>_. Inr (charge_project n rolled)))"
  have id: "pj_id p' = pj_id p" if "?change p = Inr p'" for p p'
    using that by (auto simp: Let_def bind_result_eq_Inr charge_project_def roll_periods_def)
  have select: "budget_error e = e" if "select_project pid s = Inl e" for e
    using that by (cases "filter (\<lambda>q. pj_id q = pid) (projects s)" rule: scalar_one.cases) (auto simp: select_project_def)
  have flush: "budget_error e = e" if "flush_project p s = Inl e" for p e
    using that by (auto simp: flush_project_def split: if_splits)
  have "bind_result (map_error budget_error (reserve now pid n s)) (\<lambda>((p, d, m), s'). Inr (p, s')) =
      bind_result (select_project pid s) (\<lambda>p. bind_result (?change p) (\<lambda>p'.
        bind_result (flush_project p' s) (\<lambda>s'. Inr (p', s'))))"
    by (auto simp: reserve_def bind_result_def map_error_def Let_def select flush simp del: enforce_budget_Inr split: sum.split)
  moreover have "gives (charge_rows now pid n) s (bind_result (select_project pid s) (\<lambda>p. bind_result (?change p) (\<lambda>p'.
        bind_result (flush_project p' s) (\<lambda>s'. Inr (p', s')))))"
    unfolding charge_rows_def by (rule change_project_gives) (rule id)
  ultimately show ?thesis by simp
qed

lemma count_rows_does:
  assumes "totals_fit s"
  shows "does (count_rows kid tokens) s (count_completion kid tokens s)"
proof -
  have "list_all key_fits (update_where (\<lambda>k. ak_id k = kid) (count_key tokens) ks) \<longleftrightarrow>
      list_all key_fits (map (count_key tokens) (filter (\<lambda>k. ak_id k = kid) ks))" if "list_all key_fits ks" for ks
    using that by (induction ks) (auto simp: update_where_def)
  note this [of "api_keys s"]
  moreover have "(\<lambda>k. k\<lparr>ak_total_requests := ak_total_requests k + 1, ak_total_tokens := ak_total_tokens k + tokens\<rparr>) = count_key tokens"
    "(\<lambda>k. fits_int8 (ak_total_requests k) \<and> fits_int8 (ak_total_tokens k)) = key_fits"
    by (simp_all add: fun_eq_iff count_key_def key_fits_def)
  moreover have "ak_id (count_key tokens k) = ak_id k" for k by (simp add: count_key_def)
  ultimately show ?thesis
    using assms by (simp add: does_def count_rows_def count_completion_def Let_def view_keys totals_fit_def)
qed

lemma usage_entries:
  "filter (\<lambda>v. ur_id v = a) us = [] \<longleftrightarrow> a \<notin> ur_id ` set us"
  "filter (\<lambda>v. ur_request_id v = a) us = [] \<longleftrightarrow> a \<notin> ur_request_id ` set us"
  by (auto simp: filter_empty_conv)

lemma usage_rows_does: "does (usage_rows u) s (insert_usage u s)"
  by (simp add: does_def usage_rows_def insert_usage_def view_usage usage_entries)

definition implements :: "db \<Rightarrow> gateway_program \<Rightarrow> (bool \<times> db) result \<Rightarrow> bool" where
  "implements s P m \<longleftrightarrow>
     (case m of
        Inl e \<Rightarrow> fst (run_program P (view s)) = Inl e
      | Inr (r, s') \<Rightarrow> run_program P (view s) = (Inr r, view s'))"

lemma implements_Return [simp]: "implements s (Return r) (Inr (r, s))"
  by (simp add: implements_def)

lemma implements_Raise [simp]: "implements s (Raise e) (Inl e)"
  by (simp add: implements_def)

lemma implements_continue:
  assumes "\<And>v. m = Inr v \<Longrightarrow> implements s (k v) (h v)"
  shows "implements s (continue m k) (bind_result m h)"
  using assms by (cases m) (simp_all add: continue_def)

lemma implements_Access:
  assumes "view s1 = (view s)(x := w (view s x))" and "implements s1 (k (view s x)) m"
  shows "implements s (Access x w k) m"
proof -
  have "run_program (Access x w k) (view s) = run_program (k (view s x)) (view s1)" by (simp add: assms(1))
  with assms(2) show ?thesis by (simp only: implements_def)
qed

lemma implements_does:
  assumes "does P s m" and "\<And>s'. m = Inr s' \<Longrightarrow> implements s' rest (k s')"
  shows "implements s (P rest) (bind_result m k)"
proof (cases m)
  case (Inl e)
  with assms(1) show ?thesis by (simp add: does_def implements_def)
next
  case (Inr s')
  with assms(1) have "run_program (P rest) (view s) = run_program rest (view s')" by (simp add: does_def)
  with assms(2) [OF Inr] Inr show ?thesis by (simp only: implements_def bind_result_Inr)
qed

lemma implements_gives:
  assumes "gives P s m" and "\<And>v s'. m = Inr (v, s') \<Longrightarrow> implements s' (rest v) (k (v, s'))"
  shows "implements s (P rest) (bind_result m k)"
proof (cases m)
  case (Inl e)
  with assms(1) show ?thesis by (simp add: gives_def implements_def)
next
  case (Inr vs)
  obtain v s' where vs: "vs = (v, s')" by fastforce
  with assms(1) Inr have "run_program (P rest) (view s) = run_program (rest v) (view s')" by (simp add: gives_def)
  with assms(2) [of v s'] Inr vs show ?thesis by (simp only: implements_def bind_result_Inr)
qed

text \<open>The selection of the held row sees only the rows of its identifier.\<close>

lemma held_rows:
  "filter (held_by req w) (filter (\<lambda>r. rq_id r = req) rows) = filter (held_by req w) rows"
  "filter (\<lambda>r. rq_id r = req \<and> held_by req w r) rows = filter (held_by req w) rows"
  by (induction rows) (auto simp: held_by_def)

lemma totals_fit_keys: "api_keys s' = api_keys s \<Longrightarrow> totals_fit s \<Longrightarrow> totals_fit s'"
  by (simp add: totals_fit_def)

lemma view_committed:
  "view (s\<lparr>requests := update_where (held_by req w) (complete_request now result i n) (requests s)\<rparr>) =
    (view s)(Locked (RequestRow req) :=
      on_requests (update_where (held_by req w) (complete_request now result i n)) (view s (Locked (RequestRow req))))"
  by (subst view_requests [of "held_by req w" req]) (auto simp: held_by_def keeps_identity_def complete_request_def)

lemma commit_program_implements:
  assumes "totals_fit s"
  shows "implements s (commit_program now uid rec req w result i n lat)
    (commit_result budget_service_impl now uid rec req w result i n lat s)"
proof (cases "fits_int4 i \<and> fits_int4 n")
  case False
  then show ?thesis by (simp add: commit_program_def commit_result_def)
next
  case True
  let ?f = "complete_request now result i n"
  let ?s1 = "s\<lparr>requests := update_where (held_by req w) ?f (requests s)\<rparr>"
  note view1 = view_committed [where s = s and req = req and w = w and now = now and result = result and i = i and n = n]
  have settle: "implements ?s1
      (settle_rows (rq_project_id row) (rq_reserved_tokens row) (i + n) (rq_budget_day row) (rq_budget_month row)
        (count_rows (rq_api_key_id row) (i + n) (usage_rows (usage_row uid rec req w row i n lat) (Return True))))
      (bind_result (reconcile (rq_project_id row) (rq_reserved_tokens row) (i + n) (rq_budget_day row) (rq_budget_month row) ?s1)
        (\<lambda>s2. bind_result (count_completion (rq_api_key_id row) (i + n) s2)
        (\<lambda>s3. bind_result (insert_usage (usage_row uid rec req w row i n lat) s3) (\<lambda>s4. Inr (True, s4)))))" for row
  proof (rule implements_does [OF settle_rows_does])
    fix s2 assume "reconcile (rq_project_id row) (rq_reserved_tokens row) (i + n) (rq_budget_day row) (rq_budget_month row) ?s1 = Inr s2"
    from reconcile_frame(1) [OF this] have "api_keys s2 = api_keys s" by (cases s2) simp
    then have "totals_fit s2" using assms by (rule totals_fit_keys)
    note counts = count_rows_does [OF this]
    show "implements s2 (count_rows (rq_api_key_id row) (i + n) (usage_rows (usage_row uid rec req w row i n lat) (Return True)))
        (bind_result (count_completion (rq_api_key_id row) (i + n) s2)
          (\<lambda>s3. bind_result (insert_usage (usage_row uid rec req w row i n lat) s3) (\<lambda>s4. Inr (True, s4))))"
      by (rule implements_does [OF counts], rule implements_does [OF usage_rows_does]) simp
  qed
  let ?rest = "\<lambda>row. settle_rows (rq_project_id row) (rq_reserved_tokens row) (i + n) (rq_budget_day row) (rq_budget_month row)
        (count_rows (rq_api_key_id row) (i + n) (usage_rows (usage_row uid rec req w row i n lat) (Return True)))"
  let ?k = "\<lambda>v. continue (scalar_one_or_none (filter (held_by req w) (requests_in v)))
      (\<lambda>found. case found of None \<Rightarrow> Return False | Some row \<Rightarrow> ?rest row)"
  let ?m = "bind_result (scalar_one_or_none (filter (held_by req w) (requests s))) (\<lambda>found.
        case found of
          None \<Rightarrow> Inr (False, ?s1)
        | Some row \<Rightarrow>
            bind_result (reconcile (rq_project_id row) (rq_reserved_tokens row) (i + n) (rq_budget_day row) (rq_budget_month row) ?s1)
              (\<lambda>s2. bind_result (count_completion (rq_api_key_id row) (i + n) s2)
              (\<lambda>s3. bind_result (insert_usage (usage_row uid rec req w row i n lat) s3) (\<lambda>s4. Inr (True, s4)))))"
  have "implements ?s1 (case found of None \<Rightarrow> Return False | Some row \<Rightarrow> ?rest row)
      (case found of None \<Rightarrow> Inr (False, ?s1)
        | Some row \<Rightarrow>
            bind_result (reconcile (rq_project_id row) (rq_reserved_tokens row) (i + n) (rq_budget_day row) (rq_budget_month row) ?s1)
              (\<lambda>s2. bind_result (count_completion (rq_api_key_id row) (i + n) s2)
              (\<lambda>s3. bind_result (insert_usage (usage_row uid rec req w row i n lat) s3) (\<lambda>s4. Inr (True, s4)))))" for found
    using settle by (cases found) simp_all
  then have "implements ?s1 (?k (view s (Locked (RequestRow req)))) ?m"
    unfolding view.simps requests_in.simps held_rows by (intro implements_continue)
  from implements_Access [where x = "Locked (RequestRow req)" and k = ?k
      and w = "on_requests (update_where (held_by req w) ?f)", OF view1 this] True show ?thesis
    by (simp add: commit_program_def commit_result_def Let_def budget_service_impl_def)
qed

lemma view_failed:
  assumes held: "filter (held_by req w) (requests s) = [r]" and "distinct (map rq_id (requests s))"
  shows "view (set_request (failed_row retryable code message r) s) = (view s)(Locked (RequestRow req) :=
    on_requests (\<lambda>rs. case filter (held_by req w) rs of
        [r] \<Rightarrow> map (\<lambda>_. failed_row retryable code message r) rs | _ \<Rightarrow> rs)
      (view s (Locked (RequestRow req))))"
proof -
  have r: "r \<in> set (requests s)" "rq_id r = req" using held by (auto dest: filter_eq_singletonD simp: held_by_def)
  moreover have "keeps_identity (\<lambda>_. failed_row retryable code message r) r"
    by (simp add: keeps_identity_def failed_row_def Let_def)
  ultimately show ?thesis using view_set_request [OF assms(2)] by (simp add: held held_rows)
qed

lemma error_program_implements:
  assumes ids: "distinct (map rq_id (requests s))"
  shows "implements s (error_program req w retryable code message)
    (record_error budget_service_impl req w retryable code message s)"
proof -
  let ?w = "on_requests (\<lambda>rs. case filter (held_by req w) rs of
      [r] \<Rightarrow> map (\<lambda>_. failed_row retryable code message r) rs | _ \<Rightarrow> rs)"
  let ?k = "\<lambda>v. continue (scalar_one_or_none (filter (held_by req w) (requests_in v))) (\<lambda>found.
      case found of
        None \<Rightarrow> Return False
      | Some r \<Rightarrow>
          if retryable \<and> rq_retry_count r < rq_max_retries r then Return True
          else settle_rows (rq_project_id r) (rq_reserved_tokens r) 0 (rq_budget_day r) (rq_budget_month r) (Return True))"
  note access = implements_Access [where x = "Locked (RequestRow req)" and w = ?w and k = ?k]
  let ?held = "filter (held_by req w) (requests s)"
  have program: "error_program req w retryable code message = Access (Locked (RequestRow req)) ?w ?k"
    by (simp add: error_program_def)
  show ?thesis
  proof (cases "scalar_one_or_none ?held")
    case (Inl e)
    then show ?thesis
      by (simp add: program record_error_def implements_def held_rows continue_def)
  next
    case (Inr found)
    show ?thesis
    proof (cases found)
      case None
      then have "?held = []" using Inr by (simp add: scalar_one_or_none_eq_None)
      then have "view s = (view s)(Locked (RequestRow req) := ?w (view s (Locked (RequestRow req))))"
        by (auto simp: fun_eq_iff held_rows)
      moreover have "implements s (?k (view s (Locked (RequestRow req)))) (Inr (False, s))"
        using \<open>?held = []\<close> by (simp add: held_rows continue_def)
      ultimately have "implements s (Access (Locked (RequestRow req)) ?w ?k) (Inr (False, s))" by (rule access)
      with \<open>?held = []\<close> show ?thesis by (simp add: program record_error_def)
    next
      case (Some r)
      then have held: "?held = [r]" using Inr by (simp add: scalar_one_or_none_eq_Some)
      let ?r = "failed_row retryable code message r"
      let ?s1 = "set_request ?r s"
      have "view ?s1 = (view s)(Locked (RequestRow req) := ?w (view s (Locked (RequestRow req))))"
        using held ids by (rule view_failed)
      moreover have "implements ?s1 (?k (view s (Locked (RequestRow req))))
          (if retryable \<and> rq_retry_count r < rq_max_retries r then Inr (True, ?s1)
           else bind_result (release (rq_project_id r) (rq_reserved_tokens r) (rq_budget_day r) (rq_budget_month r) ?s1)
             (\<lambda>s'. Inr (True, s')))"
        unfolding release_def using held
        by (auto simp: held_rows continue_def intro!: implements_does [OF settle_rows_does])
      ultimately have "implements s (Access (Locked (RequestRow req)) ?w ?k)
          (if retryable \<and> rq_retry_count r < rq_max_retries r then Inr (True, ?s1)
           else bind_result (release (rq_project_id r) (rq_reserved_tokens r) (rq_budget_day r) (rq_budget_month r) ?s1)
             (\<lambda>s'. Inr (True, s')))"
        by (rule access)
      moreover have "record_error budget_service_impl req w retryable code message s =
          (if retryable \<and> rq_retry_count r < rq_max_retries r then Inr (True, ?s1)
           else bind_result (release (rq_project_id r) (rq_reserved_tokens r) (rq_budget_day r) (rq_budget_month r) ?s1)
             (\<lambda>s'. Inr (True, s')))"
        using held by (simp add: record_error_def Let_def failed_row_def budget_service_impl_def)
      ultimately show ?thesis unfolding program by simp
    qed
  qed
qed

lemma request_entries:
  "filter (\<lambda>q. rq_id q = i) rows = [] \<longleftrightarrow> i \<notin> rq_id ` set rows"
  "filter (\<lambda>q. rq_api_key_id q = a \<and> rq_idempotency_key q = Some key) rows = [] \<longleftrightarrow>
     (a, Some key) \<notin> (\<lambda>q. (rq_api_key_id q, rq_idempotency_key q)) ` set rows"
  by (auto simp: filter_empty_conv image_iff)

lemma insert_rows_does:
  assumes "rq_project_id r \<in> pj_id ` set (projects s)" and "key_found \<longleftrightarrow> rq_api_key_id r \<in> ak_id ` set (api_keys s)"
  shows "does (insert_rows r key_found) s (map_error conflict_error (insert_request r s))"
  using assms
  by (cases "rq_idempotency_key r")
    (simp_all add: does_def insert_rows_def insert_request_def map_error_def view_insert request_entries Let_def)

lemma reserved_tables:
  assumes "reserve now pid n s = Inr ((p, d, m), s')"
  shows "api_keys s' = api_keys s" and "requests s' = requests s" and "model_aliases s' = model_aliases s"
    and "pj_id p \<in> pj_id ` set (projects s')" and "d = utc_date now" and "m = replace_day_1 (utc_date now)"
proof -
  from reserve_frame(1) [OF assms] show "api_keys s' = api_keys s" "requests s' = requests s" "model_aliases s' = model_aliases s"
    by (cases s'; simp)+
  from assms obtain q where q: "select_project pid s = Inr q" "p = charge_project n (roll_periods d m q)"
    by (auto simp: reserve_Inr)
  then have "pj_id p = pj_id q" by (simp add: charge_project_def roll_periods_def Let_def)
  moreover have "pj_id q \<in> pj_id ` set (projects s)" using select_project_Inr [OF q(1)] by blast
  moreover have "pj_id ` set (projects s') = pj_id ` set (projects s)"
    using arg_cong [OF reserve_frame(2) [OF assms], of set] by simp
  ultimately show "pj_id p \<in> pj_id ` set (projects s')" by simp
  from assms show "d = utc_date now" "m = replace_day_1 (utc_date now)" by (auto simp: reserve_Inr utc_month_def)
qed

lemma enqueue_program_implements:
  assumes "model_aliases s = aliases"
  shows "implements s (enqueue_program aliases t_reserve t_expires rid created p key k)
    (bind_result (enqueue t_reserve t_expires rid created p key k s) (\<lambda>(_, s'). Inr (True, s')))"
proof -
  let ?found = "filter (\<lambda>q. ak_id q = ak_id k) (api_keys s) \<noteq> []"
  let ?queued = "\<lambda>alias project. queued_request rid created key project k alias p (t_expires + seconds 300)
      (utc_date t_reserve) (replace_day_1 (utc_date t_reserve))"
  let ?charged = "bind_result (map_error budget_error (reserve t_reserve (ak_project_id k) (reserved_tokens p) s))
      (\<lambda>((project, d, m), s'). Inr (project, s'))"
  let ?insert = "\<lambda>alias (project, s1). bind_result (map_error conflict_error (insert_request (?queued alias project) s1))
      (\<lambda>s2. Inr (True, s2))"
  let ?rest = "\<lambda>found. case found of
      None \<Rightarrow> Raise (OrbiError ''model_not_found'' ''Requested model alias is unavailable.'' 404)
    | Some alias \<Rightarrow> charge_rows t_reserve (ak_project_id k) (reserved_tokens p) (\<lambda>project.
        insert_rows (?queued alias project) ?found (Return True))"
  let ?m = "\<lambda>found. case found of
      None \<Rightarrow> Inl (OrbiError ''model_not_found'' ''Requested model alias is unavailable.'' 404)
    | Some alias \<Rightarrow> bind_result ?charged (?insert alias)"
  have admitted: "implements s (charge_rows t_reserve (ak_project_id k) (reserved_tokens p) (\<lambda>project.
        insert_rows (?queued alias project) ?found (Return True))) (bind_result ?charged (?insert alias))" for "alias"
  proof (rule implements_gives [OF charge_rows_gives])
    fix project s1 assume "?charged = Inr (project, s1)"
    then obtain d m where "reserve t_reserve (ak_project_id k) (reserved_tokens p) s = Inr ((project, d, m), s1)"
      by (auto simp: bind_result_eq_Inr)
    note tables = reserved_tables [OF this]
    have "?found \<longleftrightarrow> ak_id k \<in> ak_id ` set (api_keys s1)"
      unfolding tables(1) filter_empty_conv image_iff by metis
    then have "does (insert_rows (?queued alias project) ?found) s1
        (map_error conflict_error (insert_request (?queued alias project) s1))"
      using tables(4) by (intro insert_rows_does) (simp_all add: queued_request_def)
    then show "implements s1 (insert_rows (?queued alias project) ?found (Return True)) (?insert alias (project, s1))"
      by (simp add: implements_does)
  qed
  have alike: "bind_result (bind_result (map_error budget_error (reserve t_reserve (ak_project_id k) (reserved_tokens p) s))
        (\<lambda>((project, budget_day, budget_month), s1).
           let row = queued_request rid created key project k alias p (t_expires + seconds 300) budget_day budget_month
           in bind_result (map_error conflict_error (insert_request row s1)) (\<lambda>s2. Inr (Waiting rid, s2))))
      (\<lambda>(_, s'). Inr (True, s')) = bind_result ?charged (?insert alias)" for "alias"
  proof (cases "reserve t_reserve (ak_project_id k) (reserved_tokens p) s")
    case (Inr v)
    then obtain project d m s1 where v: "reserve t_reserve (ak_project_id k) (reserved_tokens p) s = Inr ((project, d, m), s1)"
      by (cases v) auto
    from reserved_tables(5,6) [OF this] v show ?thesis
      by (simp add: map_error_def bind_result_assoc)
  qed (simp add: map_error_def)
  have "bind_result (enqueue t_reserve t_expires rid created p key k s) (\<lambda>(_, s'). Inr (True, s')) =
      bind_result (find_alias (cc_model p) s) ?m"
    unfolding enqueue_def
    by (subst bind_result_assoc, rule arg_cong [where f = "bind_result (find_alias (cc_model p) s)"], rule ext,
        simp only: alike option.case split: option.split, simp)
  moreover have "implements s (?rest found) (?m found)" for found
    using admitted by (cases found) simp_all
  then have "implements s (continue (find_alias (cc_model p) s) ?rest) (bind_result (find_alias (cc_model p) s) ?m)"
    by (rule implements_continue)
  moreover have "(view s)(Locked (KeyRow (ak_id k)) := Keys (filter (\<lambda>q. ak_id q = ak_id k) (api_keys s))) = view s"
    by (simp add: fun_eq_iff)
  then have "run_program (enqueue_program aliases t_reserve t_expires rid created p key k) (view s) =
      run_program (continue (find_alias (cc_model p) s) ?rest) (view s)"
    using assms by (simp add: enqueue_program_def find_alias_def)
  ultimately show ?thesis by (simp only: implements_def)
qed

lemma claim_program_implements:
  assumes ids: "distinct (map rq_id (requests s))"
  shows "implements s (claim_program jc now w lease reached)
    (let (found, s') = claim_next jc (- {reached}) now w lease s in Inr (found \<noteq> None, s'))"
proof -
  let ?rows = "filter (claimable jc now w) (filter (\<lambda>r. rq_id r = reached) (requests s))"
  have "filter (\<lambda>r. claimable jc now w r \<and> rq_id r \<notin> - {reached}) rows =
      filter (claimable jc now w) (filter (\<lambda>r. rq_id r = reached) rows)" for rows
    by (induction rows) auto
  then have candidates: "claim_candidates jc (- {reached}) now w s = sort_key claim_order ?rows"
    by (simp add: claim_candidates_def)
  show ?thesis
  proof (cases "sort_key claim_order ?rows")
    case Nil
    then have "?rows = []" by (metis set_empty set_sort)
    moreover from this have "view s = (view s)(Locked (RequestRow reached) := view s (Locked (RequestRow reached)))"
      by (simp only: fun_upd_triv)
    ultimately show ?thesis
      using candidates Nil by (simp add: implements_def claim_program_def claim_next_def)
  next
    case (Cons r rs)
    let ?r = "assign_row now w lease r"
    have "r \<in> set ?rows" using Cons by (metis list.set_intros(1) set_sort)
    then have r: "?rows \<noteq> []" "rq_id r = reached" "r \<in> set (requests s)" by (metis empty_iff empty_set, simp_all)
    have "keeps_identity (\<lambda>_. ?r) r" by (simp add: keeps_identity_def assign_row_def)
    note view1 = view_set_request [OF ids r(3) this, unfolded r(2)]
    have "claim_next jc (- {reached}) now w lease s = (Some ?r, set_request ?r s)"
      using candidates Cons by (simp add: claim_next_Some)
    then show ?thesis
      using Cons r(1) view1 by (simp add: implements_def claim_program_def)
  qed
qed

section \<open>The interface on the gateway\<close>

lemma program_implements: "tidy aliases s \<Longrightarrow> implements s (program_of jc aliases q) (apply_operation jc q s)"
  by (cases q) (simp_all add: tidy_def commit_program_implements error_program_implements enqueue_program_implements
      claim_program_implements [unfolded Let_def, simplified])

text \<open>What the operations change.\<close>

lemma count_completion_totals: "count_completion k m s = Inr s' \<Longrightarrow> totals_fit s'"
  by (auto simp: count_completion_def totals_fit_def key_fits_def Let_def list_all_iff split: if_splits)

lemma operation_keeps:
  assumes "apply_operation jc q s = Inr (r, s')"
  shows "model_aliases s' = model_aliases s \<and> (totals_fit s \<longrightarrow> totals_fit s')"
proof (cases q)
  case (ResultOf now uid rec req w result i n lat)
  with assms have commit: "commit_result budget_service_impl now uid rec req w result i n lat s = Inr (r, s')" by simp
  let ?s1 = "s\<lparr>requests := update_where (held_by req w) (complete_request now result i n) (requests s)\<rparr>"
  show ?thesis
  proof (cases r)
    case False
    with commit show ?thesis by (simp add: commit_result_False)
  next
    case True
    with commit obtain pid res act d m k n' u s2 s3 where
      rec: "reconcile pid res act d m ?s1 = Inr s2" and cnt: "count_completion k n' s2 = Inr s3"
      and ins: "insert_usage u s3 = Inr s'"
      by (auto simp: commit_result_True budget_service_impl_def)
    from reconcile_frame(1) [OF rec] have "model_aliases s2 = model_aliases s" by (cases s2) simp
    moreover have "model_aliases s3 = model_aliases s2"
      using cnt by (auto simp: count_completion_def Let_def split: if_splits)
    moreover have "model_aliases s' = model_aliases s3" "api_keys s' = api_keys s3"
      using ins by (auto simp: insert_usage_def split: if_splits)
    ultimately show ?thesis using count_completion_totals [OF cnt] totals_fit_keys by auto
  qed
next
  case (ErrorOf req w retryable code m)
  have released: "api_keys s2 = api_keys s1 \<and> model_aliases s2 = model_aliases s1" if "release pid n d m s1 = Inr s2" for pid n d m s1 s2
    using reconcile_frame(1) [of pid n 0 d m s1 s2] that by (cases s2) (simp add: release_def)
  from assms ErrorOf have "api_keys s' = api_keys s \<and> model_aliases s' = model_aliases s"
    by (auto simp: record_error_def Let_def bind_result_eq_Inr budget_service_impl_def
        split: if_splits option.splits dest!: released)
  then show ?thesis using totals_fit_keys by blast
next
  case (EnqueueOf t_reserve t_expires rid created p key k)
  with assms obtain project d m s1 row where res: "reserve t_reserve (ak_project_id k) (reserved_tokens p) s = Inr ((project, d, m), s1)"
    and ins: "insert_request row s1 = Inr s'" by (auto simp: bind_result_eq_Inr enqueue_Inr)
  from ins have "api_keys s' = api_keys s1" "model_aliases s' = model_aliases s1" by (auto simp: insert_request_Inr)
  with reserved_tables(1,3) [OF res] show ?thesis using totals_fit_keys by auto
next
  case (ClaimOf now w lease reached)
  with assms have "api_keys s' = api_keys s \<and> model_aliases s' = model_aliases s"
    by (auto simp: claim_next_def set_request_def Let_def split: list.splits)
  then show ?thesis using totals_fit_keys by blast
qed

section \<open>Handing out and handing back\<close>

text \<open>
  Which requests an operation hands back, by a result or an error, and which it hands out. A request is with a
  worker while its row is in flight.
\<close>

fun hands_back :: "operation \<Rightarrow> uuid option" where
  "hands_back (ResultOf now uid rec req w result i n lat) = Some req"
| "hands_back (ErrorOf req w retryable code m) = Some req"
| "hands_back q = None"

fun hands_out :: "operation \<Rightarrow> uuid option" where
  "hands_out (ClaimOf now w lease reached) = Some reached"
| "hands_out q = None"

definition with_worker :: "uuid \<Rightarrow> db \<Rightarrow> bool" where
  "with_worker req s \<longleftrightarrow> (\<exists>r\<in>set (requests s). rq_id r = req \<and> in_flight (rq_status r))"

lemma record_error_requests:
  assumes "record_error svc req w retryable code m s = Inr (b, s')"
    and svc: "svc = budget_service_impl"
  shows "b \<and> (\<exists>r. filter (held_by req w) (requests s) = [r]
        \<and> requests s' = update_where (\<lambda>q. rq_id q = req) (\<lambda>_. failed_row retryable code m r) (requests s))
    \<or> \<not> b \<and> s' = s \<and> filter (held_by req w) (requests s) = []"
proof -
  from assms obtain found where found: "scalar_one_or_none (filter (held_by req w) (requests s)) = Inr found"
    by (auto simp: record_error_def bind_result_eq_Inr)
  show ?thesis
  proof (cases found)
    case None
    with found have "filter (held_by req w) (requests s) = []" by (simp add: scalar_one_or_none_eq_None)
    with assms show ?thesis by (simp add: record_error_def)
  next
    case (Some r)
    with found have held: "filter (held_by req w) (requests s) = [r]" by (simp add: scalar_one_or_none_eq_Some)
    then have "rq_id (failed_row retryable code m r) = req"
      by (auto simp: failed_row_def Let_def held_by_def dest: filter_eq_singletonD)
    then have rows: "requests (set_request (failed_row retryable code m r) s) =
        update_where (\<lambda>q. rq_id q = req) (\<lambda>_. failed_row retryable code m r) (requests s)"
      by (simp add: set_request_def)
    have released: "requests s2 = requests s1" if "release pid n d mo s1 = Inr s2" for pid n d mo s1 s2
      using reconcile_frame(1) [of pid n 0 d mo s1 s2] that by (cases s2) (simp add: release_def)
    from assms held have "b" "requests s' = requests (set_request (failed_row retryable code m r) s)"
      by (auto simp: record_error_def failed_row_def Let_def bind_result_eq_Inr budget_service_impl_def
          split: if_splits dest!: released)
    with rows held show ?thesis by auto
  qed
qed

text \<open>One row is changed, and its being in flight.\<close>

definition flips :: "orbi_request list \<Rightarrow> orbi_request list \<Rightarrow> uuid \<Rightarrow> bool \<Rightarrow> bool" where
  "flips rows rows' req flying \<longleftrightarrow>
     (\<exists>r r'. r \<in> set rows \<and> rq_id r = req \<and> in_flight (rq_status r) = flying
        \<and> keeps_identity (\<lambda>_. r') r \<and> in_flight (rq_status r') = (\<not> flying) \<and> rows' = update_where (\<lambda>q. rq_id q = req) (\<lambda>_. r') rows)"

lemma flips_with_worker:
  assumes "flips (requests s) (requests s') a flying" and "distinct (map rq_id (requests s))"
  shows "with_worker a s = flying" and "with_worker a s' = (\<not> flying)"
    and "req \<noteq> a \<Longrightarrow> with_worker req s' = with_worker req s"
    and "map rq_id (requests s') = map rq_id (requests s)"
    and "idempotency_unique (requests s') = idempotency_unique (requests s)"
proof -
  obtain r r' where r: "r \<in> set (requests s)" "rq_id r = a" "in_flight (rq_status r) = flying"
    and r': "keeps_identity (\<lambda>_. r') r" "in_flight (rq_status r') = (\<not> flying)"
    and rows: "requests s' = update_where (\<lambda>q. rq_id q = a) (\<lambda>_. r') (requests s)"
    using assms(1) by (auto simp: flips_def)
  have only: "q = r" if "q \<in> set (requests s)" "rq_id q = a" for q
    using assms(2) r(1,2) that by (simp add: distinct_map inj_on_def)
  have id: "rq_id r' = a" using r(2) r'(1) by (simp add: keeps_identity_def)
  show "with_worker a s = flying"
    using r only unfolding with_worker_def by metis
  show "with_worker a s' = (\<not> flying)"
    unfolding with_worker_def rows set_update_where using r(1,2) id r'(2) by (auto split: if_splits)
  show "req \<noteq> a \<Longrightarrow> with_worker req s' = with_worker req s"
    unfolding with_worker_def rows set_update_where using id by auto
  show "map rq_id (requests s') = map rq_id (requests s)"
    unfolding rows using id by (simp add: update_where_def)
  have "map rq_id (filter (\<lambda>q. rq_api_key_id q = b \<and> rq_idempotency_key q = Some key) (requests s')) =
      map rq_id (filter (\<lambda>q. rq_api_key_id q = b \<and> rq_idempotency_key q = Some key) (requests s))" for b key
    unfolding rows using only r'(1) by (intro update_entries) auto
  from map_eq_imp_length_eq [OF this] show "idempotency_unique (requests s') = idempotency_unique (requests s)"
    by (simp add: idempotency_unique_def)
qed

lemma commit_flips:
  assumes "commit_result budget_service_impl now uid rec req w result i n lat s = Inr (True, s')"
    and "distinct (map rq_id (requests s))"
  shows "flips (requests s) (requests s') req True"
proof -
  from assms(1) obtain row where row: "filter (held_by req w) (requests s) = [row]" by (auto simp: commit_result_True)
  then have held: "row \<in> set (requests s)" "held_by req w row" by (auto dest: filter_eq_singletonD)
  then have id: "rq_id row = req" by (simp add: held_by_def)
  let ?r = "complete_request now result i n row"
  have only: "q = row" if "q \<in> set (requests s)" "rq_id q = req" for q
    using assms(2) held(1) id that by (simp add: distinct_map inj_on_def)
  have "update_where (held_by req w) (complete_request now result i n) (requests s) =
      update_where (\<lambda>q. rq_id q = req) (\<lambda>_. ?r) (requests s)"
    unfolding update_where_def
  proof (rule map_cong [OF refl])
    fix q assume "q \<in> set (requests s)"
    then show "(if held_by req w q then complete_request now result i n q else q) = (if rq_id q = req then ?r else q)"
      using only [of q] held(2) id by (cases "rq_id q = req") (auto simp: held_by_def)
  qed
  then have "requests s' = update_where (\<lambda>q. rq_id q = req) (\<lambda>_. ?r) (requests s)"
    using budget.commit_requests [OF assms(1)] by simp
  moreover have "keeps_identity (\<lambda>_. ?r) row" "\<not> in_flight (rq_status ?r)"
    by (simp_all add: keeps_identity_def complete_request_def in_flight_def)
  ultimately show ?thesis
    unfolding flips_def using held id by (intro exI [of _ row] exI [of _ ?r]) (simp add: held_by_def)
qed

lemma error_flips:
  assumes "record_error budget_service_impl req w retryable code m s = Inr (True, s')"
  shows "flips (requests s) (requests s') req True"
proof -
  from record_error_requests [OF assms refl] obtain r where held: "filter (held_by req w) (requests s) = [r]"
    and rows: "requests s' = update_where (\<lambda>q. rq_id q = req) (\<lambda>_. failed_row retryable code m r) (requests s)"
    by auto
  then have "r \<in> set (requests s)" "held_by req w r" by (auto dest: filter_eq_singletonD)
  with rows show ?thesis
    unfolding flips_def
    by (intro exI [of _ r] exI [of _ "failed_row retryable code m r"])
      (simp add: held_by_def failed_row_def Let_def in_flight_def keeps_identity_def)
qed

lemma claim_flips:
  assumes "claim_next jc (- {reached}) now w lease s = (Some r', s')"
  shows "flips (requests s) (requests s') reached False"
proof -
  from assms obtain r rs where cands: "claim_candidates jc (- {reached}) now w s = r # rs"
    and eff: "r' = assign_row now w lease r" "s' = set_request r' s" by (auto simp: claim_next_Some)
  from claim_candidates_hd(1-3) [OF cands] eff show ?thesis
    unfolding flips_def
    by (intro exI [of _ r] exI [of _ r']) (simp add: assign_row_def set_request_def claimable_def in_flight_def keeps_identity_def)
qed

text \<open>The balance of one operation, and of a serial run.\<close>

definition handed :: "(operation \<Rightarrow> uuid option) \<Rightarrow> operation list \<Rightarrow> uuid \<Rightarrow> nat \<times> bool \<Rightarrow> bool" where
  "handed direction qs req c \<longleftrightarrow> snd c \<and> direction (qs ! fst c) = Some req"

lemma operation_balance:
  assumes "apply_operation jc q s = Inr (b, s')" and "distinct (map rq_id (requests s))"
  shows "of_bool (b \<and> hands_out q = Some req) + of_bool (with_worker req s) =
      of_bool (b \<and> hands_back q = Some req) + (of_bool (with_worker req s') :: nat)
    \<and> distinct (map rq_id (requests s')) \<and> (idempotency_unique (requests s) \<longrightarrow> idempotency_unique (requests s'))"
proof -
  have same: ?thesis if "requests s' = requests s" "b \<longrightarrow> hands_out q = None \<and> hands_back q = None"
    using that assms(2) by (auto simp: with_worker_def)
  have handed_back: ?thesis if "flips (requests s) (requests s') a True" "b" "hands_back q = Some a" "hands_out q = None" for a
    using flips_with_worker [OF that(1) assms(2)] that(2-4) assms(2) by (cases "req = a") auto
  have handed_out: ?thesis if "flips (requests s) (requests s') a False" "b" "hands_out q = Some a" "hands_back q = None" for a
    using flips_with_worker [OF that(1) assms(2)] that(2-4) assms(2) by (cases "req = a") auto
  show ?thesis
  proof (cases q)
    case (ResultOf now uid rec a w result i n lat)
    with assms(1) have op: "commit_result budget_service_impl now uid rec a w result i n lat s = Inr (b, s')" by simp
    show ?thesis
    proof (cases b)
      case True
      with op commit_flips [OF _ assms(2)] ResultOf show ?thesis by (intro handed_back [of a]) simp_all
    next
      case False
      with op show ?thesis by (intro same) (simp_all add: commit_result_False)
    qed
  next
    case (ErrorOf a w retryable code m)
    with assms(1) have op: "record_error budget_service_impl a w retryable code m s = Inr (b, s')" by simp
    show ?thesis
    proof (cases b)
      case True
      with op error_flips ErrorOf show ?thesis by (intro handed_back [of a]) simp_all
    next
      case False
      with op show ?thesis by (intro same) (simp_all add: record_error_False)
    qed
  next
    case (EnqueueOf t_reserve t_expires rid created p key k)
    with assms(1) obtain a project d m s1 where res: "reserve t_reserve (ak_project_id k) (reserved_tokens p) s = Inr ((project, d, m), s1)"
      and ins: "insert_request (queued_request rid created key project k a p (t_expires + seconds 300) d m) s1 = Inr s'"
      by (auto simp: bind_result_eq_Inr enqueue_Inr)
    note same' = reserved_tables(2) [OF res]
    from ins have "distinct (map rq_id (requests s'))" "with_worker req s' = with_worker req s"
      using assms(2) same' by (auto simp: insert_request_Inr queued_request_def with_worker_def in_flight_def)
    with insert_request_unique [OF ins] same' EnqueueOf show ?thesis by simp
  next
    case (ClaimOf now w lease reached)
    with assms(1) obtain found where claim: "claim_next jc (- {reached}) now w lease s = (found, s')" "b = (found \<noteq> None)"
      by (cases "claim_next jc (- {reached}) now w lease s") auto
    show ?thesis
    proof (cases found)
      case None
      with claim show ?thesis by (intro same) (simp_all add: claim_next_None)
    next
      case (Some r')
      with claim claim_flips ClaimOf show ?thesis by (intro handed_out [of reached]) simp_all
    qed
  qed
qed

lemma run_balance:
  "apply_serially (apply_operation jc) qs commits s = Some s' \<Longrightarrow> distinct (map rq_id (requests s)) \<Longrightarrow>
     (idempotency_unique (requests s) \<longrightarrow> idempotency_unique (requests s')) \<and> length (filter (handed hands_out qs req) commits) + of_bool (with_worker req s) =
       length (filter (handed hands_back qs req) commits) + of_bool (with_worker req s')"
proof (induction commits arbitrary: s)
  case (Cons c commits)
  obtain i b where c: "c = (i, b)" by fastforce
  with Cons.prems(1) obtain s1 where op: "apply_operation jc (qs ! i) s = Inr (b, s1)"
    and rest: "apply_serially (apply_operation jc) qs commits s1 = Some s'"
    by (auto split: sum.splits if_splits)
  note balance = operation_balance [OF op Cons.prems(2), of req]
  have "length (filter (handed direction qs req) (c # commits)) =
      of_bool (b \<and> direction (qs ! i) = Some req) + length (filter (handed direction qs req) commits)" for direction
    by (simp add: c handed_def)
  with Cons.IH [OF rest] Cons.prems(2) balance show ?case by simp
qed simp

text \<open>The interface, on the gateway.\<close>

interpretation gateway_rows: row_operations "program_of jc aliases" "apply_operation jc" view "tidy aliases" for jc aliases
proof unfold_locales
  fix s q r s' assume "tidy aliases s" "apply_operation jc q s = Inr (r, s')"
  with program_implements [of aliases s jc q] show "run_program (program_of jc aliases q) (view s) = (Inr r, view s')"
    by (simp add: implements_def)
next
  fix s q e assume "tidy aliases s" "apply_operation jc q s = Inl e"
  with program_implements [of aliases s jc q] show "fst (run_program (program_of jc aliases q) (view s)) = Inl e"
    by (simp add: implements_def)
next
  fix s q r s' assume "tidy aliases s" "apply_operation jc q s = Inr (r, s')"
  with operation_keeps operation_balance show "tidy aliases s'" unfolding tidy_def by metis
qed

section \<open>Their locks\<close>

text \<open>The programs lock the rows whose order \<open>Locking_Gateway\<close> examines.\<close>

definition row_locks :: "target list \<Rightarrow> lock_target list" where
  "row_locks xs = List.map_filter (\<lambda>x. case x of Locked y \<Rightarrow> Some y | _ \<Rightarrow> None) xs"

lemma row_locks_simps [simp]:
  "row_locks [] = []" "row_locks (Locked y # xs) = y # row_locks xs"
  "row_locks (UsageEntry u # xs) = row_locks xs" "row_locks (UsageFor u # xs) = row_locks xs"
  "row_locks (IdempotencyEntry a key # xs) = row_locks xs"
  by (simp_all add: row_locks_def List.map_filter_simps)

text \<open>What a change of the database locks, before a rest.\<close>

definition locks :: "(gateway_program \<Rightarrow> gateway_program) \<Rightarrow> db \<Rightarrow> db \<Rightarrow> lock_target list \<Rightarrow> bool" where
  "locks P s s' xs \<longleftrightarrow>
     (\<forall>rest. row_locks (accesses (P rest) (view s)) = xs @ row_locks (accesses rest (view s')))"

lemma locksD: "locks P s s' xs \<Longrightarrow> row_locks (accesses (P rest) (view s)) = xs @ row_locks (accesses rest (view s'))"
  by (simp add: locks_def)

lemma change_project_locks:
  assumes "select_project pid s = Inr p" and "change p = Inr p'" and "pj_id p' = pj_id p"
    and "flush_project p' s = Inr s'"
  shows "row_locks (accesses (change_project pid change rest) (view s)) =
    project_locks pid @ row_locks (accesses (rest p') (view s'))"
proof -
  have rows: "filter (\<lambda>q. pj_id q = pid) (projects s) = [p]"
    using assms(1) by (simp add: select_project_def scalar_one_eq_Inr)
  then have "pj_id p = pid" by (auto dest: filter_eq_singletonD)
  with assms(3) have id': "pj_id p' = pid" by simp
  show ?thesis
    using assms(2,4) rows view_projects [OF rows id'] id'
    by (auto simp: change_project_def continue_def flush_project_def project_fits_def project_locks_def split: if_splits)
qed

lemma settle_rows_locks:
  assumes "reconcile pid reserved actual d m s = Inr s'"
  shows "locks (settle_rows pid reserved actual d m) s s' (project_locks pid)"
proof -
  from assms obtain p where p: "select_project pid s = Inr p"
    and fl: "flush_project (settle_project (actual - reserved) d m p) s = Inr s'" by (auto simp: reconcile_Inr)
  then show ?thesis
    unfolding locks_def settle_rows_def using change_project_locks [OF p _ _ fl] by simp
qed

lemma charge_rows_locks:
  assumes "reserve now pid n s = Inr ((project, d, m), s')"
  shows "row_locks (accesses (charge_rows now pid n rest) (view s)) =
    project_locks pid @ row_locks (accesses (rest project) (view s'))"
proof -
  from assms obtain p where p: "select_project pid s = Inr p" "flush_project project s = Inr s'"
    and ok: "enforce_budget (snapshot_of (roll_periods (utc_date now) (replace_day_1 (utc_date now)) p)) n = Inr ()"
    and project: "project = charge_project n (roll_periods (utc_date now) (replace_day_1 (utc_date now)) p)"
    by (auto simp: reserve_Inr utc_month_def simp del: enforce_budget_Inr)
  have "pj_id project = pj_id p" by (simp add: project charge_project_def roll_periods_def Let_def)
  from change_project_locks [OF p(1) _ this p(2)] ok project show ?thesis
    by (simp add: charge_rows_def Let_def map_error_def del: enforce_budget_Inr)
qed

lemma insert_rows_locks:
  assumes "insert_request r s = Inr s'" and "rq_api_key_id r \<in> ak_id ` set (api_keys s) \<longrightarrow> key_found"
  shows "row_locks (accesses (insert_rows r key_found (Return True)) (view s)) = [RequestRow (rq_id r)]"
proof -
  have "filter (\<lambda>q. rq_id q = rq_id r) (requests s) = []" "rq_idempotency_key r = Some key \<Longrightarrow>
      filter (\<lambda>q. rq_api_key_id q = rq_api_key_id r \<and> rq_idempotency_key q = Some key) (requests s) = []" for key
    using assms(1) unfolding request_entries by (auto simp: insert_request_Inr)
  then show ?thesis
    using assms by (auto simp: insert_rows_def insert_request_Inr Let_def split: option.split)
qed

lemma enqueue_program_locks:
  assumes "enqueue t_reserve t_expires rid created p key k s = Inr (out, s')"
  shows "row_locks (accesses (enqueue_program (model_aliases s) t_reserve t_expires rid created p key k) (view s)) =
    chat_locks k @ [RequestRow rid]"
proof -
  from assms obtain a project d m s1 where al: "find_alias (cc_model p) s = Inr (Some a)"
    and res: "reserve t_reserve (ak_project_id k) (reserved_tokens p) s = Inr ((project, d, m), s1)"
    and ins: "insert_request (queued_request rid created key project k a p (t_expires + seconds 300) d m) s1 = Inr s'"
    by (auto simp: enqueue_Inr)
  note tables = reserved_tables [OF res]
  have same: "(view s)(Locked (KeyRow (ak_id k)) := view s (Locked (KeyRow (ak_id k)))) = view s" by (simp only: fun_upd_triv)
  have "ak_id k \<in> ak_id ` set (api_keys s1)" using ins by (simp add: insert_request_Inr queued_request_def)
  then have "filter (\<lambda>q. ak_id q = ak_id k) (api_keys s) \<noteq> []"
    unfolding tables(1) by (auto simp: filter_empty_conv)
  then have "row_locks (accesses (insert_rows (queued_request rid created key project k a p (t_expires + seconds 300) d m)
      (filter (\<lambda>q. ak_id q = ak_id k) (api_keys s) \<noteq> []) (Return True)) (view s1)) = [RequestRow rid]"
    using insert_rows_locks [OF ins] by (simp add: queued_request_def)
  then show ?thesis
    using al charge_rows_locks [OF res] same
    by (simp add: enqueue_program_def find_alias_def continue_def chat_locks_def key_locks_def tables(5,6) del: fun_upd_apply)
qed

lemma count_rows_locks:
  assumes "count_completion kid tokens s = Inr s'" and "totals_fit s"
  shows "locks (count_rows kid tokens) s s' [KeyRow kid]"
proof -
  have count: "(\<lambda>k. k\<lparr>ak_total_requests := ak_total_requests k + 1, ak_total_tokens := ak_total_tokens k + tokens\<rparr>) = count_key tokens"
    "(\<lambda>k. fits_int8 (ak_total_requests k) \<and> fits_int8 (ak_total_tokens k)) = key_fits"
    by (simp_all add: fun_eq_iff count_key_def key_fits_def)
  have fits: "list_all key_fits (update_where (\<lambda>k. ak_id k = kid) (count_key tokens) ks) \<Longrightarrow>
      list_all key_fits (map (count_key tokens) (filter (\<lambda>k. ak_id k = kid) ks))" for ks
    by (induction ks) (auto simp: update_where_def)
  have "ak_id (count_key tokens k) = ak_id k" for k by (simp add: count_key_def)
  then show ?thesis
    using assms(1) fits [of "api_keys s"]
    by (auto simp: locks_def count_rows_def count_completion_def Let_def count view_keys split: if_splits)
qed

lemma usage_rows_locks: "insert_usage u s = Inr s' \<Longrightarrow> locks (usage_rows u) s s' []"
  by (auto simp: locks_def usage_rows_def insert_usage_def view_usage usage_entries [symmetric] simp del: filter_empty_conv
      split: if_splits)

lemma commit_program_locks:
  assumes "commit_result budget_service_impl now uid rec req w result i n lat s = Inr (True, s')"
    and held: "filter (held_by req w) (requests s) = [row]" and "totals_fit s"
  shows "row_locks (accesses (commit_program now uid rec req w result i n lat) (view s)) = commit_locks row"
proof -
  let ?f = "complete_request now result i n"
  let ?s1 = "s\<lparr>requests := update_where (held_by req w) ?f (requests s)\<rparr>"
  from assms obtain s2 s3 where fits: "fits_int4 i" "fits_int4 n"
    and rec: "reconcile (rq_project_id row) (rq_reserved_tokens row) (i + n) (rq_budget_day row) (rq_budget_month row) ?s1 = Inr s2"
    and cnt: "count_completion (rq_api_key_id row) (i + n) s2 = Inr s3"
    and ins: "insert_usage (usage_row uid rec req w row i n lat) s3 = Inr s'"
    by (auto simp: commit_result_True budget_service_impl_def)
  note view1 = view_committed [where s = s and req = req and w = w and now = now and result = result and i = i and n = n]
  from reconcile_frame(1) [OF rec] have "api_keys s2 = api_keys s" by (cases s2) simp
  then have "totals_fit s2" using assms(3) by (rule totals_fit_keys)
  note parts = settle_rows_locks [OF rec] count_rows_locks [OF cnt this] usage_rows_locks [OF ins]
  have "rq_id row = req" using held by (auto simp: held_by_def dest: filter_eq_singletonD)
  then show ?thesis
    using fits held parts
    by (simp add: commit_program_def held_rows continue_def locks_def commit_locks_def del: fun_upd_apply
        flip: view1 [simplified])
qed

lemma error_program_locks:
  assumes "record_error budget_service_impl req w retryable code m s = Inr (True, s')"
    and held: "filter (held_by req w) (requests s) = [row]" and ids: "distinct (map rq_id (requests s))"
  shows "row_locks (accesses (error_program req w retryable code m) (view s)) = error_locks retryable row"
proof -
  let ?s1 = "set_request (failed_row retryable code m row) s"
  note view1 = view_failed [OF held ids, of retryable code m]
  have id: "rq_id row = req" using held by (auto simp: held_by_def dest: filter_eq_singletonD)
  show ?thesis
  proof (cases "retryable \<and> rq_retry_count row < rq_max_retries row")
    case True
    then show ?thesis
      using held id by (simp add: error_program_def held_rows continue_def error_locks_def retry_left_def)
  next
    case False
    with assms(1) held obtain s2 where
      "reconcile (rq_project_id row) (rq_reserved_tokens row) 0 (rq_budget_day row) (rq_budget_month row) ?s1 = Inr s2"
      by (auto simp: record_error_def failed_row_def Let_def budget_service_impl_def release_def bind_result_eq_Inr)
    note settled = locksD [OF settle_rows_locks [OF this], of "Return True"]
    from False have "\<not> (retryable \<and> retry_left row)" by (simp only: retry_left_def) simp
    then have locked: "error_locks retryable row = RequestRow req # project_locks (rq_project_id row)"
      by (simp only: error_locks_def id if_False)
    show ?thesis
      unfolding error_program_def accesses.simps row_locks_simps view1 [symmetric] locked
      using settled held False
      by (simp only: view.simps requests_in.simps held_rows scalar_one_or_none.simps continue_def sum.case option.case
          if_False simp_thms accesses.simps row_locks_simps append_Nil2)
  qed
qed

section \<open>Properties\<close>

text \<open>C5. Concurrent admissions, claims, results and errors are serializable. In whatever order the statements of
  any number of such transactions interleave under their row locks, and whichever of them are rolled back or killed,
  the committed rows are those of running the committed ones one after another, in the order of their commits, as
  the atomic operations of the model, with the same answers. So no update of a counter is lost; of requests with the
  same idempotency key one is queued; and handing out and handing back balance: a request goes to one worker at
  a time, and of all results and errors sent for it at the same time at most one is accepted for each time that it was
  handed out.\<close>

theorem concurrent_operations_serializable:
  assumes "row_steps (start_all (map (program_of jc (model_aliases s)) qs) (view s)) (store, ts, commits)"
    and "totals_fit s" and "distinct (map rq_id (requests s))"
  shows "\<exists>s'. apply_serially (apply_operation jc) qs commits s = Some s' \<and> store = view s' \<and> totals_fit s'
    \<and> distinct (map fst commits) \<and> (idempotency_unique (requests s) \<longrightarrow> idempotency_unique (requests s'))
    \<and> (\<forall>req. length (filter (handed hands_out qs req) commits) + of_bool (with_worker req s) =
             length (filter (handed hands_back qs req) commits) + of_bool (with_worker req s'))"
proof -
  have "tidy (model_aliases s) s" using assms(2,3) by (simp add: tidy_def)
  from gateway_rows.concurrent_serial [OF assms(1) this] run_balance [of jc qs commits s] assms(3) show ?thesis
    unfolding tidy_def by blast
qed

theorem concurrent_operations_serializable_witness:
  "\<exists>s'. row_steps (start_all (map (program_of (\<lambda>_ _. True) [sample_alias])
        [EnqueueOf 0 0 6 0 sample_chat (Some ''abcdefgh'') sample_key, ClaimOf 9 (sample_worker 3) 120 6])
        (view (sample_db []))) (view s', [Ended, Ended], [(0, True), (1, True)])
     \<and> apply_serially (apply_operation (\<lambda>_ _. True))
        [EnqueueOf 0 0 6 0 sample_chat (Some ''abcdefgh'') sample_key, ClaimOf 9 (sample_worker 3) 120 6]
        [(0, True), (1, True)] (sample_db []) = Some s'
     \<and> with_worker 6 s' \<and> idempotency_unique (requests s')"
proof -
  let ?q0 = "EnqueueOf 0 0 6 0 sample_chat (Some ''abcdefgh'') sample_key" and ?q1 = "ClaimOf 9 (sample_worker 3) 120 6"
    and ?jc = "\<lambda>_ _. True"
  let ?s = "sample_db []" and ?program = "program_of ?jc [sample_alias]"
  obtain s1 where "create_chat 0 0 6 0 sample_chat (Some ''abcdefgh'') sample_key ?s = Inr (Waiting 6, s1)"
    using sample_chat_accepted by blast
  then have enq: "enqueue 0 0 6 0 sample_chat (Some ''abcdefgh'') sample_key ?s = Inr (Waiting 6, s1)"
    by (auto simp: create_chat_Inr)
  then obtain a project d m s2 where al: "find_alias (cc_model sample_chat) ?s = Inr (Some a)"
    and res: "reserve 0 5 (reserved_tokens sample_chat) ?s = Inr ((project, d, m), s2)"
    and ins: "insert_request (queued_request 6 0 (Some ''abcdefgh'') project sample_key a sample_chat (seconds 300) d m) s2 = Inr s1"
    by (auto simp: enqueue_Inr sample_key_def)
  have "a = sample_alias" using al by (auto simp: find_alias_def sample_db_def scalar_one_or_none_eq_Some split: if_splits)
  then have rows: "requests s1 = [queued_request 6 0 (Some ''abcdefgh'') project sample_key sample_alias sample_chat (seconds 300) d m]"
    using ins reserved_tables(2) [OF res] by (simp add: insert_request_Inr sample_db_def)
  have op0: "apply_operation ?jc ?q0 ?s = Inr (True, s1)" using enq by simp
  obtain s' where op1: "apply_operation ?jc ?q1 s1 = Inr (True, s')" and found: "\<exists>r. claim_next ?jc (- {6}) 9 (sample_worker 3) 120 s1 = (Some r, s')"
    using rows by (simp add: claim_next_def claim_candidates_def claimable_def queued_request_def sample_worker_def
        sample_alias_def seconds_def Let_def)
  have tidy: "tidy [sample_alias] ?s"
    by (simp add: tidy_def totals_fit_def key_fits_def sample_db_def sample_key_def fits_int8_def)
  note tidy1 = gateway_rows.keeps_good [OF tidy op0]
  let ?run0 = "Running (?program ?q0) Map.empty" and ?run1 = "Running (?program ?q1) Map.empty"
  have "row_steps (view ?s, [?run0, ?run1], []) (view s1, [?run0, ?run1] [0 := Ended], [] @ [(0, True)])"
    using gateway_rows.implements [OF tidy op0] by (intro runs_alone) (auto simp: less_Suc_eq)
  moreover have "row_steps (view s1, [Ended, ?run1], [(0, True)]) (view s', [Ended, ?run1] [1 := Ended], [(0, True)] @ [(1, True)])"
    using gateway_rows.implements [OF tidy1 op1] by (intro runs_alone) (auto simp: less_Suc_eq)
  ultimately have run: "row_steps (start_all (map ?program [?q0, ?q1]) (view ?s)) (view s', [Ended, Ended], [(0, True), (1, True)])"
    by (simp add: start_all_def del: program_of.simps)
  have start: "model_aliases ?s = [sample_alias]" "totals_fit ?s" "distinct (map rq_id (requests ?s))" "idempotency_unique (requests ?s)"
    using tidy by (simp_all add: tidy_def idempotency_unique_def sample_db_def)
  from concurrent_operations_serializable [OF run [folded start(1)] start(2,3)] obtain s3
    where s3: "apply_serially (apply_operation ?jc) [?q0, ?q1] [(0, True), (1, True)] ?s = Some s3" "view s' = view s3"
      "idempotency_unique (requests s3)" using start(4) by blast
  moreover have "s3 = s'" using s3(1) op0 op1 by simp
  moreover have "with_worker 6 s'"
    using found flips_with_worker(2) claim_flips tidy1 unfolding tidy_def by metis
  ultimately show ?thesis
    using run by (intro exI [of _ s3] conjI) simp_all
qed

end
