(* ===== verification/Transactions.thy ===== *)
theory Transactions
  imports Chat
begin

text \<open>
  \<open>database.py\<close> and \<open>get_session\<close> of \<open>dependencies.py\<close>: the session protocol behind \<open>session_scope\<close>. A session
  sees the committed database or its own pending changes; the first statement begins a transaction, and a statement that raises
  leaves it open. \<open>Database.session\<close> is a generator: resumed normally it commits what is open, resumed with an exception, or
  closed, it rolls back; then it closes its session. Both of its users iterate over it with \<open>async for\<close>, which an exception
  leaves without telling the generator: it is closed when the event loop finalises it. A user may also commit himself, as the
  chat endpoint does before it waits.
\<close>

record session =
  se_committed :: db
  se_pending :: "db option"
  se_closed :: bool

definition opened :: "db \<Rightarrow> session" where
  "opened d = \<lparr>se_committed = d, se_pending = None, se_closed = False\<rparr>"

definition finished :: "db \<Rightarrow> session" where
  "finished d = \<lparr>se_committed = d, se_pending = None, se_closed = True\<rparr>"

definition in_transaction :: "session \<Rightarrow> bool" where
  "in_transaction s \<longleftrightarrow> se_pending s \<noteq> None"

definition session_view :: "session \<Rightarrow> db" where
  "session_view s = (case se_pending s of None \<Rightarrow> se_committed s | Some d \<Rightarrow> d)"

text \<open>The statements of an operation. What an operation that raises has changed before is still pending: \<open>partial\<close>
  says what, and is \<open>None\<close> where it raises before its first statement.\<close>

definition execute :: "(db \<Rightarrow> db option) \<Rightarrow> (db \<Rightarrow> ('a \<times> db) result) \<Rightarrow> session \<Rightarrow> 'a result \<times> session" where
  "execute partial f s =
     (case f (session_view s) of
        Inl e \<Rightarrow> (Inl e, case partial (session_view s) of None \<Rightarrow> s | Some d \<Rightarrow> s\<lparr>se_pending := Some d\<rparr>)
      | Inr (v, d) \<Rightarrow> (Inr v, s\<lparr>se_pending := Some d\<rparr>))"

definition commit_session :: "session \<Rightarrow> session" where
  "commit_session s = s\<lparr>se_committed := session_view s, se_pending := None\<rparr>"

definition rollback_session :: "session \<Rightarrow> session" where
  "rollback_session s = s\<lparr>se_pending := None\<rparr>"

section \<open>The generators\<close>

text \<open>What happens to a generator suspended at its \<open>yield\<close>: it is resumed, an exception is thrown into it, or it is closed.\<close>

datatype resumption = Resumed | Thrown exn | GeneratorExit

text \<open>\<open>Database.session\<close> from its \<open>yield\<close> on: the exception it ends with, and the session it leaves.\<close>

definition database_session :: "resumption \<Rightarrow> session \<Rightarrow> exn option \<times> session" where
  "database_session r s =
     (case r of
        Resumed \<Rightarrow> (None, (if in_transaction s then commit_session s else s)\<lparr>se_closed := True\<rparr>)
      | Thrown e \<Rightarrow> (Some e, (if in_transaction s then rollback_session s else s)\<lparr>se_closed := True\<rparr>)
      | GeneratorExit \<Rightarrow> (None, (if in_transaction s then rollback_session s else s)\<lparr>se_closed := True\<rparr>))"

text \<open>\<open>get_session\<close> from its own \<open>yield\<close> on. Resumed, its loop asks the inner generator for the next session, which resumes it;
  an exception is raised at the \<open>yield\<close>, inside the loop, and leaves the inner generator where it is.\<close>

definition get_session :: "resumption \<Rightarrow> session \<Rightarrow> exn option \<times> session" where
  "get_session r s =
     (case r of
        Resumed \<Rightarrow> database_session Resumed s
      | Thrown e \<Rightarrow> (Some e, s)
      | GeneratorExit \<Rightarrow> (None, s))"

text \<open>The event loop finalises an inner generator that nobody refers to any more by closing it.\<close>

definition finalise :: "session \<Rightarrow> session" where
  "finalise s = (if se_closed s then s else snd (database_session GeneratorExit s))"

text \<open>An endpoint: the framework resumes its dependency when the endpoint returns, and throws its exception into it.\<close>

definition run_endpoint :: "(session \<Rightarrow> 'a result \<times> session) \<Rightarrow> db \<Rightarrow> 'a result \<times> session" where
  "run_endpoint body d =
     (case body (opened d) of
        (Inr v, s) \<Rightarrow> (case get_session Resumed s of (None, s') \<Rightarrow> (Inr v, s') | (Some e, s') \<Rightarrow> (Inl e, s'))
      | (Inl e, s) \<Rightarrow> (Inl e, snd (get_session (Thrown e) s)))"

text \<open>\<open>async for session in database.session()\<close> of the maintenance loop, whose body is not a generator.\<close>

definition loop_session :: "(session \<Rightarrow> 'a result \<times> session) \<Rightarrow> db \<Rightarrow> 'a result \<times> session" where
  "loop_session body d =
     (case body (opened d) of
        (Inr v, s) \<Rightarrow> (case database_session Resumed s of (None, s') \<Rightarrow> (Inr v, s') | (Some e, s') \<Rightarrow> (Inl e, s'))
      | (Inl e, s) \<Rightarrow> (Inl e, s))"

section \<open>The chat endpoint in its session\<close>

text \<open>Up to the commit: the dependency and the handler.\<close>

definition chat_admission ::
  "(api_key \<times> db) result \<Rightarrow> instant \<Rightarrow> instant \<Rightarrow> uuid \<Rightarrow> instant \<Rightarrow> chat_completion_request \<Rightarrow> string option \<Rightarrow>
     db \<Rightarrow> (chat_outcome \<times> db) result" where
  "chat_admission auth t_reserve t_expires rid created_at p header d =
     bind_result auth (\<lambda>(k, s1).
     bind_result (require_api_scope ''chat'' k) (\<lambda>k. create_chat t_reserve t_expires rid created_at p header k s1))"

text \<open>The endpoint commits itself before it waits; \<open>wait\<close> is the answer of the loop.\<close>

definition chat_body ::
  "(db \<Rightarrow> db option) \<Rightarrow> (db \<Rightarrow> (chat_outcome \<times> db) result) \<Rightarrow> (uuid \<Rightarrow> json result) \<Rightarrow> session \<Rightarrow> json result \<times> session" where
  "chat_body partial admission wait s =
     (case execute partial admission s of
        (Inl e, s1) \<Rightarrow> (Inl e, s1)
      | (Inr (Answered body), s1) \<Rightarrow> (Inr body, s1)
      | (Inr (Waiting request_id), s1) \<Rightarrow> (wait request_id, commit_session s1))"

section \<open>Facts\<close>

lemmas session_defs = run_endpoint_def loop_session_def get_session_def database_session_def execute_def opened_def
  finished_def in_transaction_def session_view_def commit_session_def rollback_session_def finalise_def

text \<open>The wrapper adds nothing: an endpoint and the maintenance loop treat their generator alike.\<close>

lemma run_endpoint_loop: "run_endpoint body d = loop_session body d"
  by (simp add: run_endpoint_def loop_session_def get_session_def split: sum.split prod.split)

lemma loop_session_execute:
  "loop_session (execute partial f) d = (r, s) \<Longrightarrow>
     r = fst (session_scope f d) \<and> se_committed s = snd (session_scope f d)
     \<and> (in_transaction s \<longleftrightarrow> (\<exists>e. r = Inl e) \<and> partial d \<noteq> None) \<and> (se_closed s \<longleftrightarrow> (\<exists>v. r = Inr v))
     \<and> finalise s = finished (snd (session_scope f d))"
  by (auto simp: session_defs session_scope_def split: sum.splits prod.splits option.splits)

lemma run_endpoint_chat:
  assumes "run_endpoint (chat_body partial admission wait) d = (r, s)"
  shows "r = (case fst (session_scope admission d) of Inl e \<Rightarrow> Inl e | Inr (Answered body) \<Rightarrow> Inr body | Inr (Waiting q) \<Rightarrow> wait q)
     \<and> se_committed s = snd (session_scope admission d)
     \<and> (in_transaction s \<longleftrightarrow> (\<exists>e. admission d = Inl e) \<and> partial d \<noteq> None) \<and> (se_closed s \<longleftrightarrow> (\<exists>v. r = Inr v))
     \<and> finalise s = finished (snd (session_scope admission d))"
proof (cases "admission d")
  case (Inl e)
  then show ?thesis using assms by (auto simp: session_defs session_scope_def chat_body_def split: option.splits)
next
  case (Inr outcome)
  obtain answer d1 where outcome: "outcome = (answer, d1)" by fastforce
  show ?thesis
  proof (cases answer)
    case (Answered body)
    show ?thesis using assms
      by (cases body) (auto simp: session_defs session_scope_def chat_body_def Inr outcome Answered)
  next
    case (Waiting q)
    show ?thesis using assms
      by (cases "wait q") (auto simp: session_defs session_scope_def chat_body_def Inr outcome Waiting dest: sym)
  qed
qed

section \<open>Properties\<close>



end
