(* ===== verification/Environment.thy ===== *)
theory Environment
  imports Config
begin

text \<open>
  \<open>config.py\<close>: the class \<open>Settings\<close> as it is filled from variables. The variables are the pairs that
  pydantic-settings collects, the lines of \<open>.env\<close> first and the process environment after them, so that a
  later pair wins; names are compared without case, with the prefix \<open>ORBI_\<close>, and a variable that names no
  field is ignored. The reader of an integer field is a parameter. The first field that cannot be filled
  is the error.
\<close>

type_synonym variables = "(string \<times> string) list"

definition lower :: "string \<Rightarrow> string" where
  "lower s = map (\<lambda>c. if is_upper c then char_of ((of_char c :: nat) + 32) else c) s"

definition setting :: "variables \<Rightarrow> string \<Rightarrow> string option" where
  "setting env field = map_of (rev (map (\<lambda>(name, v). (lower name, v)) env)) (''orbi_'' @ field)"

definition text_field :: "variables \<Rightarrow> string \<Rightarrow> string option \<Rightarrow> string result" where
  "text_field env field initial =
     (case setting env field of
        Some v \<Rightarrow> Inr v
      | None \<Rightarrow> (case initial of Some d \<Rightarrow> Inr d | None \<Rightarrow> Inl (ValueError (''Field required: '' @ field))))"

definition int_field :: "(string \<Rightarrow> int option) \<Rightarrow> variables \<Rightarrow> string \<Rightarrow> int \<Rightarrow> int result" where
  "int_field to_int env field initial =
     (case setting env field of
        None \<Rightarrow> Inr initial
      | Some v \<Rightarrow> (case to_int v of Some n \<Rightarrow> Inr n | None \<Rightarrow> Inl (ValueError (''Not an integer: '' @ field))))"

text \<open>The fields of the class in their order.\<close>

definition settings_of :: "(string \<Rightarrow> int option) \<Rightarrow> variables \<Rightarrow> settings result" where
  "settings_of to_int env =
     bind_result (text_field env ''environment'' (Some ''development'')) (\<lambda>environment.
     bind_result (text_field env ''log_level'' (Some ''INFO'')) (\<lambda>log_level.
     bind_result (text_field env ''database_url'' None) (\<lambda>database_url.
     bind_result (text_field env ''redis_url'' None) (\<lambda>redis_url.
     bind_result (text_field env ''api_key_pepper'' None) (\<lambda>api_key_pepper.
     bind_result (text_field env ''worker_enrollment_pepper'' None) (\<lambda>worker_enrollment_pepper.
     bind_result (text_field env ''admin_token_hash'' None) (\<lambda>admin_token_hash.
     bind_result (text_field env ''admin_token_pepper'' None) (\<lambda>admin_token_pepper.
     bind_result (text_field env ''jwt_private_key_path'' None) (\<lambda>jwt_private_key_path.
     bind_result (text_field env ''jwt_public_key_path'' None) (\<lambda>jwt_public_key_path.
     bind_result (text_field env ''jwt_issuer'' (Some ''orbi-core'')) (\<lambda>jwt_issuer.
     bind_result (text_field env ''jwt_audience'' (Some ''orbi-worker'')) (\<lambda>jwt_audience.
     bind_result (int_field to_int env ''worker_token_ttl_seconds'' 3600) (\<lambda>worker_token_ttl_seconds.
     bind_result (int_field to_int env ''rate_limit_rpm_default'' 60) (\<lambda>rate_limit_rpm_default.
     bind_result (int_field to_int env ''max_request_body_bytes'' 1048576) (\<lambda>max_request_body_bytes.
     bind_result (int_field to_int env ''request_wait_timeout_seconds'' 60) (\<lambda>request_wait_timeout_seconds.
     bind_result (int_field to_int env ''worker_lease_seconds'' 120) (\<lambda>worker_lease_seconds.
     bind_result (int_field to_int env ''lease_recovery_interval_seconds'' 30) (\<lambda>lease_recovery_interval_seconds.
     bind_result (int_field to_int env ''circuit_failure_threshold'' 5) (\<lambda>circuit_failure_threshold.
     bind_result (int_field to_int env ''circuit_cooldown_seconds'' 120) (\<lambda>circuit_cooldown_seconds.
       Inr \<lparr>st_environment = environment, st_log_level = log_level,
            st_database_url = database_url, st_redis_url = redis_url,
            st_api_key_pepper = api_key_pepper, st_worker_enrollment_pepper = worker_enrollment_pepper,
            st_admin_token_hash = admin_token_hash, st_admin_token_pepper = admin_token_pepper,
            st_jwt_private_key_path = jwt_private_key_path, st_jwt_public_key_path = jwt_public_key_path,
            st_jwt_issuer = jwt_issuer, st_jwt_audience = jwt_audience,
            st_worker_token_ttl_seconds = worker_token_ttl_seconds,
            st_rate_limit_rpm_default = rate_limit_rpm_default,
            st_max_request_body_bytes = max_request_body_bytes,
            st_request_wait_timeout_seconds = request_wait_timeout_seconds,
            st_worker_lease_seconds = worker_lease_seconds,
            st_lease_recovery_interval_seconds = lease_recovery_interval_seconds,
            st_circuit_failure_threshold = circuit_failure_threshold,
            st_circuit_cooldown_seconds = circuit_cooldown_seconds\<rparr>))))))))))))))))))))"

text \<open>\<open>get_settings\<close>: filled and validated.\<close>

definition get_settings :: "(string \<Rightarrow> int option) \<Rightarrow> variables \<Rightarrow> settings result" where
  "get_settings to_int env = bind_result (settings_of to_int env) validate_settings"

section \<open>Facts\<close>

text \<open>A later source wins over an earlier one, field by field.\<close>

lemma setting_append:
  "setting (env @ env') field = (case setting env' field of Some v \<Rightarrow> Some v | None \<Rightarrow> setting env field)"
  by (auto simp: setting_def map_add_def split: option.splits)

lemma text_field_default [simp]: "text_field [] field (Some d) = Inr d"
  by (simp add: text_field_def setting_def)

lemma text_field_required [simp]:
  "text_field env field None = Inr v \<longleftrightarrow> setting env field = Some v"
  by (simp add: text_field_def split: option.splits)

lemma text_field_Some [simp]: "setting env field = Some v \<Longrightarrow> text_field env field d = Inr v"
  by (simp add: text_field_def)

lemma int_field_Some [simp]:
  "setting env field = Some v \<Longrightarrow> to_int v = Some n \<Longrightarrow> int_field to_int env field d = Inr n"
  by (simp add: int_field_def)

text \<open>
  What a reader of integers must do with the plain decimal numerals of a configuration: what Python's
  \<open>int\<close> does.
\<close>

definition reads_numerals :: "(string \<Rightarrow> int option) \<Rightarrow> bool" where
  "reads_numerals to_int \<longleftrightarrow>
     (\<forall>s. s \<noteq> [] \<and> length s \<le> 9 \<and> list_all is_digit s \<longrightarrow> to_int s = parse_int s)"

lemma reads_numerals_parse_int: "reads_numerals parse_int"
  by (simp add: reads_numerals_def)

end
