(* ===== verification/Bootstrap.thy ===== *)
theory Bootstrap
  imports Environment "HOL-Library.Sublist" "HOL-Library.Word"
begin

unbundle bit_operations_syntax

text \<open>
  \<open>scripts/bootstrap-dev.py\<close>: the script that creates \<open>.env\<close>, the key pair and the administrator token of
  a development installation. A disk is its files, with content and permission bits, and its
  directories; a path is the list of its components, the permission bits a word, written in hexadecimal. A step of the script yields the disks after each
  of its system calls, so that what another process can see meanwhile, and what an interrupted run
  leaves, are part of its meaning. The RSA keys, Argon2, the drawn bytes, the umask and the user are
  parameters; a full disk and missing permissions are not modelled.
\<close>

section \<open>The disk\<close>

type_synonym path = "string list"
type_synonym mode = "9 word"

record regular_file =
  fl_content :: string
  fl_mode :: mode

record disk =
  dk_files :: "path \<Rightarrow> regular_file option"
  dk_dirs :: "path set"

datatype stop =
    SystemExit string
  | OSError

definition path_exists :: "disk \<Rightarrow> path \<Rightarrow> bool" where
  "path_exists d p \<longleftrightarrow> dk_files d p \<noteq> None \<or> p \<in> dk_dirs d"

text \<open>\<open>Path.mkdir(parents=True, exist_ok=True)\<close>.\<close>

definition mkdir_parents :: "path \<Rightarrow> disk \<Rightarrow> stop + disk" where
  "mkdir_parents p d =
     (if \<exists>q\<in>set (prefixes p). dk_files d q \<noteq> None then Inl OSError
      else Inr (d\<lparr>dk_dirs := dk_dirs d \<union> set (prefixes p)\<rparr>))"

text \<open>\<open>Path.write_text\<close> opens the file, which creates it with the default permissions (octal 666 less the umask) or truncates it, and
  then writes.\<close>

definition default_mode :: "mode \<Rightarrow> mode" where
  "default_mode umask = 0x1B6 AND NOT umask"

definition open_write :: "mode \<Rightarrow> path \<Rightarrow> disk \<Rightarrow> stop + disk" where
  "open_write umask p d =
     (if p \<in> dk_dirs d \<or> butlast p \<notin> dk_dirs d then Inl OSError
      else Inr (d\<lparr>dk_files := (dk_files d)(p \<mapsto>
        (case dk_files d p of
           None \<Rightarrow> \<lparr>fl_content = [], fl_mode = default_mode umask\<rparr>
         | Some f \<Rightarrow> f\<lparr>fl_content := []\<rparr>))\<rparr>))"

definition change_file :: "path \<Rightarrow> (regular_file \<Rightarrow> regular_file) \<Rightarrow> disk \<Rightarrow> stop + disk" where
  "change_file p f d =
     (case dk_files d p of
        None \<Rightarrow> Inl OSError
      | Some x \<Rightarrow> Inr (d\<lparr>dk_files := (dk_files d)(p \<mapsto> f x)\<rparr>))"

text \<open>\<open>stat.S_IRUSR | stat.S_IWUSR\<close>, octal 400 and 200.\<close>

definition owner_only :: mode where
  "owner_only = 0x100 OR 0x080"

section \<open>Scripts\<close>

type_synonym 'a script = "disk \<Rightarrow> (stop + 'a) \<times> disk list"

definition bind_script :: "'a script \<Rightarrow> ('a \<Rightarrow> 'b script) \<Rightarrow> 'b script" where
  "bind_script m k d =
     (case m d of
        (Inl e, ds) \<Rightarrow> (Inl e, ds)
      | (Inr v, ds) \<Rightarrow> (let (r, ds') = k v (last (d # ds)) in (r, ds @ ds')))"

definition call :: "(disk \<Rightarrow> stop + disk) \<Rightarrow> unit script" where
  "call f d = (case f d of Inl e \<Rightarrow> (Inl e, []) | Inr d' \<Rightarrow> (Inr (), [d']))"

definition exit_if :: "(disk \<Rightarrow> bool) \<Rightarrow> string \<Rightarrow> unit script" where
  "exit_if P message d = (if P d then (Inl (SystemExit message), []) else (Inr (), []))"

definition path_str :: "path \<Rightarrow> string" where
  "path_str p = concat (map (\<lambda>c. CHR ''/'' # c) p)"

definition secure_write :: "mode \<Rightarrow> path \<Rightarrow> string \<Rightarrow> unit script" where
  "secure_write umask p content =
     bind_script (exit_if (\<lambda>d. path_exists d p) (''Refusing to overwrite existing file: '' @ path_str p)) (\<lambda>_.
     bind_script (call (mkdir_parents (butlast p))) (\<lambda>_.
     bind_script (call (open_write umask p)) (\<lambda>_.
     bind_script (call (change_file p (fl_content_update (\<lambda>_. content)))) (\<lambda>_.
     call (change_file p (fl_mode_update (\<lambda>_. owner_only)))))))"

section \<open>The script\<close>

definition env_path :: "path \<Rightarrow> path" where
  "env_path repo = repo @ [''.env'']"

definition private_key_path :: "path \<Rightarrow> path" where
  "private_key_path repo = repo @ [''secrets'', ''orbi_jwt_private.pem'']"

definition public_key_path :: "path \<Rightarrow> path" where
  "public_key_path repo = repo @ [''secrets'', ''orbi_jwt_public.pem'']"

definition bootstrap_paths :: "path \<Rightarrow> path list" where
  "bootstrap_paths repo = [private_key_path repo, public_key_path repo, env_path repo]"

text \<open>What the run draws: the key pair in PEM, the bytes of the tokens, the salt of the hash.\<close>

record draws =
  dr_private_pem :: string
  dr_public_pem :: string
  dr_api_key_pepper :: "nat list"
  dr_worker_pepper :: "nat list"
  dr_admin_pepper :: "nat list"
  dr_postgres_password :: "nat list"
  dr_admin_token :: "nat list"
  dr_salt :: string

definition admin_token :: "draws \<Rightarrow> string" where
  "admin_token r = ''orbi_admin_v1_'' @ token_urlsafe (dr_admin_token r)"

definition admin_hash :: "password_hasher \<Rightarrow> draws \<Rightarrow> string" where
  "admin_hash hasher r =
     ph_hash hasher (dr_salt r) (peppered (token_urlsafe (dr_admin_pepper r)) (admin_token r))"

text \<open>A line of \<open>.env\<close>: a name and its value, as it is or in single quotes.\<close>

datatype env_value = Plain string | Quoted string

fun value_text :: "env_value \<Rightarrow> string" where
  "value_text (Plain v) = v"
| "value_text (Quoted v) = CHR 0x27 # v @ [CHR 0x27]"

fun env_text :: "env_value \<Rightarrow> string" where
  "env_text (Plain v) = v"
| "env_text (Quoted v) = v"

definition env_line :: "string \<times> env_value \<Rightarrow> string" where
  "env_line l = fst l @ ''='' @ value_text (snd l) @ [CHR 0x0A]"

definition env_lines :: "password_hasher \<Rightarrow> nat \<Rightarrow> nat \<Rightarrow> draws \<Rightarrow> (string \<times> env_value) list" where
  "env_lines hasher uid gid r =
     (let postgres_password = token_urlsafe (dr_postgres_password r) in
      [(''ORBI_ENVIRONMENT'', Plain ''development''),
       (''ORBI_LOG_LEVEL'', Plain ''INFO''),
       (''ORBI_HOST_UID'', Plain (show_nat uid)),
       (''ORBI_HOST_GID'', Plain (show_nat gid)),
       (''ORBI_POSTGRES_PASSWORD'', Quoted postgres_password),
       (''ORBI_DATABASE_URL'', Quoted (''postgresql+asyncpg://orbi:'' @ postgres_password @ ''@postgres:5432/orbi'')),
       (''ORBI_REDIS_URL'', Quoted ''redis://redis:6379/0''),
       (''ORBI_API_KEY_PEPPER'', Quoted (token_urlsafe (dr_api_key_pepper r))),
       (''ORBI_WORKER_ENROLLMENT_PEPPER'', Quoted (token_urlsafe (dr_worker_pepper r))),
       (''ORBI_JWT_PRIVATE_KEY_PATH'', Quoted ''/run/secrets/orbi_jwt_private.pem''),
       (''ORBI_JWT_PUBLIC_KEY_PATH'', Quoted ''/run/secrets/orbi_jwt_public.pem''),
       (''ORBI_JWT_ISSUER'', Quoted ''orbi-core''),
       (''ORBI_JWT_AUDIENCE'', Quoted ''orbi-worker''),
       (''ORBI_WORKER_TOKEN_TTL_SECONDS'', Plain ''3600''),
       (''ORBI_ADMIN_TOKEN_HASH'', Quoted (admin_hash hasher r)),
       (''ORBI_ADMIN_TOKEN_PEPPER'', Quoted (token_urlsafe (dr_admin_pepper r))),
       (''ORBI_RATE_LIMIT_RPM_DEFAULT'', Plain ''60''),
       (''ORBI_MAX_REQUEST_BODY_BYTES'', Plain ''1048576''),
       (''ORBI_REQUEST_WAIT_TIMEOUT_SECONDS'', Plain ''60''),
       (''ORBI_WORKER_LEASE_SECONDS'', Plain ''120''),
       (''ORBI_LEASE_RECOVERY_INTERVAL_SECONDS'', Plain ''30''),
       (''ORBI_CIRCUIT_FAILURE_THRESHOLD'', Plain ''5''),
       (''ORBI_CIRCUIT_COOLDOWN_SECONDS'', Plain ''120'')])"

definition env_content :: "password_hasher \<Rightarrow> nat \<Rightarrow> nat \<Rightarrow> draws \<Rightarrow> string" where
  "env_content hasher uid gid r = concat (map env_line (env_lines hasher uid gid r))"

text \<open>\<open>main\<close>; its result is what it prints.\<close>

definition bootstrap :: "mode \<Rightarrow> path \<Rightarrow> password_hasher \<Rightarrow> nat \<Rightarrow> nat \<Rightarrow> draws \<Rightarrow> string list script" where
  "bootstrap umask repo hasher uid gid r =
     bind_script (exit_if (\<lambda>d. path_exists d (env_path repo) \<or> path_exists d (private_key_path repo)
           \<or> path_exists d (public_key_path repo))
         ''Bootstrap files already exist. Move or delete .env and secrets/ intentionally before rerunning.'') (\<lambda>_.
     bind_script (secure_write umask (private_key_path repo) (dr_private_pem r)) (\<lambda>_.
     bind_script (secure_write umask (public_key_path repo) (dr_public_pem r)) (\<lambda>_.
     bind_script (secure_write umask (env_path repo) (env_content hasher uid gid r)) (\<lambda>_ _.
       (Inr [''ORBI development configuration created.'',
             ''Store this bootstrap admin token now; it will not be written to disk again:'',
             admin_token r], [])))))"

section \<open>One file\<close>

lemma bind_script_Inr [simp]: "m d = (Inr v, ds) \<Longrightarrow>
    bind_script m k d = (fst (k v (last (d # ds))), ds @ snd (k v (last (d # ds))))"
  by (simp add: bind_script_def split_beta)

lemma bind_script_Inl [simp]: "m d = (Inl e, ds) \<Longrightarrow> bind_script m k d = (Inl e, ds)"
  by (simp add: bind_script_def)

text \<open>A disk on which a path can be created: nothing is there, and no parent is a file.\<close>

definition creatable :: "disk \<Rightarrow> path \<Rightarrow> bool" where
  "creatable d p \<longleftrightarrow> p \<noteq> [] \<and> \<not> path_exists d p \<and> (\<forall>q\<in>set (prefixes (butlast p)). dk_files d q = None)"

definition with_dirs :: "path \<Rightarrow> disk \<Rightarrow> disk" where
  "with_dirs p d = d\<lparr>dk_dirs := dk_dirs d \<union> set (prefixes (butlast p))\<rparr>"

definition with_file :: "path \<Rightarrow> regular_file \<Rightarrow> disk \<Rightarrow> disk" where
  "with_file p f d = d\<lparr>dk_files := (dk_files d)(p \<mapsto> f)\<rparr>"

lemma with_dirs_file [simp]:
  "dk_files (with_dirs p d) = dk_files d" "dk_dirs (with_file p f d) = dk_dirs d"
  "dk_files (with_file p f d) = (dk_files d)(p \<mapsto> f)" "dk_dirs (with_dirs p d) = dk_dirs d \<union> set (prefixes (butlast p))"
  "with_file p f (with_file p g d) = with_file p f d"
  by (simp_all add: with_dirs_def with_file_def)

text \<open>The disks of a successful write: the directories, the empty file, the content under the default
  permissions, the owner's permissions.\<close>

definition write_disks :: "mode \<Rightarrow> path \<Rightarrow> string \<Rightarrow> disk \<Rightarrow> disk list" where
  "write_disks umask p content d =
     (let d1 = with_dirs p d in
      [d1, with_file p \<lparr>fl_content = [], fl_mode = default_mode umask\<rparr> d1,
       with_file p \<lparr>fl_content = content, fl_mode = default_mode umask\<rparr> d1,
       with_file p \<lparr>fl_content = content, fl_mode = owner_only\<rparr> d1])"

lemma secure_write_refuses:
  "path_exists d p \<Longrightarrow>
     secure_write umask p content d = (Inl (SystemExit (''Refusing to overwrite existing file: '' @ path_str p)), [])"
  by (simp add: secure_write_def exit_if_def)

lemma not_prefix_of_parent: "p \<noteq> [] \<Longrightarrow> p \<notin> set (prefixes (butlast p))"
  by (metis append_butlast_last_id in_set_prefixes not_Cons_self2 prefix_length_le length_append_singleton
      Suc_n_not_le_n)

lemma secure_write_creates:
  assumes "creatable d p"
  shows "secure_write umask p content d = (Inr (), write_disks umask p content d)"
proof -
  have new: "p \<notin> dk_dirs (with_dirs p d)" "dk_files (with_dirs p d) p = None" "butlast p \<in> dk_dirs (with_dirs p d)"
    using assms not_prefix_of_parent [of p] by (auto simp: creatable_def path_exists_def)
  have "exit_if (\<lambda>d. path_exists d p) m d = (Inr (), [])" for m
    using assms by (simp add: exit_if_def creatable_def)
  moreover have "call (mkdir_parents (butlast p)) d = (Inr (), [with_dirs p d])"
    using assms by (simp add: call_def mkdir_parents_def creatable_def with_dirs_def)
  moreover have "call (open_write umask p) (with_dirs p d) =
      (Inr (), [with_file p \<lparr>fl_content = [], fl_mode = default_mode umask\<rparr> (with_dirs p d)])"
    using new by (simp add: call_def open_write_def with_file_def)
  moreover have "call (change_file p f) (with_file p x d1) = (Inr (), [with_file p (f x) d1])" for f x d1
    by (simp add: call_def change_file_def with_file_def)
  ultimately show ?thesis
    by (simp add: secure_write_def write_disks_def Let_def)
qed

text \<open>Such a write leaves every other path as creatable as it was.\<close>

lemma creatable_write:
  assumes "creatable d q" and "p \<noteq> q" and "\<not> prefix p (butlast q)" and "\<not> prefix q (butlast p)"
  shows "creatable (last (write_disks umask p content d)) q"
  using assms by (auto simp: creatable_def path_exists_def write_disks_def Let_def)

lemma write_disks_files:
  "write_disks umask p content d \<noteq> []"
  "dk_files (last (write_disks umask p content d)) = (dk_files d)(p \<mapsto> \<lparr>fl_content = content, fl_mode = owner_only\<rparr>)"
  "x \<in> set (write_disks umask p content d) \<Longrightarrow> q \<noteq> p \<Longrightarrow> dk_files x q = dk_files d q"
  by (auto simp: write_disks_def Let_def)

declare write_disks_files(1) [simp]

section \<open>A complete run\<close>

definition fresh :: "path \<Rightarrow> disk \<Rightarrow> bool" where
  "fresh repo d \<longleftrightarrow> (\<forall>p\<in>set (bootstrap_paths repo). \<not> path_exists d p)
     \<and> (\<forall>q\<in>set (prefixes (repo @ [''secrets''])). dk_files d q = None)"

lemmas path_defs = bootstrap_paths_def private_key_path_def public_key_path_def env_path_def

lemma bootstrap_paths_apart:
  "p \<in> set (bootstrap_paths repo) \<Longrightarrow> q \<in> set (bootstrap_paths repo) \<Longrightarrow> \<not> prefix p (butlast q)"
  by (auto simp: path_defs butlast_append prefix_append dest: prefix_length_le)

lemma bootstrap_paths_distinct: "distinct (bootstrap_paths repo)"
  by (simp add: path_defs)

lemma fresh_creatable: "fresh repo d \<Longrightarrow> p \<in> set (bootstrap_paths repo) \<Longrightarrow> creatable d p"
  by (auto simp: fresh_def creatable_def path_defs butlast_append)

lemma bootstrap_refuses:
  "p \<in> set (bootstrap_paths repo) \<Longrightarrow> path_exists d p \<Longrightarrow>
     bootstrap umask repo hasher uid gid r d = (Inl (SystemExit
       ''Bootstrap files already exist. Move or delete .env and secrets/ intentionally before rerunning.''), [])"
  unfolding bootstrap_def by (rule bind_script_Inl) (auto simp: exit_if_def bootstrap_paths_def)

lemma bootstrap_run:
  fixes umask :: mode and r :: draws
  assumes "fresh repo d"
  defines "d1 \<equiv> last (write_disks umask (private_key_path repo) (dr_private_pem r) d)"
  defines "d2 \<equiv> last (write_disks umask (public_key_path repo) (dr_public_pem r) d1)"
  shows "bootstrap umask repo hasher uid gid r d =
    (Inr [''ORBI development configuration created.'',
          ''Store this bootstrap admin token now; it will not be written to disk again:'', admin_token r],
     write_disks umask (private_key_path repo) (dr_private_pem r) d
     @ write_disks umask (public_key_path repo) (dr_public_pem r) d1
     @ write_disks umask (env_path repo) (env_content hasher uid gid r) d2)"
proof -
  let ?ps = "bootstrap_paths repo"
  have mem: "private_key_path repo \<in> set ?ps" "public_key_path repo \<in> set ?ps" "env_path repo \<in> set ?ps"
    by (simp_all add: bootstrap_paths_def)
  have apart: "private_key_path repo \<noteq> public_key_path repo" "private_key_path repo \<noteq> env_path repo"
    "public_key_path repo \<noteq> env_path repo"
    using bootstrap_paths_distinct [of repo] by (simp_all add: bootstrap_paths_def)
  note none = fresh_creatable [OF assms(1)]
  note keep = creatable_write [OF _ _ bootstrap_paths_apart bootstrap_paths_apart]
  have c1: "creatable d1 (public_key_path repo)" "creatable d1 (env_path repo)"
    unfolding d1_def using none [OF mem(2)] none [OF mem(3)] mem apart by (auto intro: keep)
  have c2: "creatable d2 (env_path repo)"
    unfolding d2_def using c1(2) mem apart by (auto intro: keep)
  have start: "exit_if (\<lambda>d. path_exists d (env_path repo) \<or> path_exists d (private_key_path repo)
      \<or> path_exists d (public_key_path repo)) m d = (Inr (), [])" for m
    using assms(1) by (simp add: exit_if_def fresh_def bootstrap_paths_def)
  show ?thesis
    unfolding bootstrap_def
    by (simp add: start secure_write_creates none mem c1 c2 d1_def [symmetric] d2_def [symmetric])
qed

end
