(* ===== verification/Bootstrap_Properties.thy ===== *)
theory Bootstrap_Properties
  imports Bootstrap App
begin

text \<open>
  What the bootstrap script guarantees: the files of a complete run, the settings that are read from them,
  the gateway that starts with these settings, and the disks that other processes and interrupted runs
  see. The parser of \<open>.env\<close> (python-dotenv) is a parameter; \<open>dotenv_reader\<close> is what its
  documentation says of assignments of unquoted words and of single-quoted text.
\<close>

section \<open>Reading the file back\<close>

text \<open>Printable ASCII, without the quote, the backslash and the brace that opens an interpolation.\<close>

definition quotable :: "char \<Rightarrow> bool" where
  "quotable c \<longleftrightarrow> (let n = (of_char c :: nat) in 32 \<le> n \<and> n \<le> 126 \<and> n \<noteq> 39 \<and> n \<noteq> 92 \<and> n \<noteq> 123)"

fun plain_value :: "env_value \<Rightarrow> bool" where
  "plain_value (Plain v) = list_all is_alnum v"
| "plain_value (Quoted v) = list_all quotable v"

definition plain_line :: "string \<times> env_value \<Rightarrow> bool" where
  "plain_line l \<longleftrightarrow> fst l \<noteq> [] \<and> list_all (\<lambda>c. is_upper c \<or> c = CHR ''_'') (fst l) \<and> plain_value (snd l)"

definition dotenv_reader :: "(string \<Rightarrow> variables) \<Rightarrow> bool" where
  "dotenv_reader parse \<longleftrightarrow>
     (\<forall>ls. list_all plain_line ls \<longrightarrow> parse (concat (map env_line ls)) = map (\<lambda>l. (fst l, env_text (snd l))) ls)"

text \<open>An Argon2 hash is printable ASCII without quotes and braces.\<close>

definition quotable_hasher :: "password_hasher \<Rightarrow> bool" where
  "quotable_hasher h \<longleftrightarrow> (\<forall>salt password. list_all quotable password \<longrightarrow> list_all quotable (ph_hash h salt password))"

text \<open>The bytes that \<open>secrets.token_urlsafe\<close> draws.\<close>

definition drawn :: "draws \<Rightarrow> bool" where
  "drawn r \<longleftrightarrow>
     (\<forall>bs\<in>{dr_api_key_pepper r, dr_worker_pepper r, dr_admin_pepper r}. is_bytes bs \<and> length bs = 48)
     \<and> (\<forall>bs\<in>{dr_postgres_password r, dr_admin_token r}. is_bytes bs \<and> length bs = 32)"

lemma url_char_quotable: "url_char c \<Longrightarrow> quotable c"
  by (auto simp: url_char_def is_alnum_def is_upper_def is_lower_def is_digit_def quotable_def Let_def)

lemma token_quotable: "is_bytes bs \<Longrightarrow> list_all quotable (token_urlsafe bs)"
  using token_urlsafe_chars [of bs] url_char_quotable by (auto simp: list_all_iff)

lemma digits_alnum: "list_all is_alnum (show_nat n)"
  using show_nat_digits [of n] by (auto simp: list_all_iff is_alnum_def)

lemma env_lines_plain:
  assumes "drawn r" and "quotable_hasher hasher"
  shows "list_all plain_line (env_lines hasher uid gid r)"
proof -
  have tokens: "list_all quotable (token_urlsafe bs)"
    if "bs \<in> {dr_api_key_pepper r, dr_worker_pepper r, dr_admin_pepper r, dr_postgres_password r, dr_admin_token r}" for bs
    using that assms(1) by (intro token_quotable) (auto simp: drawn_def)
  have literals: "list_all (list_all quotable) [''postgresql+asyncpg://orbi:'', ''@postgres:5432/orbi'', ''redis://redis:6379/0'',
      ''/run/secrets/orbi_jwt_private.pem'', ''/run/secrets/orbi_jwt_public.pem'', ''orbi-core'', ''orbi-worker'',
      ''orbi_admin_v1_'', '':'']"
    by code_simp
  have words: "list_all (list_all is_alnum) [''development'', ''INFO'', ''3600'', ''60'', ''1048576'', ''120'', ''30'', ''5'']"
    by code_simp
  have hash: "list_all quotable (admin_hash hasher r)"
    using assms(2) tokens literals by (simp add: quotable_hasher_def admin_hash_def peppered_def admin_token_def)
  have "list_all (\<lambda>n. n \<noteq> [] \<and> list_all (\<lambda>c. is_upper c \<or> c = CHR ''_'') n) (map fst (env_lines hasher uid gid r))"
    unfolding env_lines_def Let_def list.map fst_conv by code_simp
  moreover have "list_all plain_value (map snd (env_lines hasher uid gid r))"
    using tokens literals words hash by (simp add: env_lines_def Let_def digits_alnum)
  ultimately show ?thesis by (simp add: list_all_iff plain_line_def)
qed

text \<open>The settings that the file describes: everything else has its default.\<close>

definition written_settings :: "password_hasher \<Rightarrow> draws \<Rightarrow> settings" where
  "written_settings hasher r =
     default_settings (''postgresql+asyncpg://orbi:'' @ token_urlsafe (dr_postgres_password r) @ ''@postgres:5432/orbi'')
       ''redis://redis:6379/0'' (token_urlsafe (dr_api_key_pepper r)) (token_urlsafe (dr_worker_pepper r))
       (admin_hash hasher r) (token_urlsafe (dr_admin_pepper r))
       ''/run/secrets/orbi_jwt_private.pem'' ''/run/secrets/orbi_jwt_public.pem''"

lemma numerals:
  assumes "reads_numerals to_int"
  shows "map to_int [''3600'', ''60'', ''1048576'', ''120'', ''30'', ''5''] = map Some [3600, 60, 1048576, 120, 30, 5]"
proof -
  have "map parse_int [''3600'', ''60'', ''1048576'', ''120'', ''30'', ''5''] = map Some [3600, 60, 1048576, 120, 30, 5]"
    by (simp add: parse_int_def parse_unsigned_def max_str_digits_def digit_value_def is_digit_def)
  moreover have "list_all (\<lambda>s. s \<noteq> [] \<and> length s \<le> 9 \<and> list_all is_digit s) [''3600'', ''60'', ''1048576'', ''120'', ''30'', ''5'']"
    by (simp add: is_digit_def)
  then have "map to_int [''3600'', ''60'', ''1048576'', ''120'', ''30'', ''5''] =
      map parse_int [''3600'', ''60'', ''1048576'', ''120'', ''30'', ''5'']"
    using assms unfolding reads_numerals_def list_all_iff by (intro map_cong refl) blast
  ultimately show ?thesis by (rule trans [rotated])
qed

definition variable_names :: "string list" where
  "variable_names = map (\<lambda>f. ''orbi_'' @ f)
     [''environment'', ''log_level'', ''host_uid'', ''host_gid'', ''postgres_password'', ''database_url'', ''redis_url'',
      ''api_key_pepper'', ''worker_enrollment_pepper'', ''jwt_private_key_path'', ''jwt_public_key_path'', ''jwt_issuer'',
      ''jwt_audience'', ''worker_token_ttl_seconds'', ''admin_token_hash'', ''admin_token_pepper'',
      ''rate_limit_rpm_default'', ''max_request_body_bytes'', ''request_wait_timeout_seconds'', ''worker_lease_seconds'',
      ''lease_recovery_interval_seconds'', ''circuit_failure_threshold'', ''circuit_cooldown_seconds'']"

definition file_variables :: "password_hasher \<Rightarrow> nat \<Rightarrow> nat \<Rightarrow> draws \<Rightarrow> variables" where
  "file_variables hasher uid gid r = map (\<lambda>l. (fst l, env_text (snd l))) (env_lines hasher uid gid r)"

lemma lower_names: "map (lower \<circ> fst) (file_variables hasher uid gid r) = variable_names"
proof -
  have "map fst (file_variables hasher uid gid r) = map fst (env_lines hasher uid gid r)"
    by (simp add: file_variables_def)
  moreover have "map lower (map fst (env_lines hasher uid gid r)) = variable_names"
    by (simp add: env_lines_def Let_def lower_def is_upper_def variable_names_def char_of_eq_iff)
  ultimately show ?thesis by (metis list.map_comp)
qed

lemma distinct_variable_names: "distinct variable_names"
  by code_simp

text \<open>A variable of the file is found at its position.\<close>

lemma setting_nth:
  assumes "i < 23" and "variable_names ! i = ''orbi_'' @ f"
  shows "setting (file_variables hasher uid gid r) f = Some (env_text (snd (env_lines hasher uid gid r ! i)))"
proof -
  let ?e = "file_variables hasher uid gid r" and ?kv = "\<lambda>(name, v). (lower name, v)"
  have keys: "map fst (map ?kv ?e) = variable_names"
    using lower_names [of hasher uid gid r] by (simp add: comp_def split_beta)
  have len: "length ?e = 23" by (simp add: file_variables_def env_lines_def Let_def)
  have "map ?kv ?e ! i = (fst (map ?kv ?e ! i), env_text (snd (env_lines hasher uid gid r ! i)))"
    using assms(1) len by (simp add: file_variables_def split_beta)
  moreover have "fst (map ?kv ?e ! i) = ''orbi_'' @ f"
    using assms len arg_cong [OF keys, of "\<lambda>xs. xs ! i"] by simp
  ultimately have "(''orbi_'' @ f, env_text (snd (env_lines hasher uid gid r ! i))) \<in> set (map ?kv ?e)"
    using assms(1) len by (metis length_map nth_mem)
  moreover have "distinct (map fst (rev (map ?kv ?e)))"
    using keys distinct_variable_names by (simp only: rev_map [symmetric] distinct_rev)
  ultimately show ?thesis
    unfolding setting_def by (intro map_of_is_SomeI) simp_all
qed

text \<open>Every field of the class but its defaults is in the file.\<close>

lemma file_settings:
  assumes "reads_numerals to_int"
  shows "settings_of to_int (file_variables hasher uid gid r) = Inr (written_settings hasher r)"
proof -
  let ?e = "file_variables hasher uid gid r"
  have nth: "setting ?e f = Some (env_text (snd (env_lines hasher uid gid r ! i)))"
    if "i < 23" "drop (length ''orbi_'') (variable_names ! i) = f" "take (length ''orbi_'') (variable_names ! i) = ''orbi_''" for i f
    using that append_take_drop_id [of "length ''orbi_''" "variable_names ! i"] by (intro setting_nth) simp_all
  have look: "setting ?e f = Some (env_text (snd (env_lines hasher uid gid r ! i)))"
    if "(f, i) \<in> set [(''environment'', 0), (''log_level'', 1), (''database_url'', 5), (''redis_url'', 6), (''api_key_pepper'', 7),
      (''worker_enrollment_pepper'', 8), (''jwt_private_key_path'', 9), (''jwt_public_key_path'', 10), (''jwt_issuer'', 11),
      (''jwt_audience'', 12), (''worker_token_ttl_seconds'', 13), (''admin_token_hash'', 14), (''admin_token_pepper'', 15),
      (''rate_limit_rpm_default'', 16), (''max_request_body_bytes'', 17), (''request_wait_timeout_seconds'', 18),
      (''worker_lease_seconds'', 19), (''lease_recovery_interval_seconds'', 20), (''circuit_failure_threshold'', 21),
      (''circuit_cooldown_seconds'', 22)]" for f and i :: nat
    using that by (intro nth) (auto simp: variable_names_def)
  note fields = text_field_Some [OF look] int_field_Some [OF look]
  show ?thesis
    using numerals [OF assms]
    by (simp add: settings_of_def fields env_lines_def Let_def written_settings_def default_settings_def)
qed

lemma pepper_token: "is_bytes bs \<Longrightarrow> length bs = 48 \<Longrightarrow> pepper_ok (token_urlsafe bs)"
proof -
  assume bs: "is_bytes bs" "length bs = 48"
  have "(of_char c :: nat) < 128" if "url_char c" for c
    using that by (auto simp: url_char_def is_alnum_def is_upper_def is_lower_def is_digit_def Let_def)
  then have "list_all (\<lambda>n. n < 128) (text_of (token_urlsafe bs))"
    using token_urlsafe_chars [OF bs(1)] by (auto simp: text_of_def list_all_iff)
  from utf8_length_ascii [OF this] show ?thesis
    using bs by (simp add: pepper_ok_def text_of_def length_token_urlsafe)
qed

lemma file_settings_valid:
  assumes "reads_numerals to_int" and "drawn r"
    and "\<forall>bs\<in>{dr_api_key_pepper r, dr_worker_pepper r, dr_admin_pepper r}. \<not> starts_with ''replace-'' (token_urlsafe bs)"
  shows "get_settings to_int (file_variables hasher uid gid r) = Inr (written_settings hasher r)"
proof -
  have peppers: "\<forall>bs\<in>{dr_api_key_pepper r, dr_worker_pepper r, dr_admin_pepper r}. pepper_ok (token_urlsafe bs)"
    using assms(2) pepper_token by (auto simp: drawn_def)
  have "settings_in_range (written_settings hasher r)"
    by (simp add: written_settings_def default_settings_def settings_in_range_def in_range_def)
  then have "validate_settings (written_settings hasher r) = Inr (written_settings hasher r)"
    using peppers assms(3) unfolding validate_settings_Inr by (simp add: written_settings_def default_settings_def)
  then show ?thesis by (simp add: get_settings_def file_settings [OF assms(1)])
qed

lemma file_reads_back:
  assumes "dotenv_reader parse" and "drawn r" and "quotable_hasher hasher"
  shows "parse (env_content hasher uid gid r) = file_variables hasher uid gid r"
  using assms(1) env_lines_plain [OF assms(2,3)] by (simp add: dotenv_reader_def env_content_def file_variables_def)

text \<open>The administrator that the running gateway knows is the holder of the printed token.\<close>

lemma written_admin:
  assumes "sound_hasher hasher" and "app_admin_verifier app = verify_admin hasher (written_settings hasher r)"
    and "\<forall>c\<in>set token. \<not> is_space c"
  shows "require_admin app (Some (''Bearer '' @ token)) = Inr () \<longleftrightarrow> token = admin_token r"
  using verify_guarded_hash [OF assms(1)]
  unfolding require_admin_def bearer_token_header [OF assms(3)] assms(2)
  by (simp add: verify_admin_def written_settings_def default_settings_def admin_hash_def)

section \<open>The disks of a run\<close>

definition complete_file :: "disk \<Rightarrow> path \<Rightarrow> string \<Rightarrow> bool" where
  "complete_file d p content \<longleftrightarrow> dk_files d p = Some \<lparr>fl_content = content, fl_mode = owner_only\<rparr>"

lemma complete_write: "complete_file (last (write_disks umask p content d)) p content"
  by (simp add: complete_file_def write_disks_files)

lemma complete_write_other:
  "q \<noteq> p \<Longrightarrow> x \<in> set (write_disks umask p content d) \<Longrightarrow> complete_file x q c = complete_file d q c"
  by (simp add: complete_file_def write_disks_files)

lemma last_write_disks: "last (write_disks umask p content d) \<in> set (write_disks umask p content d)"
  by (simp add: write_disks_files)

lemma bootstrap_final:
  assumes "fresh repo d"
  shows "\<exists>ds. bootstrap umask repo hasher uid gid r d =
      (Inr [''ORBI development configuration created.'',
            ''Store this bootstrap admin token now; it will not be written to disk again:'', admin_token r], ds)
    \<and> complete_file (last ds) (private_key_path repo) (dr_private_pem r)
    \<and> complete_file (last ds) (public_key_path repo) (dr_public_pem r)
    \<and> complete_file (last ds) (env_path repo) (env_content hasher uid gid r)"
  unfolding bootstrap_run [OF assms]
  using bootstrap_paths_distinct [of repo]
  by (simp add: bootstrap_paths_def complete_write complete_write_other [OF _ last_write_disks])

text \<open>The disks on the way: nothing else changes, and \<open>.env\<close> appears when the keys are in place.\<close>

lemma bootstrap_between:
  assumes "fresh repo d" and "bootstrap umask repo hasher uid gid r d = (res, ds)" and "x \<in> set ds"
  shows "(\<forall>p. p \<notin> set (bootstrap_paths repo) \<longrightarrow> dk_files x p = dk_files d p)
    \<and> (dk_files x (env_path repo) \<noteq> None \<longrightarrow>
        complete_file x (private_key_path repo) (dr_private_pem r) \<and> complete_file x (public_key_path repo) (dr_public_pem r))"
proof -
  let ?d1 = "last (write_disks umask (private_key_path repo) (dr_private_pem r) d)"
  let ?d2 = "last (write_disks umask (public_key_path repo) (dr_public_pem r) ?d1)"
  have apart: "private_key_path repo \<noteq> public_key_path repo" "private_key_path repo \<noteq> env_path repo"
    "public_key_path repo \<noteq> env_path repo"
    using bootstrap_paths_distinct [of repo] by (simp_all add: bootstrap_paths_def)
  have none: "dk_files d (env_path repo) = None"
    using assms(1) by (simp add: fresh_def path_exists_def bootstrap_paths_def)
  note frames = write_disks_files(3) [OF last_write_disks]
  from assms(2) consider
    (first) "x \<in> set (write_disks umask (private_key_path repo) (dr_private_pem r) d)"
  | (second) "x \<in> set (write_disks umask (public_key_path repo) (dr_public_pem r) ?d1)"
  | (third) "x \<in> set (write_disks umask (env_path repo) (env_content hasher uid gid r) ?d2)"
    using assms(3) unfolding bootstrap_run [OF assms(1)] by auto
  then show ?thesis
  proof cases
    case first
    then show ?thesis
      using apart none by (simp add: write_disks_files(3) bootstrap_paths_def)
  next
    case second
    then show ?thesis
      using apart none by (simp add: write_disks_files(3) frames bootstrap_paths_def)
  next
    case third
    then show ?thesis
      using apart by (simp add: write_disks_files(3) frames bootstrap_paths_def complete_write
          complete_write_other [OF _ third] complete_write_other [OF _ last_write_disks])
  qed
qed

text \<open>Of the administrator token the file holds the hash only.\<close>

lemma env_content_token:
  assumes "admin_hash hasher (r\<lparr>dr_admin_token := t\<rparr>) = admin_hash hasher r"
  shows "env_content hasher uid gid (r\<lparr>dr_admin_token := t\<rparr>) = env_content hasher uid gid r"
  using assms by (simp add: env_content_def env_lines_def)

section \<open>Samples\<close>

text \<open>A reader of \<open>.env\<close> files that meets the contract.\<close>

fun split_lines :: "string \<Rightarrow> string \<Rightarrow> string list" where
  "split_lines acc [] = []"
| "split_lines acc (c # cs) = (if c = CHR 0x0A then rev acc # split_lines [] cs else split_lines (c # acc) cs)"

definition read_line :: "string \<Rightarrow> string \<times> string" where
  "read_line l =
     (takeWhile (\<lambda>c. c \<noteq> CHR ''='') l,
      (case drop 1 (dropWhile (\<lambda>c. c \<noteq> CHR ''='') l) of
         [] \<Rightarrow> []
       | c # cs \<Rightarrow> if c = CHR 0x27 then butlast cs else c # cs))"

definition sample_dotenv :: "string \<Rightarrow> variables" where
  "sample_dotenv s = map read_line (split_lines [] s)"

lemma split_lines_append:
  "list_all (\<lambda>c. c \<noteq> CHR 0x0A) l \<Longrightarrow> split_lines acc (l @ CHR 0x0A # rest) = (rev acc @ l) # split_lines [] rest"
  by (induction l arbitrary: acc) auto

lemma plain_chars:
  "\<not> quotable (CHR 0x0A)" "\<not> is_alnum (CHR 0x0A)" "\<not> is_alnum (CHR 0x27)" "\<not> is_upper (CHR 0x0A)" "\<not> is_upper (CHR ''='')"
  by (simp_all add: quotable_def is_alnum_def is_upper_def is_lower_def is_digit_def)

lemma read_plain_line:
  assumes "plain_line l"
  shows "read_line (fst l @ ''='' @ value_text (snd l)) = (fst l, env_text (snd l))"
proof -
  have "\<forall>c\<in>set (fst l). c \<noteq> CHR ''=''"
    using assms plain_chars(5) by (fastforce simp: plain_line_def list_all_iff)
  then have "takeWhile (\<lambda>c. c \<noteq> CHR ''='') (fst l @ CHR ''='' # v) = fst l"
    "dropWhile (\<lambda>c. c \<noteq> CHR ''='') (fst l @ CHR ''='' # v) = CHR ''='' # v" for v
    by (simp_all add: takeWhile_append2 dropWhile_append2)
  moreover have "snd l = Plain (c # cs) \<Longrightarrow> c \<noteq> CHR 0x27" for c cs
    using assms plain_chars(3) by (auto simp: plain_line_def)
  ultimately show ?thesis
    by (cases "snd l") (auto simp: read_line_def split: list.split)
qed

lemma sample_dotenv_reads: "dotenv_reader sample_dotenv"
proof -
  have "split_lines [] (concat (map env_line ls)) = map (\<lambda>l. fst l @ ''='' @ value_text (snd l)) ls"
    if "list_all plain_line ls" for ls
    using that
  proof (induction ls)
    case (Cons l ls)
    have "list_all (\<lambda>c. c \<noteq> CHR 0x0A) (fst l @ ''='' @ value_text (snd l))"
      using Cons.prems plain_chars by (cases "snd l") (fastforce simp: plain_line_def list_all_iff)+
    from split_lines_append [OF this] Cons show ?case by (simp add: env_line_def)
  qed simp
  note split = this
  have "sample_dotenv (concat (map env_line ls)) = map (\<lambda>l. (fst l, env_text (snd l))) ls" if "list_all plain_line ls" for ls
    unfolding sample_dotenv_def split [OF that] list.map_comp comp_def
    using that read_plain_line by (intro map_cong refl) (auto simp: list_all_iff simp del: append.simps)
  then show ?thesis by (simp add: dotenv_reader_def)
qed

definition sample_draws :: draws where
  "sample_draws = \<lparr>dr_private_pem = ''k'', dr_public_pem = ''p'', dr_api_key_pepper = replicate 48 1,
     dr_worker_pepper = replicate 48 2, dr_admin_pepper = replicate 48 3, dr_postgres_password = replicate 32 4,
     dr_admin_token = replicate 32 5, dr_salt = []\<rparr>"

definition sample_disk :: disk where
  "sample_disk = \<lparr>dk_files = (\<lambda>_. None), dk_dirs = {[], [''orbi'']}\<rparr>"

lemma sample_disk_fresh: "fresh [''orbi''] sample_disk"
  by (simp add: fresh_def sample_disk_def path_defs path_exists_def)

lemma sample_drawn: "drawn sample_draws"
  by (simp add: drawn_def sample_draws_def is_bytes_def list_all_iff)

lemma quotable_plain_hasher: "quotable_hasher plain_hasher"
  by (simp add: quotable_hasher_def plain_hasher_def)

lemma sample_peppers:
  "\<forall>bs\<in>{dr_api_key_pepper sample_draws, dr_worker_pepper sample_draws, dr_admin_pepper sample_draws}.
     \<not> starts_with ''replace-'' (token_urlsafe bs)"
  unfolding sample_draws_def draws.simps by code_simp

section \<open>Properties\<close>

text \<open>C34. What the bootstrap script writes starts the gateway. On a disk without its three files a run succeeds
  and leaves them with exactly the generated content, readable by the owner only. When no pepper happens to
  start with \<open>replace-\<close>, the settings read back from \<open>.env\<close> pass validation, the application is created and its services
  start on the key pair (mounted as in \<open>deploy/docker-compose.yml\<close>), and of all tokens without white space the printed one is the
  only one that authenticates an administrator.\<close>

theorem bootstrap_starts_gateway:
  assumes "fresh repo d" and "drawn r" and "sound_hasher hasher" and "quotable_hasher hasher"
    and "dotenv_reader parse" and "reads_numerals to_int"
    and "\<forall>bs\<in>{dr_api_key_pepper r, dr_worker_pepper r, dr_admin_pepper r}. \<not> starts_with ''replace-'' (token_urlsafe bs)"
    and "read_text ''/run/secrets/orbi_jwt_private.pem'' = Inr (dr_private_pem r)"
    and "read_text ''/run/secrets/orbi_jwt_public.pem'' = Inr (dr_public_pem r)"
  shows "\<exists>ds env st app.
      bootstrap umask repo hasher uid gid r d = (Inr [''ORBI development configuration created.'',
         ''Store this bootstrap admin token now; it will not be written to disk again:'', admin_token r], ds)
    \<and> complete_file (last ds) (private_key_path repo) (dr_private_pem r)
    \<and> complete_file (last ds) (public_key_path repo) (dr_public_pem r)
    \<and> complete_file (last ds) (env_path repo) env
    \<and> get_settings to_int (parse env) = Inr st \<and> create_app st = Inr st
    \<and> lifespan_start read_text hasher codec redis st = Inr app
    \<and> jw_private_key (app_jwt_service app) = dr_private_pem r \<and> jw_public_key (app_jwt_service app) = dr_public_pem r
    \<and> (\<forall>token. (\<forall>c\<in>set token. \<not> is_space c) \<longrightarrow>
         (require_admin (base app) (Some (''Bearer '' @ token)) = Inr () \<longleftrightarrow> token = admin_token r))"
proof -
  let ?st = "written_settings hasher r" and ?env = "env_content hasher uid gid r"
  obtain ds where run: "bootstrap umask repo hasher uid gid r d = (Inr [''ORBI development configuration created.'',
         ''Store this bootstrap admin token now; it will not be written to disk again:'', admin_token r], ds)"
    and files: "complete_file (last ds) (private_key_path repo) (dr_private_pem r)"
      "complete_file (last ds) (public_key_path repo) (dr_public_pem r)" "complete_file (last ds) (env_path repo) ?env"
    using bootstrap_final [OF assms(1), of umask hasher uid gid r] by blast
  have loaded: "get_settings to_int (parse ?env) = Inr ?st"
    unfolding file_reads_back [OF assms(5,2,4)] using assms(6,2,7) by (rule file_settings_valid)
  then have valid: "validate_settings ?st = Inr ?st"
    by (auto simp: get_settings_def bind_result_eq_Inr validate_settings_Inr)
  then have "pepper_ok (st_api_key_pepper ?st)" "pepper_ok (st_worker_enrollment_pepper ?st)"
    by (simp_all add: validate_settings_Inr)
  then have "\<exists>app. lifespan_start read_text hasher codec redis ?st = Inr app
      \<and> jw_private_key (app_jwt_service app) = dr_private_pem r \<and> jw_public_key (app_jwt_service app) = dr_public_pem r
      \<and> app_admin_verifier (base app) = verify_admin hasher ?st"
    using assms(8,9)
    by (simp add: lifespan_start_def api_key_service_init_def enrollment_service_init_def jwt_service_init_def
        worker_health_init_def default_heartbeat_timeout_def written_settings_def default_settings_def app_state.truncate_def)
  moreover have "upper (st_log_level ?st) \<in> set level_names"
    unfolding written_settings_def default_settings_def settings.simps by code_simp
  ultimately show ?thesis
    using run files loaded valid written_admin [OF assms(3)] unfolding create_app_Inr by blast
qed

theorem bootstrap_starts_gateway_witness:
  "\<exists>app.
      fst (bootstrap 0x12 [''orbi''] plain_hasher 1000 1000 sample_draws sample_disk) =
        Inr [''ORBI development configuration created.'',
          ''Store this bootstrap admin token now; it will not be written to disk again:'', admin_token sample_draws]
    \<and> lifespan_start (\<lambda>p. Inr (if p = ''/run/secrets/orbi_jwt_private.pem'' then ''k'' else ''p''))
        plain_hasher sample_codec map_counters (written_settings plain_hasher sample_draws) = Inr app
    \<and> jw_public_key (app_jwt_service app) = ''p''
    \<and> require_admin (base app) (Some ''Bearer guess'') \<noteq> Inr ()"
proof -
  let ?read = "\<lambda>p. Inr (if p = ''/run/secrets/orbi_jwt_private.pem'' then ''k'' else ''p'') :: string result"
  have keys: "?read ''/run/secrets/orbi_jwt_private.pem'' = Inr (dr_private_pem sample_draws)"
    "?read ''/run/secrets/orbi_jwt_public.pem'' = Inr (dr_public_pem sample_draws)"
    by (simp_all add: sample_draws_def)
  obtain ds env st and app :: "((string \<Rightarrow> int) \<times> (string \<Rightarrow> bool)) services"
    where run: "bootstrap 0x12 [''orbi''] plain_hasher 1000 1000 sample_draws sample_disk =
        (Inr [''ORBI development configuration created.'',
          ''Store this bootstrap admin token now; it will not be written to disk again:'', admin_token sample_draws], ds)"
    and env: "complete_file (last ds) (env_path [''orbi'']) env" and st: "get_settings parse_int (sample_dotenv env) = Inr st"
    and app: "lifespan_start ?read plain_hasher sample_codec map_counters st = Inr app"
      "jw_public_key (app_jwt_service app) = dr_public_pem sample_draws"
    and admin: "\<And>token. \<forall>c\<in>set token. \<not> is_space c \<Longrightarrow>
      require_admin (base app) (Some (''Bearer '' @ token)) = Inr () \<longleftrightarrow> token = admin_token sample_draws"
    using bootstrap_starts_gateway [OF sample_disk_fresh sample_drawn sound_plain_hasher quotable_plain_hasher
        sample_dotenv_reads reads_numerals_parse_int sample_peppers keys, of "0x12" 1000 1000 sample_codec map_counters]
    by blast
  obtain ds' where "bootstrap 0x12 [''orbi''] plain_hasher 1000 1000 sample_draws sample_disk =
      (Inr [''ORBI development configuration created.'',
          ''Store this bootstrap admin token now; it will not be written to disk again:'', admin_token sample_draws], ds')"
    "complete_file (last ds') (env_path [''orbi'']) (env_content plain_hasher 1000 1000 sample_draws)"
    using bootstrap_final [OF sample_disk_fresh] by blast
  with run env have "env = env_content plain_hasher 1000 1000 sample_draws" by (simp add: complete_file_def)
  with st have "st = written_settings plain_hasher sample_draws"
    using file_settings_valid [OF reads_numerals_parse_int sample_drawn sample_peppers]
    by (simp add: file_reads_back [OF sample_dotenv_reads sample_drawn quotable_plain_hasher])
  moreover have "\<forall>c\<in>set ''guess''. \<not> is_space c" by (simp add: is_space_def)
  from admin [OF this] have "require_admin (base app) (Some ''Bearer guess'') \<noteq> Inr ()"
    by (simp add: admin_token_def)
  ultimately show ?thesis
    using run app by (intro exI [of _ app]) (simp add: sample_draws_def)
qed

text \<open>\<open>secure_write\<close> never overwrites: where something exists it exits and the disk stays as it is. Where a
  file can be created it is, with the content and the owner's permissions in the end, and nothing else changes
  on the way. But the complete content is on the disk under the default permissions first.\<close>

theorem secure_write_spec:
  assumes "creatable d p"
  shows "\<exists>ds. secure_write umask p content d = (Inr (), ds)
    \<and> complete_file (last ds) p content
    \<and> (\<forall>x\<in>set ds. \<forall>q. q \<noteq> p \<longrightarrow> dk_files x q = dk_files d q)
    \<and> (\<exists>x\<in>set ds. dk_files x p = Some \<lparr>fl_content = content, fl_mode = default_mode umask\<rparr>)
    \<and> (\<forall>umask' content'. secure_write umask' p content' (last ds) =
        (Inl (SystemExit (''Refusing to overwrite existing file: '' @ path_str p)), []))"
proof -
  let ?ds = "write_disks umask p content d"
  have "\<exists>x\<in>set ?ds. dk_files x p = Some \<lparr>fl_content = content, fl_mode = default_mode umask\<rparr>"
    by (simp add: write_disks_def Let_def)
  moreover have "path_exists (last ?ds) p" by (simp add: path_exists_def write_disks_files)
  ultimately show ?thesis
    using complete_write [of umask p content d] write_disks_files(3) [of _ umask p content d]
    by (intro exI [of _ ?ds]) (simp add: secure_write_creates [OF assms] secure_write_refuses)
qed

theorem secure_write_spec_witness:
  "\<exists>ds x. secure_write 0x12 [''orbi'', ''k''] ''secret'' sample_disk = (Inr (), ds) \<and> x \<in> set ds
     \<and> dk_files x [''orbi'', ''k''] = Some \<lparr>fl_content = ''secret'', fl_mode = 0x1A4\<rparr>
     \<and> bit (0x1A4 :: mode) 2"
proof -
  have "creatable sample_disk [''orbi'', ''k'']" by (simp add: creatable_def path_exists_def sample_disk_def)
  moreover have "default_mode 0x12 = 0x1A4" "bit (0x1A4 :: mode) 2" by (simp_all add: default_mode_def)
  ultimately show ?thesis using secure_write_spec [of sample_disk "[''orbi'', ''k'']" "0x12" "''secret''"] by auto
qed



end
