(* ===== verification/Orm_Schema.thy ===== *)
theory Orm_Schema
  imports Prelude
begin

text \<open>
  The metadata of \<open>models/entities.py\<close>: one table per class with its columns in declaration order,
  their types, nullability, keys, references and defaults. A type given by \<open>Mapped\<close> alone or by
  the referenced column is written out. \<open>default=\<close> is the value the client supplies,
  \<open>server_default=\<close> the value the database does; both are kept as values, whether the source
  writes them as Python literals or as SQL text. Constraints have the name that the source gives them, if any.
\<close>

datatype sql_type =
    SqlUuid | SqlString nat | SqlText | SqlBigInteger | SqlInteger | SqlSmallInteger | SqlBoolean
  | SqlDate | SqlTimestamp | SqlFloat | SqlNumeric nat nat | SqlJsonb | SqlTextArray

datatype default_value =
    IntValue int | BoolValue bool | TextValue string | TextArray "string list"
  | EmptyObject | Now | CurrentDate | CurrentMonth | RandomUuid

datatype on_delete = NoAction | Cascade | Restrict | SetNull

datatype check = OneOf string "string list" | Within string int int

record table_column =
  co_name :: string
  co_type :: sql_type
  co_nullable :: bool
  co_primary :: bool
  co_unique :: bool
  co_indexed :: bool
  co_references :: "(string \<times> string \<times> on_delete) option"
  co_client_default :: "default_value option"
  co_server_default :: "default_value option"

record table =
  tb_name :: string
  tb_columns :: "table_column list"
  tb_uniques :: "(string \<times> string list) list"
  tb_checks :: "(string option \<times> check) list"

definition column :: "string \<Rightarrow> sql_type \<Rightarrow> table_column" where
  "column name type =
     \<lparr>co_name = name, co_type = type, co_nullable = True, co_primary = False, co_unique = False,
      co_indexed = False, co_references = None, co_client_default = None, co_server_default = None\<rparr>"

definition not_null :: "table_column \<Rightarrow> table_column" where
  "not_null c = c\<lparr>co_nullable := False\<rparr>"

definition primary_key :: "table_column \<Rightarrow> table_column" where
  "primary_key c = c\<lparr>co_primary := True\<rparr>"

definition unique :: "table_column \<Rightarrow> table_column" where
  "unique c = c\<lparr>co_unique := True\<rparr>"

definition indexed :: "table_column \<Rightarrow> table_column" where
  "indexed c = c\<lparr>co_indexed := True\<rparr>"

definition references :: "string \<times> string \<times> on_delete \<Rightarrow> table_column \<Rightarrow> table_column" where
  "references target c = c\<lparr>co_references := Some target\<rparr>"

definition client_default :: "default_value \<Rightarrow> table_column \<Rightarrow> table_column" where
  "client_default v c = c\<lparr>co_client_default := Some v\<rparr>"

definition server_default :: "default_value \<Rightarrow> table_column \<Rightarrow> table_column" where
  "server_default v c = c\<lparr>co_server_default := Some v\<rparr>"

section \<open>The classes\<close>

definition orm_projects :: table where
  "orm_projects = \<lparr>tb_name = ''projects'',
     tb_columns =
       [client_default (RandomUuid) (primary_key (not_null (column ''id'' SqlUuid))),
        not_null (column ''name'' (SqlString 128)),
        unique (not_null (column ''slug'' (SqlString 64))),
        not_null (column ''owner_id'' SqlUuid),
        client_default (IntValue 1000000) (not_null (column ''monthly_token_limit'' SqlBigInteger)),
        client_default (IntValue 0) (not_null (column ''monthly_tokens_used'' SqlBigInteger)),
        client_default (IntValue 100000) (not_null (column ''daily_token_limit'' SqlBigInteger)),
        client_default (IntValue 0) (not_null (column ''daily_tokens_used'' SqlBigInteger)),
        server_default (CurrentDate) (not_null (column ''daily_usage_date'' SqlDate)),
        server_default (CurrentMonth) (not_null (column ''monthly_usage_month'' SqlDate)),
        client_default (BoolValue True) (not_null (column ''is_active'' SqlBoolean)),
        server_default (Now) (not_null (column ''created_at'' SqlTimestamp))],
     tb_uniques = [], tb_checks = []\<rparr>"

definition orm_api_keys :: table where
  "orm_api_keys = \<lparr>tb_name = ''api_keys'',
     tb_columns =
       [client_default (RandomUuid) (primary_key (not_null (column ''id'' SqlUuid))),
        references (''projects'', ''id'', Cascade) (not_null (column ''project_id'' SqlUuid)),
        indexed (unique (not_null (column ''key_id'' (SqlString 32)))),
        not_null (column ''display_prefix'' (SqlString 64)),
        not_null (column ''secret_hash'' SqlText),
        not_null (column ''environment'' (SqlString 8)),
        column ''name'' (SqlString 128),
        client_default (TextArray [''chat'', ''models:read'', ''usage:read'']) (not_null (column ''scopes'' SqlTextArray)),
        column ''expires_at'' SqlTimestamp,
        column ''revoked_at'' SqlTimestamp,
        column ''last_used_at'' SqlTimestamp,
        client_default (IntValue 0) (not_null (column ''total_requests'' SqlBigInteger)),
        client_default (IntValue 0) (not_null (column ''total_tokens'' SqlBigInteger)),
        client_default (IntValue 60) (not_null (column ''rpm_limit'' SqlInteger)),
        client_default (IntValue 1000) (not_null (column ''daily_req_limit'' SqlInteger)),
        client_default (IntValue 0) (not_null (column ''daily_requests_used'' SqlInteger)),
        server_default (CurrentDate) (not_null (column ''daily_requests_date'' SqlDate)),
        server_default (Now) (not_null (column ''created_at'' SqlTimestamp))],
     tb_uniques = [], tb_checks = [(None, OneOf ''environment'' [''live'', ''test''])]\<rparr>"

definition orm_model_aliases :: table where
  "orm_model_aliases = \<lparr>tb_name = ''model_aliases'',
     tb_columns =
       [primary_key (not_null (column ''alias'' (SqlString 64))),
        column ''display_name'' (SqlString 128),
        not_null (column ''model_id'' (SqlString 256)),
        references (''model_aliases'', ''alias'', NoAction) (column ''fallback_alias'' (SqlString 64)),
        client_default (BoolValue True) (not_null (column ''is_active'' SqlBoolean)),
        column ''min_vram_gb'' SqlFloat,
        client_default (EmptyObject) (not_null (column ''required_capabilities'' SqlJsonb)),
        client_default (BoolValue True) (not_null (column ''supports_streaming'' SqlBoolean)),
        client_default (BoolValue False) (not_null (column ''supports_tools'' SqlBoolean)),
        client_default (IntValue 4096) (not_null (column ''max_context_tokens'' SqlInteger))],
     tb_uniques = [], tb_checks = []\<rparr>"

definition orm_workers :: table where
  "orm_workers = \<lparr>tb_name = ''workers'',
     tb_columns =
       [client_default (RandomUuid) (primary_key (not_null (column ''id'' SqlUuid))),
        not_null (column ''provider_type'' (SqlString 32)),
        not_null (column ''name'' (SqlString 128)),
        client_default (TextValue ''OFFLINE'') (not_null (column ''status'' (SqlString 32))),
        client_default (TextArray []) (not_null (column ''supported_models'' SqlTextArray)),
        client_default (EmptyObject) (not_null (column ''capabilities'' SqlJsonb)),
        client_default (IntValue 0) (not_null (column ''current_queue_depth'' SqlInteger)),
        client_default (IntValue 0) (not_null (column ''failure_count_1h'' SqlInteger)),
        column ''p95_latency_ms'' SqlFloat,
        column ''token_jti'' (SqlString 128),
        server_default (Now) (not_null (column ''registered_at'' SqlTimestamp)),
        column ''last_heartbeat'' SqlTimestamp,
        column ''revoked_at'' SqlTimestamp],
     tb_uniques = [], tb_checks = []\<rparr>"

definition orm_enrollment_tokens :: table where
  "orm_enrollment_tokens = \<lparr>tb_name = ''worker_enrollment_tokens'',
     tb_columns =
       [client_default (RandomUuid) (primary_key (not_null (column ''id'' SqlUuid))),
        indexed (unique (not_null (column ''token_id'' (SqlString 32)))),
        not_null (column ''secret_hash'' SqlText),
        not_null (column ''expires_at'' SqlTimestamp),
        column ''consumed_at'' SqlTimestamp,
        server_default (Now) (not_null (column ''created_at'' SqlTimestamp))],
     tb_uniques = [], tb_checks = []\<rparr>"

definition orm_requests :: table where
  "orm_requests = \<lparr>tb_name = ''orbi_requests'',
     tb_columns =
       [client_default (RandomUuid) (primary_key (not_null (column ''id'' SqlUuid))),
        column ''idempotency_key'' (SqlString 128),
        references (''projects'', ''id'', Cascade) (not_null (column ''project_id'' SqlUuid)),
        references (''api_keys'', ''id'', Restrict) (not_null (column ''api_key_id'' SqlUuid)),
        not_null (column ''model_alias'' (SqlString 64)),
        not_null (column ''resolved_model'' (SqlString 256)),
        not_null (column ''payload'' SqlJsonb),
        client_default (EmptyObject) (not_null (column ''required_capabilities'' SqlJsonb)),
        client_default (IntValue 5) (not_null (column ''priority'' SqlSmallInteger)),
        client_default (TextValue ''QUEUED'') (not_null (column ''status'' (SqlString 32))),
        references (''workers'', ''id'', SetNull) (column ''assigned_to'' SqlUuid),
        column ''lease_expires'' SqlTimestamp,
        client_default (IntValue 0) (not_null (column ''retry_count'' SqlInteger)),
        client_default (IntValue 3) (not_null (column ''max_retries'' SqlInteger)),
        server_default (Now) (not_null (column ''created_at'' SqlTimestamp)),
        not_null (column ''expires_at'' SqlTimestamp),
        column ''completed_at'' SqlTimestamp,
        column ''result'' SqlJsonb,
        column ''error_detail'' SqlJsonb,
        column ''input_tokens'' SqlInteger,
        column ''output_tokens'' SqlInteger,
        client_default (IntValue 0) (not_null (column ''reserved_tokens'' SqlInteger)),
        server_default (CurrentDate) (not_null (column ''budget_day'' SqlDate)),
        server_default (CurrentMonth) (not_null (column ''budget_month'' SqlDate))],
     tb_uniques = [(''uq_requests_key_idempotency'', [''api_key_id'', ''idempotency_key''])],
     tb_checks = [(None, Within ''priority'' 1 10)]\<rparr>"

definition orm_usage_records :: table where
  "orm_usage_records = \<lparr>tb_name = ''usage_records'',
     tb_columns =
       [client_default (RandomUuid) (primary_key (not_null (column ''id'' SqlUuid))),
        references (''orbi_requests'', ''id'', Restrict) (unique (not_null (column ''request_id'' SqlUuid))),
        references (''projects'', ''id'', Restrict) (not_null (column ''project_id'' SqlUuid)),
        references (''api_keys'', ''id'', Restrict) (not_null (column ''api_key_id'' SqlUuid)),
        references (''workers'', ''id'', SetNull) (column ''worker_id'' SqlUuid),
        column ''provider_type'' (SqlString 32),
        not_null (column ''model_id'' (SqlString 256)),
        not_null (column ''input_tokens'' SqlInteger),
        not_null (column ''output_tokens'' SqlInteger),
        column ''latency_ms'' SqlInteger,
        client_default (IntValue 0) (not_null (column ''cost_usd'' (SqlNumeric 12 8))),
        server_default (Now) (not_null (column ''recorded_at'' SqlTimestamp))],
     tb_uniques = [], tb_checks = []\<rparr>"

definition orm_incidents :: table where
  "orm_incidents = \<lparr>tb_name = ''incidents'',
     tb_columns =
       [client_default (RandomUuid) (primary_key (not_null (column ''id'' SqlUuid))),
        not_null (column ''type'' (SqlString 64)),
        not_null (column ''severity'' (SqlString 16)),
        references (''workers'', ''id'', SetNull) (column ''worker_id'' SqlUuid),
        client_default (EmptyObject) (not_null (column ''detail'' SqlJsonb)),
        column ''resolved_at'' SqlTimestamp,
        server_default (Now) (not_null (column ''created_at'' SqlTimestamp))],
     tb_uniques = [], tb_checks = [(None, OneOf ''severity'' [''info'', ''warning'', ''critical''])]\<rparr>"

definition orm_metadata :: "table list" where
  "orm_metadata = [orm_projects, orm_api_keys, orm_model_aliases, orm_workers,
      orm_enrollment_tokens, orm_requests, orm_usage_records, orm_incidents]"


end
