(* ===== verification/Migration.thy ===== *)
theory Migration
  imports Orm_Schema
begin

text \<open>
  \<open>alembic/versions/0001_phase1_foundation.py\<close>: the operations of \<open>upgrade\<close> and \<open>downgrade\<close>, what
  PostgreSQL requires of them, and the comparison of the schema they build with the metadata of
  the ORM.
\<close>

datatype migration_op =
    CreateTable table
  | CreateIndex string string "string list" "check option"
  | DropTable string

section \<open>The tables\<close>

definition migrated_projects :: table where
  "migrated_projects = \<lparr>tb_name = ''projects'',
     tb_columns =
       [primary_key (not_null (column ''id'' SqlUuid)),
        not_null (column ''name'' (SqlString 128)),
        unique (not_null (column ''slug'' (SqlString 64))),
        not_null (column ''owner_id'' SqlUuid),
        server_default (IntValue 1000000) (not_null (column ''monthly_token_limit'' SqlBigInteger)),
        server_default (IntValue 0) (not_null (column ''monthly_tokens_used'' SqlBigInteger)),
        server_default (IntValue 100000) (not_null (column ''daily_token_limit'' SqlBigInteger)),
        server_default (IntValue 0) (not_null (column ''daily_tokens_used'' SqlBigInteger)),
        server_default (CurrentDate) (not_null (column ''daily_usage_date'' SqlDate)),
        server_default (CurrentMonth) (not_null (column ''monthly_usage_month'' SqlDate)),
        server_default (BoolValue True) (not_null (column ''is_active'' SqlBoolean)),
        server_default (Now) (not_null (column ''created_at'' SqlTimestamp))],
     tb_uniques = [], tb_checks = []\<rparr>"

definition migrated_api_keys :: table where
  "migrated_api_keys = \<lparr>tb_name = ''api_keys'',
     tb_columns =
       [primary_key (not_null (column ''id'' SqlUuid)),
        references (''projects'', ''id'', Cascade) (not_null (column ''project_id'' SqlUuid)),
        unique (not_null (column ''key_id'' (SqlString 32))),
        not_null (column ''display_prefix'' (SqlString 64)),
        not_null (column ''secret_hash'' SqlText),
        not_null (column ''environment'' (SqlString 8)),
        column ''name'' (SqlString 128),
        server_default (TextArray [''chat'', ''models:read'', ''usage:read'']) (not_null (column ''scopes'' SqlTextArray)),
        column ''expires_at'' SqlTimestamp,
        column ''revoked_at'' SqlTimestamp,
        column ''last_used_at'' SqlTimestamp,
        server_default (IntValue 0) (not_null (column ''total_requests'' SqlBigInteger)),
        server_default (IntValue 0) (not_null (column ''total_tokens'' SqlBigInteger)),
        server_default (IntValue 60) (not_null (column ''rpm_limit'' SqlInteger)),
        server_default (IntValue 1000) (not_null (column ''daily_req_limit'' SqlInteger)),
        server_default (IntValue 0) (not_null (column ''daily_requests_used'' SqlInteger)),
        server_default (CurrentDate) (not_null (column ''daily_requests_date'' SqlDate)),
        server_default (Now) (not_null (column ''created_at'' SqlTimestamp))],
     tb_uniques = [], tb_checks = [(Some ''ck_api_keys_environment'', OneOf ''environment'' [''live'', ''test''])]\<rparr>"

definition migrated_model_aliases :: table where
  "migrated_model_aliases = \<lparr>tb_name = ''model_aliases'',
     tb_columns =
       [primary_key (not_null (column ''alias'' (SqlString 64))),
        column ''display_name'' (SqlString 128),
        not_null (column ''model_id'' (SqlString 256)),
        references (''model_aliases'', ''alias'', NoAction) (column ''fallback_alias'' (SqlString 64)),
        server_default (BoolValue True) (not_null (column ''is_active'' SqlBoolean)),
        column ''min_vram_gb'' SqlFloat,
        server_default (EmptyObject) (not_null (column ''required_capabilities'' SqlJsonb)),
        server_default (BoolValue True) (not_null (column ''supports_streaming'' SqlBoolean)),
        server_default (BoolValue False) (not_null (column ''supports_tools'' SqlBoolean)),
        server_default (IntValue 4096) (not_null (column ''max_context_tokens'' SqlInteger))],
     tb_uniques = [], tb_checks = []\<rparr>"

definition migrated_workers :: table where
  "migrated_workers = \<lparr>tb_name = ''workers'',
     tb_columns =
       [primary_key (not_null (column ''id'' SqlUuid)),
        not_null (column ''provider_type'' (SqlString 32)),
        not_null (column ''name'' (SqlString 128)),
        server_default (TextValue ''OFFLINE'') (not_null (column ''status'' (SqlString 32))),
        server_default (TextArray []) (not_null (column ''supported_models'' SqlTextArray)),
        server_default (EmptyObject) (not_null (column ''capabilities'' SqlJsonb)),
        server_default (IntValue 0) (not_null (column ''current_queue_depth'' SqlInteger)),
        server_default (IntValue 0) (not_null (column ''failure_count_1h'' SqlInteger)),
        column ''p95_latency_ms'' SqlFloat,
        column ''token_jti'' (SqlString 128),
        server_default (Now) (not_null (column ''registered_at'' SqlTimestamp)),
        column ''last_heartbeat'' SqlTimestamp,
        column ''revoked_at'' SqlTimestamp],
     tb_uniques = [], tb_checks = []\<rparr>"

definition migrated_enrollment_tokens :: table where
  "migrated_enrollment_tokens = \<lparr>tb_name = ''worker_enrollment_tokens'',
     tb_columns =
       [primary_key (not_null (column ''id'' SqlUuid)),
        unique (not_null (column ''token_id'' (SqlString 32))),
        not_null (column ''secret_hash'' SqlText),
        not_null (column ''expires_at'' SqlTimestamp),
        column ''consumed_at'' SqlTimestamp,
        server_default (Now) (not_null (column ''created_at'' SqlTimestamp))],
     tb_uniques = [], tb_checks = []\<rparr>"

definition migrated_requests :: table where
  "migrated_requests = \<lparr>tb_name = ''orbi_requests'',
     tb_columns =
       [primary_key (not_null (column ''id'' SqlUuid)),
        column ''idempotency_key'' (SqlString 128),
        references (''projects'', ''id'', Cascade) (not_null (column ''project_id'' SqlUuid)),
        references (''api_keys'', ''id'', Restrict) (not_null (column ''api_key_id'' SqlUuid)),
        not_null (column ''model_alias'' (SqlString 64)),
        not_null (column ''resolved_model'' (SqlString 256)),
        not_null (column ''payload'' SqlJsonb),
        server_default (EmptyObject) (not_null (column ''required_capabilities'' SqlJsonb)),
        server_default (IntValue 5) (not_null (column ''priority'' SqlSmallInteger)),
        server_default (TextValue ''QUEUED'') (not_null (column ''status'' (SqlString 32))),
        references (''workers'', ''id'', SetNull) (column ''assigned_to'' SqlUuid),
        column ''lease_expires'' SqlTimestamp,
        server_default (IntValue 0) (not_null (column ''retry_count'' SqlInteger)),
        server_default (IntValue 3) (not_null (column ''max_retries'' SqlInteger)),
        server_default (Now) (not_null (column ''created_at'' SqlTimestamp)),
        not_null (column ''expires_at'' SqlTimestamp),
        column ''completed_at'' SqlTimestamp,
        column ''result'' SqlJsonb,
        column ''error_detail'' SqlJsonb,
        column ''input_tokens'' SqlInteger,
        column ''output_tokens'' SqlInteger,
        server_default (IntValue 0) (not_null (column ''reserved_tokens'' SqlInteger)),
        server_default (CurrentDate) (not_null (column ''budget_day'' SqlDate)),
        server_default (CurrentMonth) (not_null (column ''budget_month'' SqlDate))],
     tb_uniques = [(''uq_requests_key_idempotency'', [''api_key_id'', ''idempotency_key''])],
     tb_checks = [(Some ''ck_requests_priority'', Within ''priority'' 1 10)]\<rparr>"

definition migrated_usage_records :: table where
  "migrated_usage_records = \<lparr>tb_name = ''usage_records'',
     tb_columns =
       [primary_key (not_null (column ''id'' SqlUuid)),
        references (''orbi_requests'', ''id'', Restrict) (unique (not_null (column ''request_id'' SqlUuid))),
        references (''projects'', ''id'', Restrict) (not_null (column ''project_id'' SqlUuid)),
        references (''api_keys'', ''id'', Restrict) (not_null (column ''api_key_id'' SqlUuid)),
        references (''workers'', ''id'', SetNull) (column ''worker_id'' SqlUuid),
        column ''provider_type'' (SqlString 32),
        not_null (column ''model_id'' (SqlString 256)),
        not_null (column ''input_tokens'' SqlInteger),
        not_null (column ''output_tokens'' SqlInteger),
        column ''latency_ms'' SqlInteger,
        server_default (IntValue 0) (not_null (column ''cost_usd'' (SqlNumeric 12 8))),
        server_default (Now) (not_null (column ''recorded_at'' SqlTimestamp))],
     tb_uniques = [], tb_checks = []\<rparr>"

definition migrated_incidents :: table where
  "migrated_incidents = \<lparr>tb_name = ''incidents'',
     tb_columns =
       [primary_key (not_null (column ''id'' SqlUuid)),
        not_null (column ''type'' (SqlString 64)),
        not_null (column ''severity'' (SqlString 16)),
        references (''workers'', ''id'', SetNull) (column ''worker_id'' SqlUuid),
        server_default (EmptyObject) (not_null (column ''detail'' SqlJsonb)),
        column ''resolved_at'' SqlTimestamp,
        server_default (Now) (not_null (column ''created_at'' SqlTimestamp))],
     tb_uniques = [], tb_checks = [(Some ''ck_incidents_severity'', OneOf ''severity'' [''info'', ''warning'', ''critical''])]\<rparr>"

section \<open>The operations\<close>

definition upgrade :: "migration_op list" where
  "upgrade =
     [CreateTable migrated_projects,
      CreateTable migrated_api_keys,
      CreateTable migrated_model_aliases,
      CreateTable migrated_workers,
      CreateTable migrated_enrollment_tokens,
      CreateTable migrated_requests,
      CreateIndex ''idx_requests_queue'' ''orbi_requests'' [''priority'', ''created_at'']
        (Some (OneOf ''status'' [''QUEUED''])),
      CreateIndex ''idx_requests_lease'' ''orbi_requests'' [''lease_expires'']
        (Some (OneOf ''status'' [''ASSIGNED'', ''STARTING'', ''RUNNING''])),
      CreateTable migrated_usage_records,
      CreateIndex ''idx_usage_project_day'' ''usage_records'' [''project_id'', ''recorded_at'']
        None,
      CreateTable migrated_incidents]"

definition downgrade :: "migration_op list" where
  "downgrade = map DropTable
     [''incidents'', ''usage_records'', ''orbi_requests'', ''worker_enrollment_tokens'', ''workers'',
      ''model_aliases'', ''api_keys'', ''projects'']"

section \<open>Applying them\<close>

text \<open>
  A table can be created when its name is free and every column it references exists and is a key;
  an index, when its table and columns exist; a table can be dropped when it exists and no other
  table references it, and its indexes go with it.
\<close>

record schema =
  sh_tables :: "table list"
  sh_indexes :: "(string \<times> string \<times> string list \<times> check option) list"

definition referenced_tables :: "table \<Rightarrow> string list" where
  "referenced_tables t =
     [target. c \<leftarrow> tb_columns t, (target, key, act) \<leftarrow> (case co_references c of None \<Rightarrow> [] | Some r \<Rightarrow> [r])]"

definition is_key_of :: "string \<Rightarrow> table \<Rightarrow> bool" where
  "is_key_of key t = list_ex (\<lambda>c. co_name c = key \<and> (co_primary c \<or> co_unique c)) (tb_columns t)"

definition references_exist :: "table list \<Rightarrow> table \<Rightarrow> bool" where
  "references_exist ts t =
     list_all (\<lambda>c. case co_references c of None \<Rightarrow> True
        | Some (target, key, act) \<Rightarrow> list_ex (\<lambda>u. tb_name u = target \<and> is_key_of key u) (t # ts)) (tb_columns t)"

fun apply_op :: "migration_op \<Rightarrow> schema \<Rightarrow> schema option" where
  "apply_op (CreateTable t) s =
     (if list_ex (\<lambda>u. tb_name u = tb_name t) (sh_tables s) \<or> \<not> references_exist (sh_tables s) t then None
      else Some (s\<lparr>sh_tables := sh_tables s @ [t]\<rparr>))"
| "apply_op (CreateIndex name target cols cond) s =
     (if list_ex (\<lambda>(n, _). n = name) (sh_indexes s)
         \<or> \<not> list_ex (\<lambda>u. tb_name u = target
              \<and> list_all (\<lambda>c. list_ex (\<lambda>k. co_name k = c) (tb_columns u)) cols) (sh_tables s) then None
      else Some (s\<lparr>sh_indexes := sh_indexes s @ [(name, target, cols, cond)]\<rparr>))"
| "apply_op (DropTable name) s =
     (if \<not> list_ex (\<lambda>u. tb_name u = name) (sh_tables s)
         \<or> list_ex (\<lambda>u. tb_name u \<noteq> name \<and> List.member (referenced_tables u) name) (sh_tables s) then None
      else Some (s\<lparr>sh_tables := filter (\<lambda>u. tb_name u \<noteq> name) (sh_tables s),
                   sh_indexes := filter (\<lambda>(_, t, _). t \<noteq> name) (sh_indexes s)\<rparr>))"

fun apply_ops :: "migration_op list \<Rightarrow> schema \<Rightarrow> schema option" where
  "apply_ops [] s = Some s"
| "apply_ops (p # ps) s = (case apply_op p s of None \<Rightarrow> None | Some s' \<Rightarrow> apply_ops ps s')"

definition empty_schema :: schema where
  "empty_schema = \<lparr>sh_tables = [], sh_indexes = []\<rparr>"

section \<open>Agreement with the ORM\<close>

text \<open>
  What an \<open>INSERT\<close> stores. The ORM gives the values of the object and the client defaults of the others; the server
  fills in its own defaults, and \<open>NULL\<close> where there is none, and refuses a \<open>NULL\<close> in a column that has none, a value that
  does not fit its type and a row that fails a check. What a default is at this moment, which values fit and which rows
  satisfy a check are parameters.
\<close>

definition client_row :: "(default_value \<Rightarrow> 'v) \<Rightarrow> table \<Rightarrow> (string \<Rightarrow> 'v option) \<Rightarrow> string \<Rightarrow> 'v option" where
  "client_row default_of t given name =
     (case given name of
        Some v \<Rightarrow> Some v
      | None \<Rightarrow> Option.bind (find (\<lambda>c. co_name c = name) (tb_columns t)) (\<lambda>c. map_option default_of (co_client_default c)))"

definition server_row ::
  "(default_value \<Rightarrow> 'v) \<Rightarrow> table \<Rightarrow> (string \<Rightarrow> 'v option) \<Rightarrow> (string \<times> sql_type \<times> bool \<times> 'v option) list" where
  "server_row default_of t row = map (\<lambda>c. (co_name c, co_type c, co_nullable c,
      case row (co_name c) of Some v \<Rightarrow> Some v | None \<Rightarrow> map_option default_of (co_server_default c))) (tb_columns t)"

definition insert_row ::
  "(default_value \<Rightarrow> 'v) \<Rightarrow> (sql_type \<Rightarrow> 'v \<Rightarrow> bool) \<Rightarrow> (check \<Rightarrow> (string \<times> 'v option) list \<Rightarrow> bool) \<Rightarrow> table \<Rightarrow>
     (string \<Rightarrow> 'v option) \<Rightarrow> (string \<times> 'v option) list result" where
  "insert_row default_of fits satisfied t row =
     (let columns = server_row default_of t row; stored = map (\<lambda>(name, type, nullable, v). (name, v)) columns
      in if list_ex (\<lambda>(name, type, nullable, v). v = None \<and> \<not> nullable) columns then Inl IntegrityError
         else if list_ex (\<lambda>(name, type, nullable, v). \<not> pred_option (fits type) v) columns then Inl DataError
         else if \<not> list_all (\<lambda>(name, k). satisfied k stored) (tb_checks t) then Inl IntegrityError
         else Inr stored)"

text \<open>
  A migrated column agrees with the declared one when name, type, nullability, keys and reference
  are the same, what the database supplies in the one it supplies in the other where the client supplies nothing, and
  it would supply the same value as the client (except for random identifiers, which only the client supplies).
\<close>

definition column_agrees :: "table_column \<Rightarrow> table_column \<Rightarrow> bool" where
  "column_agrees d m =
     (co_name d = co_name m \<and> co_type d = co_type m \<and> co_nullable d = co_nullable m
      \<and> co_primary d = co_primary m \<and> co_unique d = co_unique m \<and> co_references d = co_references m
      \<and> co_client_default m = None
      \<and> co_server_default m =
          (case co_client_default d of
             None \<Rightarrow> co_server_default d
           | Some RandomUuid \<Rightarrow> None
           | Some v \<Rightarrow> Some v))"

definition table_agrees :: "table \<Rightarrow> table \<Rightarrow> bool" where
  "table_agrees d m =
     (tb_name d = tb_name m \<and> list_all2 column_agrees (tb_columns d) (tb_columns m)
      \<and> tb_uniques d = tb_uniques m \<and> map snd (tb_checks d) = map snd (tb_checks m)
      \<and> distinct (map co_name (tb_columns d)))"

section \<open>Facts\<close>

lemma tables_agree:
  "table_agrees orm_projects migrated_projects"
  "table_agrees orm_api_keys migrated_api_keys"
  "table_agrees orm_model_aliases migrated_model_aliases"
  "table_agrees orm_workers migrated_workers"
  "table_agrees orm_enrollment_tokens migrated_enrollment_tokens"
  "table_agrees orm_requests migrated_requests"
  "table_agrees orm_usage_records migrated_usage_records"
  "table_agrees orm_incidents migrated_incidents"
  by code_simp+

text \<open>The schema after \<open>upgrade\<close>.\<close>

definition migrated_schema :: schema where
  "migrated_schema =
     \<lparr>sh_tables = [migrated_projects, migrated_api_keys, migrated_model_aliases, migrated_workers,
        migrated_enrollment_tokens, migrated_requests, migrated_usage_records, migrated_incidents],
      sh_indexes =
        [(''idx_requests_queue'', ''orbi_requests'', [''priority'', ''created_at''], Some (OneOf ''status'' [''QUEUED''])),
         (''idx_requests_lease'', ''orbi_requests'', [''lease_expires''],
          Some (OneOf ''status'' [''ASSIGNED'', ''STARTING'', ''RUNNING''])),
         (''idx_usage_project_day'', ''usage_records'', [''project_id'', ''recorded_at''], None)]\<rparr>"

lemma upgrade_result: "apply_ops upgrade empty_schema = Some migrated_schema"
  by code_simp

lemma downgrade_result: "apply_ops downgrade migrated_schema = Some empty_schema"
  by code_simp

text \<open>Where the ORM declares an index of its own.\<close>

definition declared_indexes :: "table list \<Rightarrow> (string \<times> string) list" where
  "declared_indexes ts = [(tb_name t, co_name c). t \<leftarrow> ts, c \<leftarrow> tb_columns t, co_indexed c]"

lemma declared_indexes_orm:
  "declared_indexes orm_metadata = [(''api_keys'', ''key_id''), (''worker_enrollment_tokens'', ''token_id'')]"
  by code_simp

lemma find_own_column:
  assumes "distinct (map co_name cs)" and "c \<in> set cs"
  shows "find (\<lambda>q. co_name q = co_name c) cs = Some c"
  using assms by (induction cs) auto

lemma list_all_snd: "list_all (\<lambda>(name, k). P k) ks = list_all P (map snd ks)"
  by (induction ks) auto

text \<open>Agreeing tables store the same row: for the ORM, and for a client that gives nothing but the random identifiers.\<close>

lemma server_row_agrees:
  assumes "table_agrees d m" and "\<And>c c'. c \<in> set (tb_columns d) \<Longrightarrow> column_agrees c c' \<Longrightarrow>
      (case row' (co_name c) of Some v \<Rightarrow> Some v | None \<Rightarrow> map_option default_of (co_server_default c')) =
      (case row (co_name c) of Some v \<Rightarrow> Some v | None \<Rightarrow> map_option default_of (co_server_default c))"
  shows "insert_row default_of fits satisfied m row' = insert_row default_of fits satisfied d row"
proof -
  have "list_all2 column_agrees (tb_columns d) (tb_columns m)" using assms(1) by (simp add: table_agrees_def)
  from this assms(2) have "server_row default_of m row' = server_row default_of d row"
    unfolding server_row_def
  proof (induction rule: list_all2_induct)
    case (Cons c cs c' cs')
    from Cons.prems [of c c'] Cons.hyps(1) have "co_name c' = co_name c" "co_type c' = co_type c" "co_nullable c' = co_nullable c"
      by (simp_all add: column_agrees_def)
    with Cons show ?case by simp
  qed simp
  moreover have "list_all (\<lambda>(name, k). satisfied k stored) (tb_checks m) = list_all (\<lambda>(name, k). satisfied k stored) (tb_checks d)"
    for stored
    using assms(1) by (simp add: list_all_snd table_agrees_def)
  ultimately show ?thesis by (simp add: insert_row_def Let_def)
qed

lemma orm_row_agrees:
  assumes "table_agrees d m"
  shows "insert_row default_of fits satisfied m (client_row default_of d given) = insert_row default_of fits satisfied d (client_row default_of d given)"
proof (rule server_row_agrees [OF assms])
  fix c c' assume c: "c \<in> set (tb_columns d)" "column_agrees c c'"
  have "find (\<lambda>q. co_name q = co_name c) (tb_columns d) = Some c"
    using find_own_column [OF _ c(1)] assms by (simp add: table_agrees_def)
  then show "(case client_row default_of d given (co_name c) of Some v \<Rightarrow> Some v | None \<Rightarrow> map_option default_of (co_server_default c')) =
      (case client_row default_of d given (co_name c) of Some v \<Rightarrow> Some v | None \<Rightarrow> map_option default_of (co_server_default c))"
    using c(2) by (cases "co_client_default c") (simp_all add: client_row_def column_agrees_def split: option.split)
qed

lemma plain_row_agrees:
  assumes "table_agrees d m"
    and "\<forall>c\<in>set (tb_columns d). co_client_default c = Some RandomUuid \<longrightarrow> given (co_name c) \<noteq> None"
  shows "insert_row default_of fits satisfied m given = insert_row default_of fits satisfied d (client_row default_of d given)"
proof (rule server_row_agrees [OF assms(1)])
  fix c c' assume c: "c \<in> set (tb_columns d)" "column_agrees c c'"
  have "find (\<lambda>q. co_name q = co_name c) (tb_columns d) = Some c"
    using find_own_column [OF _ c(1)] assms(1) by (simp add: table_agrees_def)
  moreover have "co_client_default c = Some RandomUuid \<Longrightarrow> given (co_name c) \<noteq> None" using assms(2) c(1) by blast
  ultimately show "(case given (co_name c) of Some v \<Rightarrow> Some v | None \<Rightarrow> map_option default_of (co_server_default c')) =
      (case client_row default_of d given (co_name c) of Some v \<Rightarrow> Some v | None \<Rightarrow> map_option default_of (co_server_default c))"
    using c(2) by (cases "given (co_name c)"; cases "co_client_default c")
      (auto simp: client_row_def column_agrees_def split: default_value.splits)
qed

lemma orm_tables_agree: "list_all2 table_agrees orm_metadata (sh_tables migrated_schema)"
  by (simp add: orm_metadata_def migrated_schema_def tables_agree)

section \<open>Properties\<close>



end
