(* ===== verification/Alembic_Env.thy ===== *)
theory Alembic_Env
  imports Environment Migration "HOL-Library.AList"
begin

text \<open>
  \<open>alembic/env.py\<close>: what \<open>alembic upgrade\<close> runs before the gateway starts. The URL of the settings
  goes into the configuration (a \<open>ConfigParser\<close> with basic interpolation) and comes out of it for the
  engine. An offline run writes the operations down, an online one applies them in one transaction to the
  database behind the URL. Which revisions are pending, the other options of the section and the
  schemas behind the URLs are parameters; refused connections are not modelled.
\<close>

section \<open>Options with interpolation\<close>

text \<open>A reference \<open>%(name)s\<close>, after its first two characters.\<close>

definition reference :: "string \<Rightarrow> (string \<times> string) option" where
  "reference s =
     (let name = takeWhile (\<lambda>c. c \<noteq> CHR '')'') s; rest = dropWhile (\<lambda>c. c \<noteq> CHR '')'') s in
      if name \<noteq> [] \<and> starts_with '')s'' rest then Some (name, drop 2 rest) else None)"

lemma reference_shorter: "reference s = Some (name, rest) \<Longrightarrow> length rest < length s"
  using length_dropWhile_le [of "\<lambda>c. c \<noteq> CHR '')''" s]
  by (auto simp: reference_def Let_def starts_with_iff split: if_splits)

text \<open>\<open>before_set\<close>: without the escaped percent signs and the references no percent sign is left.\<close>

fun drop_escaped :: "string \<Rightarrow> string" where
  "drop_escaped [] = []"
| "drop_escaped (c # cs) =
     (if c = CHR ''%'' \<and> starts_with ''%'' cs then drop_escaped (drop 1 cs) else c # drop_escaped cs)"

function drop_references :: "string \<Rightarrow> string" where
  "drop_references [] = []"
| "drop_references (c # cs) =
     (case (if c = CHR ''%'' \<and> starts_with ''('' cs then reference (drop 1 cs) else None) of
        None \<Rightarrow> c # drop_references cs
      | Some (_, rest) \<Rightarrow> drop_references rest)"
  by pat_completeness auto

termination
  by (relation "measure length") (auto split: if_splits dest!: reference_shorter)

definition settable :: "string \<Rightarrow> bool" where
  "settable v \<longleftrightarrow> CHR ''%'' \<notin> set (drop_references (drop_escaped v))"

text \<open>\<open>before_get\<close>; the first argument is how deep references may still nest.\<close>

function interpolate :: "nat \<Rightarrow> (string \<Rightarrow> string option) \<Rightarrow> string \<Rightarrow> string option" where
  "interpolate depth options [] = Some []"
| "interpolate depth options (c # cs) =
     (if c \<noteq> CHR ''%'' then map_option (Cons c) (interpolate depth options cs)
      else if starts_with ''%'' cs then map_option (Cons c) (interpolate depth options (drop 1 cs))
      else if starts_with ''('' cs then
        (case reference (drop 1 cs) of
           None \<Rightarrow> None
         | Some (name, rest) \<Rightarrow>
             (case options (lower name) of
                None \<Rightarrow> None
              | Some v \<Rightarrow>
                  (case (if CHR ''%'' \<notin> set v then Some v
                         else if depth = 0 then None else interpolate (depth - 1) options v) of
                     None \<Rightarrow> None
                   | Some x \<Rightarrow> map_option (append x) (interpolate depth options rest))))
      else None)"
  by pat_completeness auto

termination
  by (relation "measures [\<lambda>(d, _, _). d, \<lambda>(_, _, s). length s]") (auto dest!: reference_shorter)

section \<open>The environment\<close>

type_synonym options = "(string \<times> string) list"

definition main_option :: string where
  "main_option = ''sqlalchemy.url''"

datatype env_error =
    SettingsRejected exn
  | InvalidInterpolation
  | InterpolationError
  | OperationFailed

definition set_main_option :: "string \<Rightarrow> options \<Rightarrow> env_error + options" where
  "set_main_option v section_options =
     (if settable v then Inr (AList.update main_option v section_options) else Inl InvalidInterpolation)"

text \<open>\<open>config.get_section\<close>: every option interpolated, at most ten levels deep.\<close>

definition get_section :: "options \<Rightarrow> env_error + options" where
  "get_section section_options =
     (case those (map (\<lambda>(name, v). map_option (Pair name) (interpolate 9 (map_of section_options) v)) section_options) of
        None \<Rightarrow> Inl InterpolationError
      | Some resolved \<Rightarrow> Inr resolved)"

text \<open>What a run does: SQL on paper for the dialect of a URL, or new schemas behind the URLs.\<close>

datatype migration_run =
    Script string "migration_op list"
  | Migrated "string \<Rightarrow> schema"

definition run_migrations_offline :: "string \<Rightarrow> migration_op list \<Rightarrow> env_error + migration_run" where
  "run_migrations_offline url pending = Inr (Script url pending)"

definition do_run_migrations :: "migration_op list \<Rightarrow> schema \<Rightarrow> env_error + schema" where
  "do_run_migrations pending s =
     (case apply_ops pending s of None \<Rightarrow> Inl OperationFailed | Some s' \<Rightarrow> Inr s')"

definition run_async_migrations ::
  "options \<Rightarrow> (schema \<Rightarrow> migration_op list) \<Rightarrow> (string \<Rightarrow> schema) \<Rightarrow> env_error + migration_run" where
  "run_async_migrations section_options pending databases =
     (case get_section section_options of
        Inl e \<Rightarrow> Inl e
      | Inr resolved \<Rightarrow>
          (case map_of resolved main_option of
             None \<Rightarrow> Inl InterpolationError
           | Some url \<Rightarrow>
               (case do_run_migrations (pending (databases url)) (databases url) of
                  Inl e \<Rightarrow> Inl e
                | Inr s \<Rightarrow> Inr (Migrated (databases(url := s))))))"

definition alembic_env ::
  "bool \<Rightarrow> settings result \<Rightarrow> options \<Rightarrow> (schema \<Rightarrow> migration_op list) \<Rightarrow> (string \<Rightarrow> schema) \<Rightarrow>
     env_error + migration_run" where
  "alembic_env offline loaded section_options pending databases =
     (case loaded of
        Inl e \<Rightarrow> Inl (SettingsRejected e)
      | Inr st \<Rightarrow>
          (case set_main_option (st_database_url st) section_options of
             Inl e \<Rightarrow> Inl e
           | Inr configured \<Rightarrow>
               if offline then run_migrations_offline (st_database_url st) (pending empty_schema)
               else run_async_migrations configured pending databases))"

section \<open>Text without percent signs, and with one\<close>

definition percent_free :: "string \<Rightarrow> bool" where
  "percent_free v \<longleftrightarrow> CHR ''%'' \<notin> set v"

lemma drop_escaped_plain: "percent_free a \<Longrightarrow> drop_escaped (a @ b) = a @ drop_escaped b"
  by (induction a) (auto simp: percent_free_def)

lemma drop_references_plain: "percent_free a \<Longrightarrow> drop_references (a @ b) = a @ drop_references b"
  by (induction a) (auto simp: percent_free_def)

lemma settable_plain: "percent_free v \<Longrightarrow> settable v"
  using drop_escaped_plain [of v "[]"] drop_references_plain [of v "[]"]
  by (simp add: settable_def percent_free_def)

lemma interpolate_plain: "percent_free v \<Longrightarrow> interpolate depth options v = Some v"
  by (induction v) (auto simp: percent_free_def)

lemma get_section_plain: "\<forall>(name, v)\<in>set os. percent_free v \<Longrightarrow> get_section os = Inr os"
proof -
  have "those (map (\<lambda>(name, v). map_option (Pair name) (interpolate 9 m v)) os) = Some os"
    if "\<forall>(name, v)\<in>set os. percent_free v" for m os
    using that by (induction os) (auto simp: interpolate_plain)
  from this [of os "map_of os"]
  show "\<forall>(name, v)\<in>set os. percent_free v \<Longrightarrow> get_section os = Inr os" by (simp add: get_section_def)
qed

text \<open>A percent sign that neither escapes nor refers to anything.\<close>

definition stray_percent :: "string \<Rightarrow> bool" where
  "stray_percent v \<longleftrightarrow> (\<exists>a b. v = a @ CHR ''%'' # b \<and> percent_free a \<and> \<not> starts_with ''%'' b \<and> \<not> starts_with ''('' b)"

lemma stray_not_settable:
  assumes "stray_percent v"
  shows "\<not> settable v"
proof -
  from assms obtain a b where v: "v = a @ CHR ''%'' # b" "percent_free a" "\<not> starts_with ''%'' b" "\<not> starts_with ''('' b"
    unfolding stray_percent_def by blast
  then have "drop_escaped (CHR ''%'' # b) = CHR ''%'' # drop_escaped b" by simp
  moreover have "\<not> starts_with ''('' (drop_escaped b)"
    using v(3,4) by (cases b) auto
  ultimately have "drop_references (drop_escaped v) = a @ CHR ''%'' # drop_references (drop_escaped b)"
    using drop_escaped_plain [OF v(2)] drop_references_plain [OF v(2)] by (simp add: v(1))
  then show ?thesis by (simp add: settable_def)
qed

text \<open>Only the URL needs interpolation when the other options have no percent sign.\<close>

lemma those_update:
  assumes "\<forall>(name, v)\<in>set ini. percent_free v"
  shows "those (map (\<lambda>(name, v). map_option (Pair name) (interpolate depth m v)) (AList.update k url ini)) =
    map_option (\<lambda>u. AList.update k u ini) (interpolate depth m url)"
proof -
  have plain: "those (map (\<lambda>(name, v). map_option (Pair name) (interpolate depth m v)) os) = Some os"
    if "\<forall>(name, v)\<in>set os. percent_free v" for os
    using that by (induction os) (auto simp: interpolate_plain)
  show ?thesis
    using assms
  proof (induction ini)
    case Nil
    then show ?case by (cases "interpolate depth m url") simp_all
  next
    case (Cons o1 ini)
    obtain name v where o1: "o1 = (name, v)" by fastforce
    from Cons.prems have v: "interpolate depth m v = Some v" by (simp add: o1 interpolate_plain)
    show ?case
    proof (cases "name = k")
      case True
      with plain [of ini] Cons.prems o1 show ?thesis by (cases "interpolate depth m url") simp_all
    next
      case False
      with Cons o1 v show ?thesis by (cases "interpolate depth m url") simp_all
    qed
  qed
qed

text \<open>The URL that comes out of the configuration for the URL that went in.\<close>

definition resolved_url :: "options \<Rightarrow> string \<Rightarrow> string option" where
  "resolved_url ini url = interpolate 9 (map_of (AList.update main_option url ini)) url"

lemma get_section_update:
  assumes "\<forall>(name, v)\<in>set ini. percent_free v"
  shows "get_section (AList.update main_option url ini) =
    (case resolved_url ini url of None \<Rightarrow> Inl InterpolationError | Some u \<Rightarrow> Inr (AList.update main_option u ini))"
  using those_update [OF assms] by (simp add: get_section_def resolved_url_def split: option.split)

text \<open>Every percent sign doubled, as \<open>set_main_option\<close> asks of its callers.\<close>

definition escaped :: "string \<Rightarrow> string" where
  "escaped v = concat (map (\<lambda>c. if c = CHR ''%'' then ''%%'' else [c]) v)"

lemma drop_escaped_escaped: "drop_escaped (escaped v) = filter (\<lambda>c. c \<noteq> CHR ''%'') v"
  by (induction v) (auto simp: escaped_def)

lemma settable_escaped: "settable (escaped v)"
proof -
  have "percent_free (filter (\<lambda>c. c \<noteq> CHR ''%'') v)" by (simp add: percent_free_def)
  from drop_references_plain [OF this, of "[]"] show ?thesis by (simp add: settable_def drop_escaped_escaped)
qed

lemma resolved_escaped: "resolved_url ini (escaped v) = Some v"
proof -
  have "interpolate depth options (escaped v) = Some v" for depth options
    by (induction v) (auto simp: escaped_def)
  then show ?thesis by (simp add: resolved_url_def)
qed

lemma resolved_plain: "percent_free v \<Longrightarrow> resolved_url ini v = Some v"
  by (simp add: resolved_url_def interpolate_plain)

section \<open>Properties\<close>

text \<open>C36. Where the migrations go, with the section of \<open>alembic.ini\<close>, none of whose options has a percent sign. A URL whose percent
  signs neither escape nor refer is rejected before anything runs, in both modes. For every other URL of the settings an offline run
  writes the pending operations down for it, and an online run applies them, all or none, to the database behind the URL that interpolation
  makes of it, and touches no other. A URL without a percent sign is its own: the migrations go where the gateway goes. But the URL is not
  escaped on its way: one with a single percent sign, as percent-encoding has it and with which the gateway itself connects, is rejected,
  and one with doubled percent signs migrates the database behind the URL with single ones instead, which is another one.\<close>

theorem alembic_env_spec:
  assumes "\<forall>(name, v)\<in>set ini. percent_free v" and "url = st_database_url st"
  shows "(\<not> settable url \<longrightarrow> alembic_env offline (Inr st) ini pending databases = Inl InvalidInterpolation)
    \<and> (settable url \<longrightarrow>
        alembic_env True (Inr st) ini pending databases = Inr (Script url (pending empty_schema))
        \<and> alembic_env False (Inr st) ini pending databases =
          (case resolved_url ini url of
             None \<Rightarrow> Inl InterpolationError
           | Some target \<Rightarrow>
              (case apply_ops (pending (databases target)) (databases target) of
                 None \<Rightarrow> Inl OperationFailed
               | Some s \<Rightarrow> Inr (Migrated (databases(target := s))))))
    \<and> (percent_free url \<longrightarrow> settable url \<and> resolved_url ini url = Some url)
    \<and> (stray_percent url \<longrightarrow> \<not> settable url)
    \<and> (\<forall>v. url = escaped v \<longrightarrow> settable url \<and> resolved_url ini url = Some v \<and> (v = url \<longleftrightarrow> percent_free v))"
proof -
  have longer: "length v \<le> length (escaped v) \<and> (length (escaped v) = length v \<longrightarrow> percent_free v)" for v
    by (induction v) (auto simp: escaped_def percent_free_def)
  have same: "percent_free v \<Longrightarrow> escaped v = v" for v
    by (induction v) (auto simp: escaped_def percent_free_def)
  have "v = escaped v \<longleftrightarrow> percent_free v" for v
    using longer [of v] same [of v] by metis
  moreover have "map_of (AList.update main_option target ini) main_option = Some target" for target
    by (simp add: update_conv)
  ultimately show ?thesis
    using settable_plain [of url] stray_not_settable [of url] settable_escaped resolved_escaped resolved_plain [of url]
    by (auto simp: alembic_env_def set_main_option_def run_migrations_offline_def run_async_migrations_def
        do_run_migrations_def get_section_update [OF assms(1)] assms(2) [symmetric]
        split: option.splits)
qed

definition sample_ini :: options where
  "sample_ini = [(''script_location'', ''apps/gateway/alembic''), (''prepend_sys_path'', ''apps/gateway/src''),
     (''sqlalchemy.url'', ''driver://unused'')]"

definition sample_url_settings :: "string \<Rightarrow> settings" where
  "sample_url_settings url = default_settings url [] [] [] [] [] [] []"

theorem alembic_env_spec_witness:
  "(\<exists>databases. alembic_env False (Inr (sample_url_settings ''postgresql://orbi:pw@db/orbi'')) sample_ini (\<lambda>_. upgrade)
        (\<lambda>_. empty_schema) = Inr (Migrated databases)
      \<and> databases ''postgresql://orbi:pw@db/orbi'' = migrated_schema \<and> databases ''driver://unused'' = empty_schema)
   \<and> alembic_env False (Inr (sample_url_settings ''postgresql://orbi:p%40w@db/orbi'')) sample_ini (\<lambda>_. upgrade)
       (\<lambda>_. empty_schema) = Inl InvalidInterpolation
   \<and> (\<exists>databases. alembic_env False (Inr (sample_url_settings ''u:a%%b'')) sample_ini (\<lambda>_. upgrade) (\<lambda>_. empty_schema) =
        Inr (Migrated databases) \<and> databases ''u:a%b'' = migrated_schema \<and> databases ''u:a%%b'' = empty_schema)"
proof -
  have ini: "\<forall>(name, v)\<in>set sample_ini. percent_free v" by (simp add: sample_ini_def percent_free_def)
  have "''postgresql://orbi:p%40w@db/orbi'' = ''postgresql://orbi:p'' @ CHR ''%'' # ''40w@db/orbi''" by simp
  then have stray: "stray_percent ''postgresql://orbi:p%40w@db/orbi''"
    unfolding stray_percent_def percent_free_def
    by (intro exI [of _ "''postgresql://orbi:p''"] exI [of _ "''40w@db/orbi''"]) simp
  have plain: "percent_free ''postgresql://orbi:pw@db/orbi''" by (simp add: percent_free_def)
  have doubled: "''u:a%%b'' = escaped ''u:a%b''" by (simp add: escaped_def)
  have url: "url = st_database_url (sample_url_settings url)" for url
    by (simp add: sample_url_settings_def default_settings_def)
  note spec = alembic_env_spec [OF ini url, where pending = "\<lambda>_. upgrade" and databases = "\<lambda>_. empty_schema"]
  have online: "alembic_env False (Inr (sample_url_settings u)) sample_ini (\<lambda>_. upgrade) (\<lambda>_. empty_schema) =
      Inr (Migrated ((\<lambda>_. empty_schema)(target := migrated_schema)))"
    if "settable u" and "resolved_url sample_ini u = Some target" for u target
    using spec [of u] that by (simp add: upgrade_result)
  have "settable ''postgresql://orbi:pw@db/orbi'' \<and>
      resolved_url sample_ini ''postgresql://orbi:pw@db/orbi'' = Some ''postgresql://orbi:pw@db/orbi''"
    using spec [of "''postgresql://orbi:pw@db/orbi''"] plain by blast
  moreover have "settable ''u:a%%b'' \<and> resolved_url sample_ini ''u:a%%b'' = Some ''u:a%b''"
    using spec [of "''u:a%%b''"] doubled by blast
  moreover have "alembic_env False (Inr (sample_url_settings ''postgresql://orbi:p%40w@db/orbi'')) sample_ini (\<lambda>_. upgrade)
       (\<lambda>_. empty_schema) = Inl InvalidInterpolation"
    using spec [of "''postgresql://orbi:p%40w@db/orbi''" False] stray by blast
  ultimately show ?thesis
    using online [of "''postgresql://orbi:pw@db/orbi''"] online [of "''u:a%%b''"] by simp
qed

end
