(* ===== verification/Logging.thy ===== *)
theory Logging
  imports Credentials WorkerTokens ApiKeys App
begin

text \<open>
  \<open>logging.py\<close>: the redaction of credentials in log events. Texts are lists of code points. The
  pattern of \<open>_TOKEN_PATTERN\<close> is one of four prefixes and one or more characters of a class that
  contains the underscore, so the greedy match runs to the end of the class and the optional tail
  never has anything left to match. The processors of structlog beside the redaction and its filter of levels are
  parameters.
\<close>

definition token_char :: "nat \<Rightarrow> bool" where
  "token_char n \<longleftrightarrow> n < 128 \<and> url_char (char_of n)"

definition token_prefixes :: "unicode list" where
  "token_prefixes =
     map text_of [''orbi_live_v1_'', ''orbi_test_v1_'', ''orbi_node_v1_'', ''orbi_admin_v1_'']"

text \<open>The match at the start of a text, as what remains behind it.\<close>

definition token_match :: "unicode \<Rightarrow> unicode option" where
  "token_match s =
     (case find (\<lambda>p. starts_with p s) token_prefixes of
        None \<Rightarrow> None
      | Some p \<Rightarrow>
          let t = drop (length p) s
          in if takeWhile token_char t = [] then None else Some (dropWhile token_char t))"

definition redacted_token :: unicode where
  "redacted_token = text_of ''[REDACTED_ORBI_TOKEN]''"

lemma find_SomeD: "find P xs = Some x \<Longrightarrow> x \<in> set xs \<and> P x"
  by (induction xs) (auto split: if_splits)

lemma token_match_Some:
  "token_match s = Some rest \<Longrightarrow>
     \<exists>p\<in>set token_prefixes. starts_with p s \<and> takeWhile token_char (drop (length p) s) \<noteq> []
        \<and> rest = dropWhile token_char (drop (length p) s)"
  by (auto simp: token_match_def Let_def dest!: find_SomeD split: option.splits if_splits)

lemma token_match_shorter: "token_match s = Some rest \<Longrightarrow> length rest < length s"
proof -
  assume "token_match s = Some rest"
  then obtain p where "starts_with p s" "p \<in> set token_prefixes" "rest = dropWhile token_char (drop (length p) s)"
    by (auto dest: token_match_Some)
  then obtain t where "s = p @ t" "p \<noteq> []" "rest = dropWhile token_char t"
    by (auto simp: starts_with_iff token_prefixes_def text_of_def)
  then show ?thesis using length_dropWhile_le [of token_char t] by (cases p) auto
qed

text \<open>\<open>_TOKEN_PATTERN.sub\<close>: leftmost matches, from left to right.\<close>

function redact_text :: "unicode \<Rightarrow> unicode" where
  "redact_text s =
     (case token_match s of
        Some rest \<Rightarrow> redacted_token @ redact_text rest
      | None \<Rightarrow> (case s of [] \<Rightarrow> [] | c # cs \<Rightarrow> c # redact_text cs))"
  by pat_completeness auto
termination by (relation "measure length") (auto dest: token_match_shorter)

declare redact_text.simps [simp del]

text \<open>
  The values in an event: strings, dictionaries, lists, and everything else (numbers, tuples, bytes,
  objects), represented by the text it is rendered as.
\<close>

datatype log_value =
    LogStr unicode
  | LogDict "(unicode \<times> log_value) list"
  | LogList "log_value list"
  | LogOther unicode

primrec scrub :: "log_value \<Rightarrow> log_value" where
  "scrub (LogStr s) = LogStr (redact_text s)"
| "scrub (LogDict items) = LogDict (map (map_prod id scrub) items)"
| "scrub (LogList items) = LogList (map scrub items)"
| "scrub (LogOther t) = LogOther t"

definition redact_secrets :: "(unicode \<times> log_value) list \<Rightarrow> (unicode \<times> log_value) list" where
  "redact_secrets event_dict = map (map_prod id scrub) event_dict"

text \<open>
  The chain of \<open>configure_logging\<close>: three processors of structlog that may add fields, then the
  redaction, then the renderer.
\<close>

definition emitted_event ::
  "((unicode \<times> log_value) list \<Rightarrow> (unicode \<times> log_value) list) \<Rightarrow>
   ((unicode \<times> log_value) list \<Rightarrow> (unicode \<times> log_value) list) \<Rightarrow>
   ((unicode \<times> log_value) list \<Rightarrow> (unicode \<times> log_value) list) \<Rightarrow>
     (unicode \<times> log_value) list \<Rightarrow> (unicode \<times> log_value) list" where
  "emitted_event merge_contextvars add_log_level time_stamper event =
     fold (\<lambda>processor. processor) [merge_contextvars, add_log_level, time_stamper, redact_secrets] event"

text \<open>
  The level of the process: \<open>logging.getLevelName\<close> of a name that \<open>basicConfig\<close> has accepted, and the wrapper
  class of \<open>make_filtering_bound_logger\<close>, of which the model has whether it passes an event of a level on.
\<close>

fun get_level_name :: "string \<Rightarrow> int option" where
  "get_level_name name = map_of [(''CRITICAL'', 50), (''FATAL'', 50), (''ERROR'', 40), (''WARN'', 30),
     (''WARNING'', 30), (''INFO'', 20), (''DEBUG'', 10), (''NOTSET'', 0)] name"

definition error_level :: int where
  "error_level = 40"

definition logged_event ::
  "(int \<Rightarrow> int \<Rightarrow> bool) \<Rightarrow> ((unicode \<times> log_value) list \<Rightarrow> (unicode \<times> log_value) list) \<Rightarrow> string \<Rightarrow> int \<Rightarrow>
     (unicode \<times> log_value) list \<Rightarrow> (unicode \<times> log_value) list option" where
  "logged_event passes processors level event_level event =
     (case configure_logging level of
        Inl e \<Rightarrow> None
      | Inr name \<Rightarrow>
          (case get_level_name name of
             None \<Rightarrow> None
           | Some minimum \<Rightarrow> if passes minimum event_level then Some (processors event) else None))"

section \<open>What the substitution leaves\<close>

text \<open>No token anywhere in a text.\<close>

definition token_free :: "unicode \<Rightarrow> bool" where
  "token_free s \<longleftrightarrow> (\<forall>u v. s = u @ v \<longrightarrow> token_match v = None)"

lemma token_match_iff:
  "token_match s \<noteq> None \<longleftrightarrow> (\<exists>p\<in>set token_prefixes. \<exists>c t. s = p @ c # t \<and> token_char c)"
proof -
  have inj: "p = q" if "p \<in> set token_prefixes" "q \<in> set token_prefixes" "starts_with p s" "starts_with q s" for p q
    using that by (auto simp: token_prefixes_def text_of_def starts_with_iff)
  show ?thesis
  proof
    assume "token_match s \<noteq> None"
    then obtain p where "p \<in> set token_prefixes" "starts_with p s" "takeWhile token_char (drop (length p) s) \<noteq> []"
      by (auto dest: token_match_Some)
    then show "\<exists>p\<in>set token_prefixes. \<exists>c t. s = p @ c # t \<and> token_char c"
      by (cases "drop (length p) s") (auto simp: starts_with_iff split: if_splits)
  next
    assume "\<exists>p\<in>set token_prefixes. \<exists>c t. s = p @ c # t \<and> token_char c"
    then obtain p c t where p: "p \<in> set token_prefixes" "s = p @ c # t" "token_char c" by blast
    then have start: "starts_with p s" by simp
    with p(1) have "find (\<lambda>p. starts_with p s) token_prefixes \<noteq> None"
      by (auto simp: find_None_iff)
    then obtain q where q: "find (\<lambda>p. starts_with p s) token_prefixes = Some q" by blast
    then have "q = p" using inj [of q p] p(1) start by (auto dest: find_SomeD)
    with q p show "token_match s \<noteq> None" by (simp add: token_match_def)
  qed
qed

lemma token_match_Nil [simp]: "token_match [] = None"
  by (simp add: token_match_def token_prefixes_def text_of_def)

text \<open>What is copied from the input starts a match only where the input does.\<close>

lemma redact_text_cases:
  obtains (token) rest where "token_match s = Some rest" "redact_text s = redacted_token @ redact_text rest"
  | (empty) "s = []" "redact_text s = []"
  | (copy) c cs where "token_match s = None" "s = c # cs" "redact_text s = c # redact_text cs"
  using redact_text.simps [of s] by (cases "token_match s"; cases s) auto

lemma redact_text_copied:
  assumes "redact_text s = w @ y" and "91 \<notin> set w"
  shows "\<exists>t. s = w @ t"
  using assms
proof (induction w arbitrary: s)
  case Nil
  then show ?case by simp
next
  case (Cons c w)
  show ?case
  proof (cases s rule: redact_text_cases)
    case (token rest)
    with Cons.prems show ?thesis by (simp add: redacted_token_def text_of_def)
  next
    case empty
    with Cons.prems show ?thesis by simp
  next
    case (copy d cs)
    with Cons show ?thesis by auto
  qed
qed

lemma token_char_bracket: "\<not> token_char 91"
  by (simp add: token_char_def url_char_def is_alnum_def is_upper_def is_lower_def is_digit_def char_of_def)

lemma prefix_no_bracket: "p \<in> set token_prefixes \<Longrightarrow> 91 \<notin> set p \<and> (\<exists>t. p = 111 # t)"
  by (auto simp: token_prefixes_def text_of_def)

lemma redact_text_head: "token_match (redact_text s) = None"
proof (rule ccontr)
  assume "token_match (redact_text s) \<noteq> None"
  then obtain p c t where p: "p \<in> set token_prefixes" "redact_text s = (p @ [c]) @ t" "token_char c"
    unfolding token_match_iff by auto
  moreover from p have "91 \<notin> set (p @ [c])" using prefix_no_bracket token_char_bracket by auto
  ultimately obtain t' where "s = (p @ [c]) @ t'" using redact_text_copied by metis
  with p have "token_match s \<noteq> None" unfolding token_match_iff by auto
  then obtain rest where "redact_text s = redacted_token @ redact_text rest"
    by (cases s rule: redact_text_cases) auto
  with p prefix_no_bracket [OF p(1)] show False by (auto simp: redacted_token_def text_of_def)
qed

lemma bracket_no_match:
  assumes "redacted_token = u @ v" and "v \<noteq> []"
  shows "token_match (v @ t) = None"
proof (rule ccontr)
  assume "token_match (v @ t) \<noteq> None"
  then obtain p c r where "p \<in> set token_prefixes" "v @ t = p @ c # r" unfolding token_match_iff by blast
  moreover from this obtain q where "p = 111 # q" using prefix_no_bracket by blast
  ultimately have "hd v = 111" using assms(2) by (cases v) auto
  moreover have "hd v \<in> set redacted_token" unfolding assms(1) using assms(2) by (cases v) auto
  ultimately show False by (auto simp: redacted_token_def text_of_def)
qed

lemma redact_text_token_free: "token_free (redact_text s)"
proof (induction s rule: redact_text.induct)
  case (1 s)
  have "token_match v = None" if uv: "redact_text s = u @ v" for u v
  proof (cases s rule: redact_text_cases)
    case (token rest)
    with 1 have rest: "token_free (redact_text rest)" by simp
    from token uv have "redacted_token @ redact_text rest = u @ v" by simp
    then consider w where "redacted_token = u @ w" "v = w @ redact_text rest" "w \<noteq> []"
      | w where "redact_text rest = w @ v"
      by (auto simp: append_eq_append_conv2) (metis append_Nil append_Nil2)
    then show ?thesis using bracket_no_match rest unfolding token_free_def by cases auto
  next
    case empty
    with uv redact_text_head [of s] show ?thesis by simp
  next
    case (copy c cs)
    then have cs: "token_free (redact_text cs)" using 1 by simp
    show ?thesis
    proof (cases u)
      case Nil
      with uv redact_text_head [of s] show ?thesis by simp
    next
      case (Cons d u')
      with uv copy have "redact_text cs = u' @ v" by simp
      with cs show ?thesis by (simp add: token_free_def)
    qed
  qed
  then show ?case by (simp add: token_free_def)
qed

lemma redact_text_unchanged: "token_free s \<Longrightarrow> redact_text s = s"
proof (induction s)
  case Nil
  show ?case by (simp add: redact_text.simps [of "[]"])
next
  case (Cons c s)
  have "token_free s" unfolding token_free_def
  proof (intro allI impI)
    fix u v assume "s = u @ v"
    then have "c # s = (c # u) @ v" by simp
    with Cons.prems show "token_match v = None" unfolding token_free_def by blast
  qed
  moreover from Cons.prems have "token_match (c # s) = None" by (simp add: token_free_def)
  ultimately show ?case using Cons.IH by (simp add: redact_text.simps [of "c # s"])
qed

text \<open>A whole credential, followed by nothing or by a character outside the class.\<close>

lemma redact_credential:
  assumes "p \<in> set token_prefixes" and "chars \<noteq> []" and "list_all token_char chars"
    and "\<And>c cs. rest = c # cs \<Longrightarrow> \<not> token_char c"
  shows "redact_text (p @ chars @ rest) = redacted_token @ redact_text rest"
proof -
  have skip: "dropWhile token_char (chars @ rest) = rest"
    using assms(3,4) by (induction chars) (cases rest, auto)
  obtain c cs where chars: "chars = c # cs" using assms(2) by (cases chars) auto
  with assms(1,3) have "token_match (p @ chars @ rest) \<noteq> None" unfolding token_match_iff by auto
  then obtain r where r: "token_match (p @ chars @ rest) = Some r" by blast
  then obtain q where q: "q \<in> set token_prefixes" "starts_with q (p @ chars @ rest)"
    "r = dropWhile token_char (drop (length q) (p @ chars @ rest))"
    by (auto dest: token_match_Some)
  have "q = p"
    using q(1,2) assms(1) by (auto simp: token_prefixes_def text_of_def)
  with q(3) r skip show ?thesis by (simp add: redact_text.simps [of "p @ chars @ rest"])
qed

primrec strings_free :: "log_value \<Rightarrow> bool" where
  "strings_free (LogStr s) = token_free s"
| "strings_free (LogDict items) = list_all (\<lambda>(k, ok). ok) (map (map_prod id strings_free) items)"
| "strings_free (LogList items) = list_all id (map strings_free items)"
| "strings_free (LogOther t) = True"

lemma scrub_free: "strings_free (scrub v)"
  by (induction v) (auto simp: redact_text_token_free list_all_iff)

lemma scrub_id: "strings_free v \<Longrightarrow> scrub v = v"
proof (induction v)
  case (LogDict items)
  have "map_prod id scrub kv = kv" if kv: "kv \<in> set items" for kv
  proof -
    obtain k v where "kv = (k, v)" by (cases kv)
    moreover have "strings_free v" using LogDict.prems kv calculation by (force simp: list_all_iff)
    ultimately show ?thesis using LogDict.IH [OF kv, of v] by simp
  qed
  then show ?case by (simp add: map_idI)
next
  case (LogList items)
  then have "scrub v = v" if "v \<in> set items" for v using that by (auto simp: list_all_iff)
  then show ?case by (simp add: map_idI)
qed (simp_all add: redact_text_unchanged)

lemma token_char_of_char: "url_char c \<Longrightarrow> token_char (of_char c)"
  by (auto simp: token_char_def url_char_def is_alnum_def is_upper_def is_lower_def is_digit_def Let_def)

lemma redact_rendered:
  assumes "text_of prefix \<in> set token_prefixes" and "body \<noteq> []" and "list_all url_char body"
  shows "redact_text (text_of (prefix @ body)) = redacted_token"
proof -
  have "list_all token_char (text_of body)" "text_of body \<noteq> []"
    using assms(2,3) by (auto simp: text_of_def list_all_iff token_char_of_char)
  from redact_credential [OF assms(1) this(2,1), of "[]"]
  have "redact_text (text_of prefix @ text_of body) = redacted_token @ redact_text []" by simp
  then show ?thesis by (simp add: text_of_def redact_text_unchanged token_free_def)
qed

lemma underscore_url_char: "url_char (CHR ''_'')"
  by (simp add: url_char_def)

lemma redact_api_key:
  assumes "parse_api_key key = Some (e, k, s)"
  shows "redact_text (text_of key) = redacted_token"
proof -
  from assms have e: "e = ''live'' \<or> e = ''test''" and parts: "list_all url_char k" "list_all url_char s" "k \<noteq> []"
    and key: "key = (''orbi_'' @ e @ ''_v1_'') @ (k @ ''_'' @ s)"
    by (auto simp: parse_api_key_iff is_key_id_def is_key_secret_def render_api_key_def)
  from e have "text_of (''orbi_'' @ e @ ''_v1_'') \<in> set token_prefixes" by (auto simp: token_prefixes_def)
  then show ?thesis
    unfolding key using parts by (intro redact_rendered) (simp_all add: underscore_url_char)
qed

lemma redact_node_token:
  assumes "split_node_token token = Some (i, s)" and "list_all url_char i" "list_all url_char s"
  shows "redact_text (text_of token) = redacted_token"
proof -
  from assms(1) have token: "token = node_prefix @ (i @ ''_'' @ s)" and "i \<noteq> []"
    by (auto simp: split_node_token_Some render_node_token_def)
  moreover have "text_of node_prefix \<in> set token_prefixes" by (simp add: token_prefixes_def node_prefix_def)
  ultimately show ?thesis
    unfolding token using assms by (intro redact_rendered) (simp_all add: underscore_url_char)
qed

lemma redact_secrets_free: "list_all (\<lambda>(k, v). strings_free v) (redact_secrets event)"
  by (auto simp: redact_secrets_def list_all_iff scrub_free)

lemma redact_secrets_id:
  assumes "list_all (\<lambda>(k, v). strings_free v) event"
  shows "redact_secrets event = event"
  unfolding redact_secrets_def using assms by (auto simp: list_all_iff scrub_id intro!: map_idI)

text \<open>Only the two highest levels keep the errors of the handlers from the log.\<close>

lemma logged_errors:
  assumes "\<And>m l. passes m l \<longleftrightarrow> m \<le> l"
  shows "logged_event passes processors level error_level event =
    (if upper level \<in> set level_names - {''CRITICAL'', ''FATAL''} then Some (processors event) else None)"
proof -
  have "\<exists>n. get_level_name name = Some n \<and> (n \<le> 40 \<longleftrightarrow> name \<noteq> ''CRITICAL'' \<and> name \<noteq> ''FATAL'')"
    if "name \<in> set level_names" for name
    using that by (auto simp: level_names_def)
  from this [of "upper level"] show ?thesis
    by (auto simp: logged_event_def configure_logging_def error_level_def assms)
qed

section \<open>Properties\<close>

text \<open>C37. No string that is reached from an event through dictionaries and lists contains a token
  after the redaction, whatever the processors before it have added; an event without tokens is
  unchanged, so redacting twice changes nothing more; project keys and enrollment tokens
  disappear completely; and keys of dictionaries and values of other types pass through as they
  are, tokens included. So nothing that is logged at any level has such a string, and an error is logged with every
  level that the application starts with, except \<open>CRITICAL\<close> and \<open>FATAL\<close>.\<close>

theorem redaction_removes_tokens:
  assumes passes: "\<And>m l. passes m l \<longleftrightarrow> m \<le> l"
  shows "list_all (\<lambda>(k, v). strings_free v) (emitted_event merge level stamp event)
   \<and> (list_all (\<lambda>(k, v). strings_free v) event \<longrightarrow> redact_secrets event = event)
   \<and> redact_secrets (redact_secrets event) = redact_secrets event
   \<and> (parse_api_key key \<noteq> None \<longrightarrow> redact_text (text_of key) = redacted_token)
   \<and> (split_node_token token = Some (i, s) \<and> list_all url_char (i @ s) \<longrightarrow>
        redact_text (text_of token) = redacted_token)
   \<and> map fst (redact_secrets event) = map fst event
   \<and> redact_secrets [(k, LogDict [(text_of key, LogOther t)])] = [(k, LogDict [(text_of key, LogOther t)])]
   \<and> pred_option (list_all (\<lambda>(k, v). strings_free v))
        (logged_event passes (emitted_event merge level stamp) configured event_level event)
   \<and> (logged_event passes (emitted_event merge level stamp) configured error_level event =
        (if upper configured \<in> set level_names - {''CRITICAL'', ''FATAL''}
         then Some (emitted_event merge level stamp event) else None))"
proof -
  have "emitted_event merge level stamp event = redact_secrets (stamp (level (merge event)))"
    by (simp add: emitted_event_def)
  moreover have "parse_api_key key \<noteq> None \<longrightarrow> redact_text (text_of key) = redacted_token"
    using redact_api_key by auto
  moreover have "map fst (redact_secrets event) = map fst event" by (simp add: redact_secrets_def)
  moreover have "redact_secrets [(k, LogDict [(text_of key, LogOther t)])] = [(k, LogDict [(text_of key, LogOther t)])]"
    by (simp add: redact_secrets_def)
  moreover from calculation(1) have "pred_option (list_all (\<lambda>(k, v). strings_free v))
      (logged_event passes (emitted_event merge level stamp) configured event_level event)"
    by (simp add: logged_event_def redact_secrets_free split: sum.split option.split)
  moreover note logged_errors [OF passes]
  ultimately show ?thesis
    using redact_secrets_free redact_secrets_id redact_node_token by auto
qed

theorem redaction_removes_tokens_witness:
  "redact_text (text_of (render_api_key ''test'' ''AAAAAAAAAAAA'' (replicate 43 (CHR ''s'')))) = redacted_token
   \<and> redact_secrets [([], LogStr [104])] = [([], LogStr [104])]
   \<and> logged_event (\<le>) (emitted_event id id id) ''warn'' error_level [([], LogStr [104])] = Some [([], LogStr [104])]
   \<and> logged_event (\<le>) (emitted_event id id id) ''critical'' error_level [([], LogStr [104])] = None"
proof -
  have "parse_api_key (render_api_key ''test'' ''AAAAAAAAAAAA'' (replicate 43 (CHR ''s''))) \<noteq> None"
    unfolding not_None_eq split_paired_Ex parse_api_key_iff
    by (intro exI conjI refl) (simp_all add: is_key_id_def is_key_secret_def url_char_def is_alnum_def is_upper_def
        is_lower_def list_all_iff)
  moreover have "token_free [104]"
    unfolding token_free_def by (auto simp: Cons_eq_append_conv token_match_def token_prefixes_def text_of_def)
  then have "list_all (\<lambda>(k, v). strings_free v) [([] :: unicode, LogStr [104])]" by simp
  moreover have "upper ''warn'' = ''WARN''" "upper ''critical'' = ''CRITICAL''" by code_simp+
  moreover have "emitted_event id id id event = redact_secrets event" for event by (simp add: emitted_event_def)
  moreover note redaction_removes_tokens [of "(\<le>)" id id id "[([], LogStr [104])]"
        "render_api_key ''test'' ''AAAAAAAAAAAA'' (replicate 43 (CHR ''s''))", where configured = "''warn''"]
      redaction_removes_tokens [of "(\<le>)" id id id "[([], LogStr [104])]", where configured = "''critical''"]
  ultimately show ?thesis by (auto simp: level_names_def)
qed

end
