(* ===== verification/Spec2Isabelle.thy ===== *)
theory Spec2Isabelle
  imports Gateway_Service Gateway_Workers Serial_Gateway Transactions Bootstrap_Properties Alembic_Env Logging Errors Uuids
begin

text \<open>
  A verification library of the ORBI gateway: the control plane that accepts chat requests from
  clients with API keys, queues them in PostgreSQL, hands them to workers with leases, and commits
  their results against token budgets (\<open>apps/gateway\<close>).

  The parts and how they interact. A client calls \<open>POST /v1/chat/completions\<close>. The middleware limits
  the body, the dependency \<open>require_api_key\<close> authenticates the key, counts the call and asks Redis for
  the minute's limit, and the handler reserves tokens on the project's row, inserts a row of
  \<open>orbi_requests\<close> and polls it. A worker, registered with a one-time enrollment token and
  authenticated by a JWT whose identifier is stored with it, claims the row under a lease, and returns a
  result or an error; the result settles the reservation, the totals of the key and the usage
  records in one transaction. A maintenance loop requeues or ends what workers have abandoned, and takes
  silent workers offline. Administrators create projects, keys, aliases and enrollments, and revoke.

  The model. A database is the record \<open>db\<close> of its tables, each the list of its rows, a row a record
  with the columns of \<open>models/entities.py\<close>. An operation is a function of the database and of what
  it reads from outside (clock readings, random bytes, the rows that other transactions have locked),
  one parameter for each reading in the order of the code; it returns a \<open>result\<close>, an exception
  or a value with the new database. A request is one transaction (\<open>session_scope\<close>). Time is in
  microseconds since the epoch, as an \<open>int\<close>. Integer columns keep their width: a write outside is
  \<open>DataError\<close>.

  Foundations:
    \<^item> \<open>Prelude\<close>: exceptions as values, \<open>SELECT\<close> and \<open>UPDATE\<close> on lists, the transaction bracket
      of \<open>database.py\<close>, strings; \<open>Calendar\<close>: UTC dates of instants; \<open>Regex\<close>: regular expressions
      with derivatives, for the patterns of the schemas; \<open>Encoding\<close>: URL-safe Base64, decimal
      numbers, UTF-8 lengths; \<open>Uuids\<close>: printing and parsing.
    \<^item> \<open>Entities\<close> and \<open>Constraints\<close>: the rows and what PostgreSQL guarantees of them;
      \<open>Samples\<close>: the rows on which the witnesses run.

  Services (\<open>services/\<close>):
    \<^item> \<open>Budget\<close> (\<open>budget.py\<close>): reservation and settlement of tokens; the locale
      \<open>accounting_period\<close>, with an interpretation for the day and one for the month, proves the
      accounting once for both.
    \<^item> \<open>Lifecycle\<close>, \<open>Queue\<close>, \<open>Queue_Facts\<close>, \<open>Queue_Properties\<close>, \<open>Ledger\<close> (\<open>queue.py\<close>): a state
      machine on one row; the operations of the queue; that each is a refinement of the machine
      (locale \<open>lifecycle_operation\<close>, interpreted for every operation); their complete behaviour; and
      that the counters of a project are what its rows are charged.
    \<^item> \<open>Credentials\<close>, \<open>ApiKeys\<close>, \<open>WorkerTokens\<close> (\<open>api_keys.py\<close>, \<open>worker_tokens.py\<close>): secrets with
      their hashing and their tokens. \<open>RateLimit\<close>, \<open>CircuitBreaker\<close>, \<open>Idempotency\<close>,
      \<open>Worker_Health\<close>: the services of these names.

  HTTP side:
    \<^item> \<open>Config\<close>, \<open>Environment\<close> (\<open>config.py\<close>): the settings, their validation, and how variables fill
      them; \<open>Schemas\<close>, \<open>Responses\<close>: request bodies with their validation, formats.
    \<^item> \<open>Auth\<close>, \<open>Auth_Properties\<close> (\<open>dependencies.py\<close>): keys, administrators, workers, scopes.
    \<^item> \<open>Chat\<close> (\<open>routes/chat.py\<close>), \<open>Worker_Routes\<close>, \<open>Worker_Liveness\<close> (\<open>routes/internal/workers.py\<close>),
      \<open>Admin\<close>, \<open>Admin_Properties\<close> (\<open>routes/admin.py\<close>), \<open>Catalogue\<close> (\<open>usage.py\<close>, \<open>models.py\<close>,
      \<open>health.py\<close>): the endpoints.
    \<^item> \<open>Middleware\<close> (\<open>middleware.py\<close>), on applications as trees of receive, send and raise;
      \<open>Errors\<close> (\<open>errors.py\<close>); \<open>Logging\<close> (\<open>logging.py\<close>); \<open>App\<close> (\<open>main.py\<close>).

  Installation:
    \<^item> \<open>Orm_Schema\<close>, \<open>Migration\<close>: the tables that the models declare and the migration builds;
      \<open>Alembic_Env\<close> (\<open>alembic/env.py\<close>): which database it builds them in.
    \<^item> \<open>Bootstrap\<close>, \<open>Bootstrap_Properties\<close> (\<open>scripts/bootstrap-dev.py\<close>): the script as the disks after
      each of its system calls; that the gateway starts from what it leaves, and what an interrupted run
      leaves.

  The gateway as a whole:
    \<^item> \<open>Gateway\<close>: the relation \<open>gateway_step\<close>, one rule for each endpoint and one for a maintenance
      cycle, and the few changes to the database that all of them come down to (\<open>db_step\<close>, a heartbeat or one of
      the steps \<open>quiet_step\<close>, which bring no worker online).
    \<^item> \<open>Gateway_Invariant\<close>, \<open>Gateway_Bills\<close>, \<open>Gateway_Reachable\<close>: the invariant \<open>gateway_ok\<close> and that
      every step keeps it. \<open>Gateway_Board\<close>: the abstract specification, a board of request phases, and
      the simulation. \<open>Gateway_Liveness\<close>, \<open>Gateway_Safety\<close>: what follows for every reachable state.
      \<open>Gateway_Service\<close>: what becomes of a result, from its commit to the answer and the bill.
      \<open>Gateway_Workers\<close>: enrollment tokens are spent for good, and a worker that the maintenance has taken offline
      is handed nothing before its next heartbeat, whatever else happens.
    \<^item> \<open>Transactions\<close> (\<open>database.py\<close>, \<open>get_session\<close> of \<open>dependencies.py\<close>): the generators of the session protocol,
      resumed, thrown into and finalised; that the committed database is that of the atomic transactions of
      the steps, and that the transaction of a raising endpoint stays open until the abandoned generator is
      finalised. \<open>Locking\<close>, \<open>Locking_Gateway\<close>: transactions as sequences of row locks and the relation \<open>lock_step\<close>
      between their states; the locale \<open>lock_order\<close>, in which ordered sequences never deadlock, with an
      interpretation for each side of the gateway, \<open>results\<close> and \<open>chats\<close>; that the locks cover what the operations write,
      and that the two sides together can deadlock.
    \<^item> \<open>Serial_Runs\<close>: transactions as programs that lock, read and write rows one by one, the relation \<open>row_step\<close>
      in which any number of them interleave, commit and roll back, and that strict locking makes them
      serializable; the locale \<open>row_operations\<close> carries this over to operations on a whole database.
      \<open>Serial_Programs\<close>: the programs of claims, results, errors and admissions of chat requests. \<open>Serial_Gateway\<close>: that
      each implements its atomic operation (the interpretation \<open>gateway_rows\<close>), that they lock what
      \<open>Locking_Gateway\<close> says, and that in every interleaving idempotency keys stay unique and handing out and handing back a request
      balance.

  Bounds. No definition uses fuel: recursions are structural or end by a measure. The polling loop of
  the chat endpoint runs on the sequence of its clock readings; that it ends for every clock that
  advances is a property. Sequences of steps have any length.

  What is assumed. Argon2 (\<open>sound_hasher\<close>), the RS256 codec (\<open>sound_jwt\<close>), Redis (\<open>sound_counters\<close>; the locale
  \<open>redis_hashes\<close>, whose laws cover the expiry of keys) and JSONB containment are parameters with the documented laws that each property names (a failure of Argon2 other than a mismatch is an exception of the
  operations, not excluded); so are the
  reader of \<open>.env\<close> (\<open>dotenv_reader\<close>) and of integer settings (\<open>reads_numerals\<close>). A step of
  \<open>gateway_step\<close> is a committed or rolled back transaction: for admissions, claims, results and errors \<open>Serial_Gateway\<close>
  proves that nothing is lost by this, for the others PostgreSQL's row locks are taken to serialise what touches the
  same rows. A row that another transaction holds is a parameter where the code skips it. The clock that \<open>reserve\<close> reads under the project's lock does not go back; no other clock has
  to advance. Commits happen before the response (the order of FastAPI before 0.118).

  Not modelled. The construction of engines and clients, the routing of FastAPI and
  the processors of structlog other than the redaction are calls of libraries; its filter of levels is a parameter
  with the documented law. The programs of \<open>Serial_Gateway\<close> do not include a recovery, which updates every matching row of its
  snapshot, the use of a key, and the replay of an earlier chat request, which reads its row without a lock; the aliases, which an
  admission reads without a lock, do not change meanwhile. Header values are
  Latin-1 strings, bodies reach the handlers decoded; the character U+0000, which PostgreSQL refuses,
  is a \<open>DataError\<close> of the chat endpoint, and the other bodies are taken to be free of it. The answers that FastAPI gives
  itself (404, 405, a body that is no JSON) do not pass through the handlers of \<open>errors.py\<close> and are left out. In \<open>gateway_step\<close> a transaction that PostgreSQL aborts because of a deadlock is no step;
  which transactions can deadlock is the subject of \<open>Locking_Gateway\<close>, without the locks of foreign keys and of the worker (those of a
  recovery included) and enrollment rows. Full disks and missing permissions of the bootstrap script are not modelled.
\<close>

end
